(* ===== verification/Radar_Prelude.thy ===== *)
theory Radar_Prelude
  imports Main "HOL-Library.AList" "HOL-Library.Sublist" "HOL-Library.Multiset" "HOL-Library.Char_ord"
    "HOL-Library.List_Lexorder" "HOL-Library.Word"
begin

text \<open>
  Shared layer of the development: the model of the Go language and standard library features that
  the program uses, and the generic lemmas that the component theories apply.

  \<^item> Time. A \<open>time.Time\<close> is a count of nanoseconds since Go's zero time (year 1), so \<open>IsZero\<close> is
    equality with 0; a \<open>time.Duration\<close> is a signed 64-bit count of nanoseconds whose arithmetic is
    written with \<open>wrap64\<close>. \<open>time.Now()\<close> is always an argument of the function that calls it.
  \<^item> Maps. A Go map is an association list with distinct keys, updated by \<open>AList.update\<close> and
    \<open>AList.delete\<close>; the order of the list is the (unspecified) iteration order. A
    \<open>map[K]struct{}\<close> is a list of distinct keys.
  \<^item> \<open>sort.Search\<close> is the binary search of the standard library, \<open>sort.Slice\<close> is \<open>sort_key\<close>.
  \<^item> Strings are byte strings; \<open>strings.*\<close> and \<open>strconv.*\<close> are given by executable functions that
    agree with Go on ASCII text.
\<close>

section \<open>Collections of rewrite rules\<close>

named_theorems time_simps \<open>arithmetic of times and durations\<close>
named_theorems search_simps \<open>binary search as list functions\<close>
named_theorems map_simps \<open>Go maps as association lists\<close>

section \<open>Times and durations\<close>

type_synonym gtime = int
type_synonym duration = int
type_synonym queryid = int
type_synonym ('k, 'v) gomap = "('k \<times> 'v) list"

definition wrap64 :: "int \<Rightarrow> int" where
  "wrap64 x = (x + 2 ^ 63) mod 2 ^ 64 - 2 ^ 63"

definition nanosecond_per_second :: int where "nanosecond_per_second = 1000000000"
definition second_d :: duration where "second_d = 1000000000"
definition minute_d :: duration where "minute_d = 60000000000"
definition hour_d :: duration where "hour_d = 3600000000000"

definition min_duration :: duration where "min_duration = - (2 ^ 63)"
definition max_duration :: duration where "max_duration = 2 ^ 63 - 1"

text \<open>\<open>Time.Sub\<close> saturates at the ends of the duration range, \<open>Duration * n\<close> wraps.\<close>

definition time_sub :: "gtime \<Rightarrow> gtime \<Rightarrow> duration" where
  "time_sub t u = max min_duration (min max_duration (t - u))"

definition dur_mul :: "int \<Rightarrow> duration \<Rightarrow> duration" where
  "dur_mul n d = wrap64 (n * d)"

definition dur_neg :: "duration \<Rightarrow> duration" where
  "dur_neg d = wrap64 (- d)"

text \<open>Go's integer division truncates towards zero.\<close>

definition go_div :: "int \<Rightarrow> int \<Rightarrow> int" where
  "go_div a b = sgn a * sgn b * (\<bar>a\<bar> div \<bar>b\<bar>)"

definition is_zero :: "gtime \<Rightarrow> bool" where "is_zero t \<longleftrightarrow> t = 0"
definition time_before :: "gtime \<Rightarrow> gtime \<Rightarrow> bool" where "time_before t u \<longleftrightarrow> t < u"
definition time_after :: "gtime \<Rightarrow> gtime \<Rightarrow> bool" where "time_after t u \<longleftrightarrow> u < t"
definition time_add :: "gtime \<Rightarrow> duration \<Rightarrow> gtime" where "time_add t d = t + d"

definition unix_epoch_seconds :: int where "unix_epoch_seconds = 62135596800"

definition unix_seconds :: "gtime \<Rightarrow> int" where
  "unix_seconds t = t div nanosecond_per_second - unix_epoch_seconds"

text \<open>\<open>UnixNano\<close> wraps outside the years 1678 to 2262.\<close>

definition unix_nano :: "gtime \<Rightarrow> int" where
  "unix_nano t = wrap64 (t - unix_epoch_seconds * nanosecond_per_second)"

lemmas [time_simps] = is_zero_def time_before_def time_after_def time_add_def

lemma wrap64_id:
  assumes "- (2 ^ 63) \<le> x" "x < 2 ^ 63"
  shows "wrap64 x = x"
  using assms by (simp add: wrap64_def)

lemma wrap64_bounds: "- (2 ^ 63) \<le> wrap64 x \<and> wrap64 x < 2 ^ 63"
proof -
  have "(0::int) \<le> (x + 2 ^ 63) mod 2 ^ 64" "(x + 2 ^ 63) mod 2 ^ 64 < (2::int) ^ 64"
    by (rule pos_mod_sign, simp) (rule pos_mod_bound, simp)
  then show ?thesis by (simp add: wrap64_def)
qed

lemma wrap64_cong: "wrap64 x mod 2 ^ 64 = x mod 2 ^ 64"
  by (simp add: wrap64_def mod_diff_left_eq)

lemma wrap64_eq_imp_eq:
  assumes "wrap64 x = wrap64 y" "\<bar>x - y\<bar> < 2 ^ 64"
  shows "x = y"
proof -
  have "x mod 2 ^ 64 = y mod 2 ^ 64" using assms(1) wrap64_cong by metis
  then obtain k where k: "x - y = 2 ^ 64 * k" by (metis mod_eq_dvd_iff dvdE)
  then have "\<bar>2 ^ 64 * k\<bar> < (2::int) ^ 64" using assms(2) by simp
  then have "\<bar>k\<bar> < 1" by (simp add: abs_mult)
  then have "k = 0" by simp
  with k show ?thesis by simp
qed

lemma time_sub_bounds: "min_duration \<le> time_sub t u \<and> time_sub t u \<le> max_duration"
  by (auto simp: time_sub_def min_duration_def max_duration_def)

section \<open>Binary search (\<open>sort.Search\<close>)\<close>

text \<open>The standard library's loop: the invariant is that \<open>f\<close> fails below \<open>i\<close> and holds from \<open>j\<close> on.\<close>

function search_loop :: "(nat \<Rightarrow> bool) \<Rightarrow> nat \<Rightarrow> nat \<Rightarrow> nat" where
  "search_loop f i j =
     (if i < j then
        (let h = (i + j) div 2 in
         if \<not> f h then search_loop f (h + 1) j else search_loop f i h)
      else i)"
  by pat_completeness auto
termination by (relation "measure (\<lambda>(f, i, j). j - i)") auto

declare search_loop.simps [simp del]

definition sort_search :: "nat \<Rightarrow> (nat \<Rightarrow> bool) \<Rightarrow> nat" where
  "sort_search n f = search_loop f 0 n"

lemma search_loop_step:
  "i < j \<Longrightarrow> search_loop f i j = (if f ((i + j) div 2) then search_loop f i ((i + j) div 2)
     else search_loop f ((i + j) div 2 + 1) j)"
  "\<not> i < j \<Longrightarrow> search_loop f i j = i"
  by (simp_all add: search_loop.simps [of f i j] Let_def)

lemma search_loop_spec:
  assumes "i \<le> j" "\<forall>k<i. \<not> f k" "\<forall>k. j \<le> k \<and> k < n \<longrightarrow> f k" "j \<le> n"
    and "\<forall>k l. k \<le> l \<and> l < n \<and> f k \<longrightarrow> f l"
  shows "search_loop f i j \<le> n \<and> (\<forall>k < search_loop f i j. \<not> f k) \<and>
         (\<forall>k. search_loop f i j \<le> k \<and> k < n \<longrightarrow> f k)"
  using assms
proof (induction f i j rule: search_loop.induct)
  case (1 f i j)
  show ?case
  proof (cases "i < j")
    case True
    define h where "h = (i + j) div 2"
    have h: "i \<le> h" "h < j" "h < n" using True "1.prems" by (auto simp: h_def)
    note mono = "1.prems"(5)
    show ?thesis
    proof (cases "f h")
      case fh: True
      have up: "\<forall>k. h \<le> k \<and> k < n \<longrightarrow> f k" using mono fh by blast
      have step: "search_loop f i j = search_loop f i h"
        using search_loop_step(1) [OF True, of f] fh by (simp add: h_def)
      have "\<not> \<not> f h" using fh by simp
      from "1.IH"(2) [OF True h_def this h(1) "1.prems"(2) up less_imp_le [OF h(3)] mono]
      show ?thesis unfolding step .
    next
      case nfh: False
      have low: "\<forall>k<h + 1. \<not> f k" using mono nfh h by (metis less_Suc_eq_le Suc_eq_plus1)
      have step: "search_loop f i j = search_loop f (h + 1) j"
        using search_loop_step(1) [OF True, of f] nfh by (simp add: h_def)
      have "h + 1 \<le> j" using h(2) by simp
      from "1.IH"(1) [OF True h_def nfh this low "1.prems"(3,4) mono]
      show ?thesis unfolding step .
    qed
  next
    case False
    then show ?thesis using "1.prems" search_loop_step(2) [OF False, of f] by simp
  qed
qed

text \<open>On a list where the predicate is upward closed, the search finds the end of the prefix on
  which the predicate fails.\<close>

lemma sort_search_takeWhile:
  assumes "sorted_wrt (\<lambda>x y. P x \<longrightarrow> P y) xs"
  shows "sort_search (length xs) (\<lambda>i. P (xs ! i)) = length (takeWhile (\<lambda>x. \<not> P x) xs)"
    (is "?s = ?t")
proof -
  have mono: "\<forall>k l. k \<le> l \<and> l < length xs \<and> P (xs ! k) \<longrightarrow> P (xs ! l)"
    using assms by (metis le_neq_implies_less sorted_wrt_nth_less)
  have s: "?s \<le> length xs \<and> (\<forall>k<?s. \<not> P (xs ! k)) \<and> (\<forall>k. ?s \<le> k \<and> k < length xs \<longrightarrow> P (xs ! k))"
    unfolding sort_search_def by (rule search_loop_spec) (use mono in auto)
  have "?t \<le> length xs" by (rule length_takeWhile_le)
  moreover have "\<not> ?t < ?s"
    using s nth_length_takeWhile [of "\<lambda>x. \<not> P x" xs] by (metis order.strict_trans2)
  moreover have "\<not> ?s < ?t"
    using s nth_mem set_takeWhileD takeWhile_nth by (metis (no_types, lifting) calculation(1) order.refl order.strict_trans2)
  ultimately show ?thesis by simp
qed

lemma filter_by_search:
  assumes "sorted_wrt (\<lambda>x y. P x \<longrightarrow> P y) xs"
  shows "drop (sort_search (length xs) (\<lambda>i. P (xs ! i))) xs = filter P xs"
    and "take (sort_search (length xs) (\<lambda>i. P (xs ! i))) xs = filter (\<lambda>x. \<not> P x) xs"
proof -
  have "dropWhile (\<lambda>x. \<not> P x) xs = filter P xs \<and> takeWhile (\<lambda>x. \<not> P x) xs = filter (\<lambda>x. \<not> P x) xs"
    using assms by (induction xs) (auto simp: filter_id_conv filter_empty_conv[THEN iffD2])
  then show "drop (sort_search (length xs) (\<lambda>i. P (xs ! i))) xs = filter P xs"
    and "take (sort_search (length xs) (\<lambda>i. P (xs ! i))) xs = filter (\<lambda>x. \<not> P x) xs"
    by (metis sort_search_takeWhile [OF assms] dropWhile_eq_drop,
        metis sort_search_takeWhile [OF assms] takeWhile_eq_take)
qed

lemma filter_by_takeWhile:
  assumes "sorted_wrt (\<lambda>x y. P y \<longrightarrow> P x) xs"
  shows "takeWhile P xs = filter P xs"
  using assms by (induction xs) (auto simp: filter_empty_conv [THEN iffD2])

section \<open>Lists sorted by a time key\<close>

definition sorted_by :: "('a \<Rightarrow> int) \<Rightarrow> 'a list \<Rightarrow> bool" where
  "sorted_by k xs = sorted (map k xs)"

lemma sorted_by_wrt: "sorted_by k xs \<longleftrightarrow> sorted_wrt (\<lambda>x y. k x \<le> k y) xs"
  by (simp add: sorted_by_def sorted_map)

lemma sorted_by_Nil [simp]: "sorted_by k []"
  by (simp add: sorted_by_def)

lemma sorted_by_sort_key [simp]: "sorted_by k (sort_key k xs)"
  by (simp add: sorted_by_def)

lemma sorted_by_filter [intro]: "sorted_by k xs \<Longrightarrow> sorted_by k (filter P xs)"
  by (simp add: sorted_by_wrt sorted_wrt_filter)

lemma sorted_by_append:
  "sorted_by k (xs @ ys) \<longleftrightarrow> sorted_by k xs \<and> sorted_by k ys \<and> (\<forall>x\<in>set xs. \<forall>y\<in>set ys. k x \<le> k y)"
  by (auto simp: sorted_by_def sorted_append)

lemma sorted_by_last:
  assumes "sorted_by k xs" "x \<in> set xs"
  shows "k x \<le> k (last xs)"
proof -
  have "xs = butlast xs @ [last xs]" using assms(2) by (cases xs rule: rev_cases) auto
  then show ?thesis using assms
    by (metis (no_types, lifting) Un_iff list.set_intros(1) order_refl set_ConsD empty_iff list.set(1)
        set_append sorted_by_append)
qed

lemma sorted_by_mono_lower:
  assumes "sorted_by k xs"
  shows "sorted_wrt (\<lambda>x y. \<not> k x < c \<longrightarrow> \<not> k y < c) xs"
    and "sorted_wrt (\<lambda>x y. c < k x \<longrightarrow> c < k y) xs"
    and "sorted_wrt (\<lambda>x y. \<not> c < k y \<longrightarrow> \<not> c < k x) xs"
  by (rule sorted_wrt_mono_rel [OF _ assms [unfolded sorted_by_wrt]], linarith)+

text \<open>The range query that several components write by hand: skip to the first element not before
  \<open>from\<close> by binary search, then copy until an element is after \<open>to\<close>.\<close>

definition range_filter :: "('a \<Rightarrow> int) \<Rightarrow> int \<Rightarrow> int \<Rightarrow> 'a list \<Rightarrow> 'a list" where
  "range_filter k lo hi xs = filter (\<lambda>x. lo \<le> k x \<and> k x \<le> hi) xs"

lemma range_by_search [search_simps]:
  assumes "sorted_by k xs"
  shows "takeWhile (\<lambda>x. \<not> hi < k x) (drop (sort_search (length xs) (\<lambda>i. \<not> k (xs ! i) < lo)) xs)
         = range_filter k lo hi xs"
proof -
  have "drop (sort_search (length xs) (\<lambda>i. \<not> k (xs ! i) < lo)) xs = filter (\<lambda>x. \<not> k x < lo) xs"
    by (rule filter_by_search(1) [OF sorted_by_mono_lower(1) [OF assms]])
  moreover have "takeWhile (\<lambda>x. \<not> hi < k x) (filter (\<lambda>x. \<not> k x < lo) xs)
                 = filter (\<lambda>x. \<not> hi < k x) (filter (\<lambda>x. \<not> k x < lo) xs)"
    using sorted_by_filter [OF assms] by (intro filter_by_takeWhile sorted_by_mono_lower(3))
  ultimately show ?thesis
    by (simp add: range_filter_def) (intro filter_cong refl, auto)
qed

text \<open>Insertion at the position found by binary search keeps the list sorted and inserts once.\<close>

definition insert_at :: "nat \<Rightarrow> 'a \<Rightarrow> 'a list \<Rightarrow> 'a list" where
  "insert_at i x xs = take i xs @ x # drop i xs"

lemma insert_by_search:
  assumes "sorted_by k xs"
  shows "insert_at (sort_search (length xs) (\<lambda>i. c < k (xs ! i))) x xs
         = filter (\<lambda>y. \<not> c < k y) xs @ x # filter (\<lambda>y. c < k y) xs"
  using filter_by_search [OF sorted_by_mono_lower(2) [OF assms]] by (simp add: insert_at_def)

lemma insert_by_search_sorted:
  assumes "sorted_by k xs"
  shows "sorted_by k (insert_at (sort_search (length xs) (\<lambda>i. k x < k (xs ! i))) x xs)"
  using sorted_by_filter [OF assms]
  by (auto simp: insert_by_search [OF assms] sorted_by_wrt sorted_wrt_append)

lemma mset_insert_at [simp]: "mset (insert_at i x xs) = add_mset x (mset xs)"
proof -
  have "mset (take i xs) + mset (drop i xs) = mset xs"
    by (metis append_take_drop_id mset_append)
  then show ?thesis by (simp add: insert_at_def)
qed

lemma set_insert_at [simp]: "set (insert_at i x xs) = insert x (set xs)"
  by (metis mset_insert_at set_mset_add_mset_insert set_mset_mset)

lemma length_insert_at [simp]: "length (insert_at i x xs) = Suc (length xs)"
  by (metis mset_insert_at size_add_mset size_mset)

text \<open>Inserting after the elements that are not later is one step of a stable insertion sort.\<close>

lemma insert_by_search_sort_key:
  fixes k :: "'a \<Rightarrow> int"
  shows "insert_at (sort_search (length (sort_key k xs)) (\<lambda>i. k x < k (sort_key k xs ! i))) x (sort_key k xs)
   = sort_key k (xs @ [x])" (is "?ys = _")
proof (rule sym, rule properties_for_sort_key)
  have srt: "sorted_by k (sort_key k xs)" by simp
  show "mset ?ys = mset (xs @ [x])" by simp
  show "sorted (map k ?ys)"
    using insert_by_search_sorted [OF srt] by (simp add: sorted_by_def)
  fix y assume "y \<in> set ?ys"
  have eq: "filter (\<lambda>z. k y = k z) (sort_key k xs) = filter (\<lambda>z. k y = k z) xs"
    using sort_key_stable [of k "k y" xs] by (simp add: eq_commute [of "k y"])
  have "filter (\<lambda>z. k y = k z) ?ys =
        filter (\<lambda>z. k y = k z \<and> \<not> k x < k z) (sort_key k xs) @
        (if k y = k x then [x] else []) @ filter (\<lambda>z. k y = k z \<and> k x < k z) (sort_key k xs)"
    unfolding insert_by_search [OF srt] by (simp add: conj_commute)
  also have "\<dots> = filter (\<lambda>z. k y = k z) (sort_key k xs) @ (if k y = k x then [x] else [])"
  proof (cases "k x < k y")
    case True
    then have "filter (\<lambda>z. k y = k z \<and> \<not> k x < k z) (sort_key k xs) = []"
      "filter (\<lambda>z. k y = k z \<and> k x < k z) (sort_key k xs) = filter (\<lambda>z. k y = k z) (sort_key k xs)"
      by (auto simp: filter_empty_conv intro!: filter_cong)
    then show ?thesis using True by simp
  next
    case False
    then have "filter (\<lambda>z. k y = k z \<and> k x < k z) (sort_key k xs) = []"
      "filter (\<lambda>z. k y = k z \<and> \<not> k x < k z) (sort_key k xs) = filter (\<lambda>z. k y = k z) (sort_key k xs)"
      by (auto simp: filter_empty_conv intro!: filter_cong)
    then show ?thesis by simp
  qed
  also have "\<dots> = filter (\<lambda>z. k y = k z) (xs @ [x])" using eq by simp
  finally show "filter (\<lambda>z. k y = k z) ?ys = filter (\<lambda>z. k y = k z) (xs @ [x])" .
qed

lemma sort_cong_mset: "mset xs = mset ys \<Longrightarrow> sort xs = sort ys"
  by (metis mset_sort properties_for_sort sorted_sort)

lemma range_filter_sort_key: "range_filter k lo hi (sort_key k xs) = sort_key k (range_filter k lo hi xs)"
  by (simp add: range_filter_def filter_sort)

section \<open>Go maps and sets\<close>

text \<open>Reading a missing key yields the zero value of the element type.\<close>

definition map_get :: "'v \<Rightarrow> ('k, 'v) gomap \<Rightarrow> 'k \<Rightarrow> 'v" where
  "map_get z m k = (case map_of m k of None \<Rightarrow> z | Some v \<Rightarrow> v)"

definition map_keys :: "('k, 'v) gomap \<Rightarrow> 'k list" where
  "map_keys m = map fst m"

definition set_add :: "'k \<Rightarrow> 'k list \<Rightarrow> 'k list" where
  "set_add k ks = (if k \<in> set ks then ks else ks @ [k])"

definition set_remove :: "'k \<Rightarrow> 'k list \<Rightarrow> 'k list" where
  "set_remove k ks = filter (\<lambda>x. x \<noteq> k) ks"

lemma set_set_add [simp]: "set (set_add k ks) = insert k (set ks)"
  by (auto simp: set_add_def)

lemma distinct_set_add [simp]: "distinct (set_add k ks) = distinct ks"
  by (auto simp: set_add_def)

lemma set_set_remove [simp]: "set (set_remove k ks) = set ks - {k}"
  by (auto simp: set_remove_def)

lemma distinct_set_remove [intro]: "distinct ks \<Longrightarrow> distinct (set_remove k ks)"
  by (simp add: set_remove_def)

lemma map_of_update [map_simps]: "map_of (AList.update k v m) = (map_of m)(k \<mapsto> v)"
  by (rule update_conv')

lemma map_of_delete [map_simps]: "map_of (AList.delete k m) = (map_of m)(k := None)"
  by (rule delete_conv')

lemma map_get_update [simp]: "map_get z (AList.update k v m) j = (if j = k then v else map_get z m j)"
  by (simp add: map_get_def map_simps)

lemma map_get_delete [simp]: "map_get z (AList.delete k m) j = (if j = k then z else map_get z m j)"
  by (simp add: map_get_def map_simps)

lemma map_get_Nil [simp]: "map_get z [] k = z"
  by (simp add: map_get_def)

lemma map_get_Cons [simp]: "map_get z ((j, v) # m) k = (if k = j then v else map_get z m k)"
  by (simp add: map_get_def)

lemma map_get_notin: "k \<notin> fst ` set m \<Longrightarrow> map_get z m k = z"
  by (simp add: map_get_def map_of_eq_None_iff [THEN iffD2])

lemma map_get_in: "distinct (map fst m) \<Longrightarrow> (k, v) \<in> set m \<Longrightarrow> map_get z m k = v"
  by (simp add: map_get_def)

lemma update_same: "distinct (map fst m) \<Longrightarrow> (k, v) \<in> set m \<Longrightarrow> AList.update k v m = m"
proof (induction m)
  case (Cons p m)
  then show ?case by (cases p) (auto simp: rev_image_eqI)
qed simp

lemma dom_update [map_simps]: "fst ` set (AList.update k v m) = insert k (fst ` set m)"
  by (metis (no_types, lifting) dom_fun_upd dom_map_of_conv_image_fst map_of_update option.distinct(1))

lemma dom_delete [map_simps]: "fst ` set (AList.delete k m) = fst ` set m - {k}"
  by (metis dom_fun_upd dom_map_of_conv_image_fst map_of_delete)

lemma set_map_keys [simp]: "set (map_keys m) = dom (map_of m)"
  by (simp add: map_keys_def dom_map_of_conv_image_fst)

end
