(* ===== verification/Go_Strings.thy ===== *)
theory Go_Strings
  imports Radar_Prelude
begin

text \<open>
  The parts of \<open>strings\<close>, \<open>strconv\<close> and \<open>fmt\<close> that the program uses, as executable functions on byte
  strings. Case mapping and white space are those of ASCII; a byte from 0x80 on (part of a multi-byte
  rune) is left alone by case mapping and is neither a letter nor white space.
\<close>

section \<open>Bytes\<close>

definition byte :: "char \<Rightarrow> nat" where "byte c = of_char c"

definition char_in :: "char \<Rightarrow> char \<Rightarrow> char \<Rightarrow> bool" where
  "char_in lo hi c \<longleftrightarrow> byte lo \<le> byte c \<and> byte c \<le> byte hi"

definition is_digit :: "char \<Rightarrow> bool" where "is_digit c = char_in CHR ''0'' CHR ''9'' c"
definition is_upper :: "char \<Rightarrow> bool" where "is_upper c = char_in CHR ''A'' CHR ''Z'' c"
definition is_lower :: "char \<Rightarrow> bool" where "is_lower c = char_in CHR ''a'' CHR ''z'' c"

text \<open>\<open>unicode.IsSpace\<close> on ASCII (used by \<open>strings.TrimSpace\<close>), and the class \<open>\s\<close> of RE2, which has
  no vertical tab.\<close>

definition is_space :: "char \<Rightarrow> bool" where
  "is_space c \<longleftrightarrow> byte c = 32 \<or> (9 \<le> byte c \<and> byte c \<le> 13)"

definition re_space :: "char \<Rightarrow> bool" where
  "re_space c \<longleftrightarrow> byte c = 32 \<or> byte c = 9 \<or> byte c = 10 \<or> byte c = 12 \<or> byte c = 13"

definition lower_char :: "char \<Rightarrow> char" where
  "lower_char c = (if is_upper c then char_of (byte c + 32) else c)"

definition to_lower :: "string \<Rightarrow> string" where "to_lower s = map lower_char s"

definition to_upper :: "string \<Rightarrow> string" where
  "to_upper s = map (\<lambda>c. if is_lower c then char_of (byte c - 32) else c) s"

definition trim_left :: "string \<Rightarrow> string" where "trim_left s = dropWhile is_space s"

definition trim_space :: "string \<Rightarrow> string" where
  "trim_space s = rev (trim_left (rev (trim_left s)))"

section \<open>Numbers\<close>

definition digit_char :: "nat \<Rightarrow> char" where
  "digit_char d = (if d < 10 then char_of (48 + d) else char_of (87 + d))"

fun format_uint :: "nat \<Rightarrow> nat \<Rightarrow> string" where
  "format_uint b n =
     (if b < 2 \<or> n < b then [digit_char n] else format_uint b (n div b) @ [digit_char (n mod b)])"

declare format_uint.simps [simp del]

definition format_int :: "int \<Rightarrow> string" where
  "format_int x = (if x < 0 then CHR ''-'' # format_uint 10 (nat (- x)) else format_uint 10 (nat x))"

definition digit_value :: "char \<Rightarrow> nat" where
  "digit_value c = (if is_digit c then byte c - 48 else byte c - 87)"

definition parse_digits :: "nat \<Rightarrow> string \<Rightarrow> nat" where
  "parse_digits b s = foldl (\<lambda>a c. a * b + digit_value c) 0 s"

text \<open>\<open>strconv.Atoi\<close> and \<open>strconv.ParseInt(s, 10, 64)\<close>: an optional sign and decimal digits; a value
  outside the 64-bit range is an error.\<close>

definition parse_int :: "string \<Rightarrow> int option" where
  "parse_int s =
     (let (neg, ds) = (case s of [] \<Rightarrow> (False, []) | c # cs \<Rightarrow>
              if c = CHR ''-'' then (True, cs) else if c = CHR ''+'' then (False, cs) else (False, s));
          v = int (parse_digits 10 ds);
          x = (if neg then - v else v)
      in if ds \<noteq> [] \<and> list_all is_digit ds \<and> - (2 ^ 63) \<le> x \<and> x < 2 ^ 63 then Some x else None)"

lemma of_char_char_of_small: "n < 256 \<Longrightarrow> of_char (char_of n :: char) = (n :: nat)"
  by (simp add: of_char_of)

lemma digit_value_digit_char: "d < 36 \<Longrightarrow> digit_value (digit_char d) = d"
  by (simp add: digit_value_def digit_char_def is_digit_def char_in_def byte_def of_char_char_of_small)

lemma is_digit_digit_char: "d < 10 \<Longrightarrow> is_digit (digit_char d)"
  by (simp add: digit_char_def is_digit_def char_in_def byte_def of_char_char_of_small)

lemma format_uint_nonempty [simp]: "format_uint b n \<noteq> []"
  by (subst format_uint.simps) simp

lemma parse_format_uint:
  assumes "2 \<le> b" "b \<le> 36"
  shows "parse_digits b (format_uint b n) = n"
proof (induction n rule: less_induct)
  case (less n)
  show ?case
  proof (cases "n < b")
    case True
    then show ?thesis using assms
      by (simp add: format_uint.simps [of b n] parse_digits_def digit_value_digit_char)
  next
    case False
    then have "n div b < n" using assms by (simp add: div_less_dividend)
    moreover have "n mod b < 36" using assms by (meson mod_less_divisor order_less_le_trans zero_less_numeral)
    ultimately show ?thesis using less False assms
      by (simp add: format_uint.simps [of b n] parse_digits_def digit_value_digit_char)
  qed
qed

lemma format_uint_inj:
  assumes "2 \<le> b" "b \<le> 36" "format_uint b n = format_uint b m"
  shows "n = m"
  using parse_format_uint [OF assms(1,2)] assms(3) by metis

lemma format_uint_digits: "list_all is_digit (format_uint 10 n)"
proof (induction n rule: less_induct)
  case (less n)
  then show ?case
    by (cases "n < 10") (simp_all add: format_uint.simps [of 10 n] is_digit_digit_char)
qed

text \<open>\<open>strconv.ParseInt\<close> inverts the decimal rendering of every 64-bit integer.\<close>

lemma parse_format_int:
  assumes "- (2 ^ 63) \<le> x" "x < 2 ^ 63"
  shows "parse_int (format_int x) = Some x"
proof (cases "x < 0")
  case True
  have "int (parse_digits 10 (format_uint 10 (nat (- x)))) = - x"
    using True by (simp add: parse_format_uint)
  then show ?thesis using True assms format_uint_digits [of "nat (- x)"]
    by (simp add: parse_int_def format_int_def Let_def)
next
  case False
  obtain c cs where f: "format_uint 10 (nat x) = c # cs"
    by (cases "format_uint 10 (nat x)") auto
  have dig: "is_digit c" using format_uint_digits [of "nat x"] by (simp add: f)
  then have "c \<noteq> CHR ''-''" "c \<noteq> CHR ''+''"
    by (auto simp: is_digit_def char_in_def byte_def)
  moreover have "int (parse_digits 10 (c # cs)) = x"
    using False parse_format_uint [of 10 "nat x"] by (simp add: f)
  ultimately show ?thesis using False assms format_uint_digits [of "nat x"]
    by (simp add: parse_int_def format_int_def Let_def f)
qed

lemma minus_notin_format_uint: "CHR ''-'' \<notin> set (format_uint 10 n)"
  using format_uint_digits [of n] by (auto simp: list_all_iff is_digit_def char_in_def byte_def)

lemma format_int_inj: "format_int x = format_int y \<Longrightarrow> x = y"
proof -
  have ne: "CHR ''-'' # s \<noteq> format_uint 10 n" for s n using minus_notin_format_uint [of n] by (metis list.set_intros(1))
  assume "format_int x = format_int y"
  then show ?thesis using ne ne [symmetric] format_uint_inj [of 10 "nat x" "nat y"] format_uint_inj [of 10 "nat (- x)" "nat (- y)"]
    by (auto simp: format_int_def split: if_splits)
qed

text \<open>A separator that does not occur after it splits a text uniquely.\<close>

lemma append_sep_unique:
  assumes "c \<notin> set t" "c \<notin> set t'" "s @ c # t = s' @ c # t'"
  shows "s = s' \<and> t = t'"
  using assms by (auto simp: append_eq_append_conv2 Cons_eq_append_conv append_eq_Cons_conv)

section \<open>Splitting, joining, searching\<close>

fun split_on :: "char \<Rightarrow> string \<Rightarrow> string list" where
  "split_on sep [] = [[]]"
| "split_on sep (c # cs) =
     (if c = sep then [] # split_on sep cs
      else (case split_on sep cs of [] \<Rightarrow> [[c]] | p # ps \<Rightarrow> (c # p) # ps))"

fun join_with :: "string \<Rightarrow> string list \<Rightarrow> string" where
  "join_with sep [] = []"
| "join_with sep [x] = x"
| "join_with sep (x # y # zs) = x @ sep @ join_with sep (y # zs)"

fun str_contains :: "string \<Rightarrow> string \<Rightarrow> bool" where
  "str_contains p [] \<longleftrightarrow> p = []"
| "str_contains p (c # cs) \<longleftrightarrow> prefix p (c # cs) \<or> str_contains p cs"

definition has_prefix :: "string \<Rightarrow> string \<Rightarrow> bool" where "has_prefix s p = prefix p s"
definition has_suffix :: "string \<Rightarrow> string \<Rightarrow> bool" where "has_suffix s p = suffix p s"

lemma split_on_nonempty [simp]: "split_on sep s \<noteq> []"
  by (cases s) (auto split: list.splits)

lemma join_with_Cons: "xs \<noteq> [] \<Longrightarrow> join_with sep (x # xs) = x @ sep @ join_with sep xs"
  by (cases xs) auto

lemma join_split: "join_with [sep] (split_on sep s) = s"
proof (induction s)
  case (Cons c cs)
  obtain p ps where "split_on sep cs = p # ps" by (cases "split_on sep cs") auto
  with Cons show ?case by (cases ps) (auto simp: join_with_Cons)
qed simp

lemma split_on_no_sep: "p \<in> set (split_on sep s) \<Longrightarrow> sep \<notin> set p"
  by (induction s arbitrary: p) (auto split: if_splits list.splits)

lemma split_on_only: "sep \<notin> set s \<Longrightarrow> split_on sep s = [s]"
  by (induction s) auto

section \<open>Case mapping and trimming\<close>

lemma lower_char_idem [simp]: "lower_char (lower_char c) = lower_char c"
proof (cases "is_upper c")
  case True
  then have "byte c + 32 < 256" "90 < byte c + 32"
    by (auto simp: is_upper_def char_in_def byte_def)
  then have "\<not> is_upper (char_of (byte c + 32))"
    by (simp add: is_upper_def char_in_def byte_def of_char_char_of_small)
  then show ?thesis by (simp add: lower_char_def)
qed (simp add: lower_char_def)

lemma to_lower_idem [simp]: "to_lower (to_lower s) = to_lower s"
  by (simp add: to_lower_def)

lemma to_lower_append [simp]: "to_lower (s @ t) = to_lower s @ to_lower t"
  by (simp add: to_lower_def)

lemma dropWhile_idem: "dropWhile P (dropWhile P xs) = dropWhile P xs"
  by (induction xs) auto

lemma hd_dropWhile_not: "dropWhile P xs \<noteq> [] \<Longrightarrow> \<not> P (hd (dropWhile P xs))"
  by (induction xs) auto

lemma last_trim_left: "trim_left s \<noteq> [] \<Longrightarrow> last (trim_left s) = last s"
  unfolding trim_left_def by (induction s) auto

lemma trim_space_ends:
  assumes "trim_space s \<noteq> []"
  shows "\<not> is_space (hd (trim_space s))" "\<not> is_space (last (trim_space s))"
proof -
  let ?t = "trim_left s" and ?u = "trim_left (rev (trim_left s))"
  have u: "?u \<noteq> []" using assms by (simp add: trim_space_def)
  then have t: "?t \<noteq> []" by (metis dropWhile.simps(1) rev.simps(1) trim_left_def)
  have "hd (trim_space s) = last ?u" by (simp add: trim_space_def hd_rev)
  also have "\<dots> = hd ?t" using last_trim_left [OF u] by (simp add: last_rev)
  finally show "\<not> is_space (hd (trim_space s))"
    using hd_dropWhile_not t unfolding trim_left_def by metis
  have "last (trim_space s) = hd ?u" by (simp add: trim_space_def last_rev)
  then show "\<not> is_space (last (trim_space s))"
    using hd_dropWhile_not u unfolding trim_left_def by metis
qed

lemma trim_left_noop: "s = [] \<or> \<not> is_space (hd s) \<Longrightarrow> trim_left s = s"
  by (cases s) (auto simp: trim_left_def)

lemma trim_space_idem [simp]: "trim_space (trim_space s) = trim_space s"
proof (cases "trim_space s = []")
  case False
  then show ?thesis using trim_space_ends [OF False]
    by (simp add: trim_space_def [of "trim_space s"] trim_left_noop hd_rev)
qed (simp add: trim_space_def [of "[]"] trim_left_def)

text \<open>The first string of a list that is not empty, for fields with fallbacks.\<close>

fun first_set :: "string list \<Rightarrow> string" where
  "first_set [] = []"
| "first_set (s # ss) = (if s = [] then first_set ss else s)"

end
