(* ===== verification/Fingerprint.thy ===== *)
theory Fingerprint
  imports Go_Strings
begin

unbundle bit_operations_syntax

text \<open>
  Query fingerprints (\<open>internal/collector/fingerprint.go\<close>): the single-pass scanner that removes
  comments and literals, the regular-expression passes of \<open>normalizeQueryText\<close> as explicit matchers,
  and the FNV-1a hash. The scanner works on the reversed text already read (for the two characters
  that decide whether a quote starts an escape string) and the rest of the text; every skip function
  returns how many characters it consumes. The text is ASCII: a byte from 0x80 on counts as a
  character that is neither a letter, a digit nor white space.
\<close>

section \<open>Scanner\<close>

definition isIdentChar :: "char \<Rightarrow> bool" where
  "isIdentChar c \<longleftrightarrow> is_upper c \<or> is_lower c \<or> is_digit c \<or> c = CHR ''_''"

definition placeholder :: string where "placeholder = ''?''"

abbreviation "quote_c \<equiv> CHR 0x27"
abbreviation "dquote_c \<equiv> CHR 0x22"
abbreviation "backslash_c \<equiv> CHR 0x5C"

definition starts_with :: "char \<Rightarrow> string \<Rightarrow> bool" where
  "starts_with c s = (case s of [] \<Rightarrow> False | d # _ \<Rightarrow> d = c)"

definition line_comment_len :: "string \<Rightarrow> nat" where
  "line_comment_len cs = length (takeWhile (\<lambda>c. c \<noteq> CHR 10) cs)"

fun block_comment_len :: "nat \<Rightarrow> string \<Rightarrow> nat" where
  "block_comment_len 0 cs = 0"
| "block_comment_len (Suc d) [] = 0"
| "block_comment_len (Suc d) [c] = 1"
| "block_comment_len (Suc d) (c # e # cs) =
     (if c = CHR ''/'' \<and> e = CHR ''*'' then 2 + block_comment_len (Suc (Suc d)) cs
      else if c = CHR ''*'' \<and> e = CHR ''/'' then 2 + block_comment_len d cs
      else 1 + block_comment_len (Suc d) (e # cs))"

fun string_len :: "bool \<Rightarrow> string \<Rightarrow> nat" where
  "string_len esc [] = 0"
| "string_len esc [c] = 1"
| "string_len esc (c # e # cs) =
     (if c = quote_c then (if e = quote_c then 2 + string_len esc cs else 1)
      else if esc \<and> c = backslash_c then 2 + string_len esc cs
      else 1 + string_len esc (e # cs))"

fun quoted_ident_len :: "string \<Rightarrow> nat" where
  "quoted_ident_len [] = 0"
| "quoted_ident_len [c] = 1"
| "quoted_ident_len (c # e # cs) =
     (if c = dquote_c then (if e = dquote_c then 2 + quoted_ident_len cs else 1)
      else 1 + quoted_ident_len (e # cs))"

definition escape_syntax :: "string \<Rightarrow> bool" where
  "escape_syntax prev = (case prev of [] \<Rightarrow> False | [p] \<Rightarrow> p = CHR ''E'' \<or> p = CHR ''e''
     | p # p2 # _ \<Rightarrow> (p = CHR ''E'' \<or> p = CHR ''e'') \<and> \<not> isIdentChar p2)"

text \<open>\<open>dollarQuoteTag\<close> on the text from a dollar sign on: the tag and the length of the opening
  delimiter. \<open>findDollarQuoteEnd\<close> returns the position right after the first closer.\<close>

definition dollarQuoteTag :: "string \<Rightarrow> (string \<times> nat) option" where
  "dollarQuoteTag cs =
     (case cs of [] \<Rightarrow> None
      | c # ds \<Rightarrow>
          if c \<noteq> CHR ''$'' then None
          else let tag = takeWhile isIdentChar ds
               in if starts_with CHR ''$'' (drop (length tag) ds) then Some (tag, length tag + 2) else None)"

fun findDollarQuoteEnd :: "string \<Rightarrow> string \<Rightarrow> nat option" where
  "findDollarQuoteEnd closer [] = (if closer = [] then Some 0 else None)"
| "findDollarQuoteEnd closer (c # cs) =
     (if prefix closer (c # cs) then Some (length closer)
      else map_option Suc (findDollarQuoteEnd closer cs))"

definition dollar_quote_len :: "string \<Rightarrow> nat option" where
  "dollar_quote_len cs =
     (case dollarQuoteTag cs of None \<Rightarrow> None
      | Some (tag, n) \<Rightarrow> map_option ((+) n) (findDollarQuoteEnd (''$'' @ tag @ ''$'') (drop n cs)))"

text \<open>One step of the scanner: the text written and the (positive) number of characters consumed.\<close>

definition scan_token :: "string \<Rightarrow> char \<Rightarrow> string \<Rightarrow> string \<times> nat" where
  "scan_token prev c cs =
     (if c = CHR ''-'' \<and> starts_with CHR ''-'' cs then ('' '', 2 + line_comment_len (drop 1 cs))
      else if c = CHR ''/'' \<and> starts_with CHR ''*'' cs then ('' '', 2 + block_comment_len 1 (drop 1 cs))
      else if c = quote_c then (placeholder, 1 + string_len (escape_syntax prev) cs)
      else if c = dquote_c then (c # take (quoted_ident_len cs) cs, 1 + quoted_ident_len cs)
      else if c = CHR ''$'' then
        (case dollar_quote_len (c # cs) of Some n \<Rightarrow> (placeholder, n) | None \<Rightarrow> ([c], 1))
      else ([c], 1))"

lemma dollar_quote_len_pos: "dollar_quote_len cs = Some n \<Longrightarrow> 0 < n"
  by (auto simp: dollar_quote_len_def dollarQuoteTag_def Let_def split: option.splits list.splits if_splits)

lemma scan_token_pos: "0 < snd (scan_token prev c cs)"
  using dollar_quote_len_pos by (auto simp: scan_token_def split: option.splits)

function strip :: "string \<Rightarrow> string \<Rightarrow> string" where
  "strip prev [] = []"
| "strip prev (c # cs) =
     (let (out, n) = scan_token prev c cs
      in out @ strip (rev (take n (c # cs)) @ prev) (drop n (c # cs)))"
  by pat_completeness auto
termination
proof (relation "measure (\<lambda>(p, cs). length cs)", goal_cases)
  case (2 prev c cs x xa y)
  then have "0 < y" using scan_token_pos [of prev c cs] by (metis snd_conv)
  then show ?case by simp
qed simp

declare strip.simps(2) [simp del]

lemma strip_Cons:
  "scan_token prev c cs = (out, n) \<Longrightarrow>
     strip prev (c # cs) = out @ strip (rev (take n (c # cs)) @ prev) (drop n (c # cs))"
  by (simp add: strip.simps(2))

definition stripCommentsAndLiterals :: "string \<Rightarrow> string" where
  "stripCommentsAndLiterals s = strip [] s"

section \<open>Normalisation\<close>

definition is_word :: "char \<Rightarrow> bool" where
  "is_word c \<longleftrightarrow> is_upper c \<or> is_lower c \<or> is_digit c \<or> c = CHR ''_''"

lemma dropWhile_shorter [termination_simp]: "length (dropWhile P xs) < Suc (length xs)"
  by (simp add: le_imp_less_Suc length_dropWhile_le)

fun replace_dollar_params :: "string \<Rightarrow> string" where
  "replace_dollar_params [] = []"
| "replace_dollar_params (c # cs) =
     (if c = CHR ''$'' \<and> takeWhile is_digit cs \<noteq> [] then placeholder @ replace_dollar_params (dropWhile is_digit cs)
      else c # replace_dollar_params cs)"

text \<open>The matcher of \<open>\b\d+(\.\d+)?([eE][+-]?\d+)?\b\<close> at a digit whose predecessor is not a word character.
  A shorter run of digits never ends at a word boundary, so only the optional parts are choices, tried
  longest first as the expression prefers them.\<close>

definition digits_len :: "string \<Rightarrow> nat" where
  "digits_len cs = length (takeWhile is_digit cs)"

definition frac_len :: "string \<Rightarrow> nat option" where
  "frac_len cs = (case cs of [] \<Rightarrow> None
     | c # ds \<Rightarrow> if c = CHR ''.'' \<and> 0 < digits_len ds then Some (1 + digits_len ds) else None)"

definition exp_len :: "string \<Rightarrow> nat option" where
  "exp_len cs = (case cs of [] \<Rightarrow> None
     | c # ds \<Rightarrow>
         if c = CHR ''e'' \<or> c = CHR ''E'' then
           (let sg = (if starts_with CHR ''+'' ds \<or> starts_with CHR ''-'' ds then 1 else 0);
                n = digits_len (drop sg ds)
            in if 0 < n then Some (1 + sg + n) else None)
         else None)"

definition word_end :: "string \<Rightarrow> bool" where
  "word_end cs = (case cs of [] \<Rightarrow> True | c # _ \<Rightarrow> \<not> is_word c)"

definition number_ends :: "string \<Rightarrow> nat list" where
  "number_ends cs =
     (let d = digits_len cs;
          with_exp = (\<lambda>n. (case exp_len (drop n cs) of None \<Rightarrow> [n] | Some m \<Rightarrow> [n + m, n]))
      in (case frac_len (drop d cs) of None \<Rightarrow> with_exp d | Some m \<Rightarrow> with_exp (d + m) @ with_exp d))"

definition match_number :: "string \<Rightarrow> nat option" where
  "match_number cs = List.find (\<lambda>n. word_end (drop n cs)) (number_ends cs)"

function replace_numbers :: "bool \<Rightarrow> string \<Rightarrow> string" where
  "replace_numbers w [] = []"
| "replace_numbers w (c # cs) =
     (case (if \<not> w \<and> is_digit c then match_number (c # cs) else None) of
        None \<Rightarrow> c # replace_numbers (is_word c) cs
      | Some n \<Rightarrow> placeholder @ replace_numbers True (drop (n - 1) cs))"
  by pat_completeness auto
termination by (relation "measure (\<lambda>(w, cs). length cs)") auto

text \<open>After a placeholder: the length of the longest continuation \<open>\s*,\s*?\<close> repeated.\<close>

definition list_sep_len :: "string \<Rightarrow> nat option" where
  "list_sep_len cs =
     (let a = length (takeWhile re_space cs);
          b = length (takeWhile re_space (drop (a + 1) cs))
      in if starts_with CHR '','' (drop a cs) \<and> starts_with CHR ''?'' (drop (a + 1 + b) cs) then Some (a + b + 2) else None)"

function skip_list :: "string \<Rightarrow> string" where
  "skip_list cs = (case list_sep_len cs of None \<Rightarrow> cs | Some n \<Rightarrow> skip_list (drop n cs))"
  by pat_completeness auto
termination
proof (relation "measure length", goal_cases)
  case (2 cs n)
  then have "0 < n" "cs \<noteq> []"
    by (auto simp: list_sep_len_def Let_def starts_with_def split: if_splits)
  then show ?case by simp
qed simp

declare skip_list.simps [simp del]

lemma skip_list_length: "length (skip_list cs) \<le> length cs"
proof (induction cs rule: skip_list.induct)
  case (1 cs)
  show ?case
  proof (cases "list_sep_len cs")
    case None
    then show ?thesis by (simp add: skip_list.simps [of cs])
  next
    case (Some n)
    then show ?thesis using 1 [OF Some] by (simp add: skip_list.simps [of cs])
  qed
qed

function collapse_lists :: "string \<Rightarrow> string" where
  "collapse_lists [] = []"
| "collapse_lists (c # cs) = (if c = CHR ''?'' then c # collapse_lists (skip_list cs) else c # collapse_lists cs)"
  by pat_completeness auto
termination by (relation "measure length") (auto simp: skip_list_length le_imp_less_Suc)

fun collapse_space :: "string \<Rightarrow> string" where
  "collapse_space [] = []"
| "collapse_space (c # cs) = (if re_space c then CHR '' '' # collapse_space (dropWhile re_space cs) else c # collapse_space cs)"

definition is_punct :: "char \<Rightarrow> bool" where
  "is_punct c \<longleftrightarrow> c \<in> set ''(),;=<>!''"

definition punct_follows :: "string \<Rightarrow> bool" where
  "punct_follows cs = (case dropWhile re_space cs of [] \<Rightarrow> False | p # _ \<Rightarrow> is_punct p)"

fun tighten_punct :: "string \<Rightarrow> string" where
  "tighten_punct [] = []"
| "tighten_punct (c # cs) =
     (if is_punct c then c # tighten_punct (dropWhile re_space cs)
      else if re_space c \<and> punct_follows cs then tighten_punct cs
      else c # tighten_punct cs)"

definition normalizeQueryText :: "string \<Rightarrow> string" where
  "normalizeQueryText sql =
     trim_space (tighten_punct (collapse_space (collapse_lists (replace_numbers False
       (replace_dollar_params (to_lower (stripCommentsAndLiterals sql)))))))"

section \<open>Hash\<close>

definition fnv_offset :: "64 word" where "fnv_offset = 14695981039346656037"
definition fnv_prime :: "64 word" where "fnv_prime = 1099511628211"

definition fnv1a :: "string \<Rightarrow> 64 word" where
  "fnv1a s = foldl (\<lambda>h c. (h XOR word_of_nat (byte c)) * fnv_prime) fnv_offset s"

definition fingerprintQuery :: "string \<Rightarrow> string" where
  "fingerprintQuery sql = format_uint 16 (unat (fnv1a (normalizeQueryText sql)))"

section \<open>Canonical form of the normalised text\<close>

lemma successively_suffix: "successively R (xs @ ys) \<Longrightarrow> successively R ys"
  by (simp add: successively_append_iff)

lemma collapse_space_head: "collapse_space cs = d # ds \<Longrightarrow> \<not> re_space (hd cs) \<Longrightarrow> d = hd cs"
  by (cases cs) (auto split: if_splits)

lemma space_is_re_space [simp]: "re_space (CHR '' '')"
  by (simp add: re_space_def byte_def)

lemma collapse_space_single: "successively (\<lambda>c d. \<not> (re_space c \<and> re_space d)) (collapse_space s)"
proof (induction s rule: collapse_space.induct)
  case (2 c cs)
  have "\<not> re_space d" if "collapse_space (dropWhile re_space cs) = d # ds" for d ds
    using that collapse_space_head [OF that] hd_dropWhile_not [of re_space cs]
    by (cases "dropWhile re_space cs") auto
  then show ?case using 2
    by (cases "collapse_space (dropWhile re_space cs)"; cases "collapse_space cs") (auto simp: successively_Cons)
qed simp

lemma collapse_space_chars: "c \<in> set (collapse_space s) \<Longrightarrow> re_space c \<Longrightarrow> c = CHR '' ''"
  by (induction s rule: collapse_space.induct) (auto split: if_splits)

lemma tighten_head: "cs \<noteq> [] \<Longrightarrow> \<not> re_space (hd cs) \<Longrightarrow> tighten_punct cs \<noteq> [] \<and> hd (tighten_punct cs) = hd cs"
  by (cases cs) auto

definition tight :: "char \<Rightarrow> char \<Rightarrow> bool" where
  "tight c d \<longleftrightarrow> \<not> (re_space c \<and> re_space d) \<and> \<not> (re_space c \<and> is_punct d) \<and> \<not> (is_punct c \<and> re_space d)"

lemma punct_not_space: "is_punct c \<Longrightarrow> \<not> re_space c"
  by (auto simp: is_punct_def re_space_def byte_def)

lemma tighten_punct_tight:
  "successively (\<lambda>c d. \<not> (re_space c \<and> re_space d)) cs \<Longrightarrow> successively tight (tighten_punct cs)"
proof (induction cs rule: tighten_punct.induct)
  case (2 c cs)
  have suf: "successively (\<lambda>c d. \<not> (re_space c \<and> re_space d)) cs"
    "successively (\<lambda>c d. \<not> (re_space c \<and> re_space d)) (dropWhile re_space cs)"
    using "2.prems" by (auto simp: successively_Cons intro: successively_suffix [of _ "takeWhile re_space cs"])
  consider (punct) "is_punct c" | (drop) "\<not> is_punct c" "re_space c \<and> punct_follows cs"
    | (space) "\<not> is_punct c" "re_space c" "\<not> punct_follows cs" | (other) "\<not> is_punct c" "\<not> re_space c" by blast
  then show ?case
  proof cases
    case punct
    have "\<not> re_space d" if "tighten_punct (dropWhile re_space cs) = d # ds" for d ds
      using that tighten_head [of "dropWhile re_space cs"] hd_dropWhile_not [of re_space cs] by fastforce
    with punct "2.IH"(1) [OF punct suf(2)] show ?thesis
      by (cases "tighten_punct (dropWhile re_space cs)") (auto simp: successively_Cons tight_def punct_not_space)
  next
    case drop
    then show ?thesis using "2.IH"(2) [OF drop suf(1)] by simp
  next
    case space
    have "cs = [] \<or> \<not> re_space (hd cs)" using "2.prems" space by (cases cs) auto
    then have "cs = [] \<or> (\<not> re_space (hd cs) \<and> \<not> is_punct (hd cs))"
      using space by (cases cs) (auto simp: punct_follows_def)
    moreover have "successively tight (tighten_punct cs)" using "2.IH"(3) space suf(1) by blast
    ultimately show ?thesis using space tighten_head [of cs]
      by (cases "cs = []") (simp_all add: successively_Cons tight_def [of c])
  next
    case other
    have "successively tight (tighten_punct cs)" using "2.IH"(3) other suf(1) by blast
    then show ?thesis using other by (simp add: successively_Cons tight_def [of c])
  qed
qed simp

lemma tighten_punct_chars: "c \<in> set (tighten_punct s) \<Longrightarrow> c \<in> set s"
  by (induction s rule: tighten_punct.induct) (auto split: if_splits dest: set_dropWhileD)

lemma trim_space_segment: "\<exists>a b. s = a @ trim_space s @ b"
proof -
  have l: "t = takeWhile is_space t @ trim_left t" for t by (simp add: trim_left_def)
  let ?u = "trim_left s" let ?a = "takeWhile is_space s" let ?b = "rev (takeWhile is_space (rev ?u))"
  have "?u = rev (takeWhile is_space (rev ?u) @ trim_left (rev ?u))" using l [of "rev ?u"] by (metis rev_rev_ident)
  then have "?u = trim_space s @ ?b" by (simp add: trim_space_def)
  then have "s = ?a @ trim_space s @ ?b" using l [of s] by simp
  then show ?thesis by blast
qed

section \<open>Case mapping and the scanner\<close>

lemma char_eq_byte: "c = d \<longleftrightarrow> byte c = byte d"
  by (simp add: byte_def)

lemma byte_lower: "byte (lower_char c) = (if 65 \<le> byte c \<and> byte c \<le> 90 then byte c + 32 else byte c)"
  by (simp add: lower_char_def is_upper_def char_in_def byte_def of_char_char_of_small)

lemma isIdentChar_byte:
  "isIdentChar c \<longleftrightarrow> (65 \<le> byte c \<and> byte c \<le> 90) \<or> (97 \<le> byte c \<and> byte c \<le> 122) \<or>
     (48 \<le> byte c \<and> byte c \<le> 57) \<or> byte c = 95"
  by (simp add: isIdentChar_def is_upper_def is_lower_def is_digit_def char_in_def char_eq_byte [of c])
     (simp add: byte_def)

lemma lower_char_special:
  assumes "\<not> (65 \<le> byte x \<and> byte x \<le> 90)" "\<not> (97 \<le> byte x \<and> byte x \<le> 122)"
  shows "lower_char c = x \<longleftrightarrow> c = x"
  using assms unfolding char_eq_byte byte_lower by auto

lemma lower_char_marks [simp]:
  "lower_char c = quote_c \<longleftrightarrow> c = quote_c" "lower_char c = dquote_c \<longleftrightarrow> c = dquote_c"
  "lower_char c = backslash_c \<longleftrightarrow> c = backslash_c" "lower_char c = CHR ''-'' \<longleftrightarrow> c = CHR ''-''"
  "lower_char c = CHR ''/'' \<longleftrightarrow> c = CHR ''/''" "lower_char c = CHR ''*'' \<longleftrightarrow> c = CHR ''*''"
  "lower_char c = CHR ''$'' \<longleftrightarrow> c = CHR ''$''" "lower_char c = CHR 10 \<longleftrightarrow> c = CHR 10"
  by (rule lower_char_special; simp add: byte_def)+

lemma lower_char_ident [simp]: "isIdentChar (lower_char c) = isIdentChar c"
  unfolding isIdentChar_byte byte_lower by auto

lemma lower_char_e [simp]: "(lower_char c = CHR ''E'' \<or> lower_char c = CHR ''e'') = (c = CHR ''E'' \<or> c = CHR ''e'')"
  unfolding char_eq_byte [of _ "CHR ''E''"] char_eq_byte [of _ "CHR ''e''"] byte_lower by (auto simp: byte_def)

lemma lens_lower [simp]:
  "line_comment_len (map lower_char cs) = line_comment_len cs"
  "block_comment_len d (map lower_char cs) = block_comment_len d cs"
  "string_len esc (map lower_char cs) = string_len esc cs"
  "quoted_ident_len (map lower_char cs) = quoted_ident_len cs"
  "escape_syntax (map lower_char cs) = escape_syntax cs"
proof -
  show "line_comment_len (map lower_char cs) = line_comment_len cs"
    by (induction cs) (auto simp: line_comment_len_def)
  show "block_comment_len d (map lower_char cs) = block_comment_len d cs"
    by (induction d cs rule: block_comment_len.induct) auto
  show "string_len esc (map lower_char cs) = string_len esc cs"
    by (induction esc cs rule: string_len.induct) auto
  show "quoted_ident_len (map lower_char cs) = quoted_ident_len cs"
    by (induction cs rule: quoted_ident_len.induct) auto
  show "escape_syntax (map lower_char cs) = escape_syntax cs"
    using lower_char_e by (auto simp: escape_syntax_def split: list.splits)
qed

lemma starts_with_lower:
  "starts_with CHR ''-'' (map lower_char cs) = starts_with CHR ''-'' cs"
  "starts_with CHR ''*'' (map lower_char cs) = starts_with CHR ''*'' cs"
  by (cases cs; simp add: starts_with_def)+

lemma lower_fixed [simp]: "lower_char (CHR '' '') = CHR '' ''" "lower_char (CHR ''?'') = CHR ''?''"
  by (simp_all add: lower_char_def is_upper_def char_in_def byte_def)

lemma scan_token_lower:
  assumes "c \<noteq> CHR ''$''"
  shows "scan_token (map lower_char prev) (lower_char c) (map lower_char cs) =
         (map lower_char (fst (scan_token prev c cs)), snd (scan_token prev c cs))"
  using assms by (simp add: scan_token_def starts_with_lower placeholder_def take_map drop_map)

lemma strip_lower: "CHR ''$'' \<notin> set cs \<Longrightarrow> strip (map lower_char prev) (map lower_char cs) = map lower_char (strip prev cs)"
proof (induction prev cs rule: strip.induct)
  case (2 prev c cs)
  obtain out n where st: "scan_token prev c cs = (out, n)" by (cases "scan_token prev c cs")
  have "CHR ''$'' \<notin> set (drop n (c # cs))" using "2.prems" by (meson in_set_dropD)
  note ih = "2.IH" [OF st [symmetric] refl this]
  have "scan_token (map lower_char prev) (lower_char c) (map lower_char cs) = (map lower_char out, n)"
    using "2.prems" st scan_token_lower [of c prev cs] by auto
  from strip_Cons [OF this] ih strip_Cons [OF st] show ?case
    by (simp only: list.map(2) [symmetric] take_map drop_map rev_map map_append [symmetric])
qed simp

lemma normalize_lower: "CHR ''$'' \<notin> set sql \<Longrightarrow> normalizeQueryText (to_lower sql) = normalizeQueryText sql"
  using strip_lower [of sql "[]"]
  by (simp add: normalizeQueryText_def stripCommentsAndLiterals_def to_lower_def comp_def)

section \<open>Context of the scanner\<close>

text \<open>The text already read matters only through whether an escape string could start here and whether
  the last character belongs to an identifier.\<close>

definition scan_ctx :: "string \<Rightarrow> bool \<times> bool" where
  "scan_ctx prev = (escape_syntax prev, prev \<noteq> [] \<and> isIdentChar (hd prev))"

lemma escape_syntax_Cons:
  "escape_syntax (c # prev) \<longleftrightarrow> (c = CHR ''E'' \<or> c = CHR ''e'') \<and> (prev = [] \<or> \<not> isIdentChar (hd prev))"
  by (cases prev) (auto simp: escape_syntax_def)

lemma scan_ctx_append: "scan_ctx p = scan_ctx q \<Longrightarrow> scan_ctx (xs @ p) = scan_ctx (xs @ q)"
  by (induction xs) (auto simp: scan_ctx_def escape_syntax_Cons)

lemma strip_ctx: "scan_ctx p = scan_ctx q \<Longrightarrow> strip p cs = strip q cs"
proof (induction p cs arbitrary: q rule: strip.induct)
  case (2 p c cs)
  obtain out n where st: "scan_token p c cs = (out, n)" by (cases "scan_token p c cs")
  have "scan_token q c cs = scan_token p c cs"
    using "2.prems" by (simp add: scan_token_def scan_ctx_def)
  then show ?case
    using "2.IH" [OF st [symmetric] refl scan_ctx_append [OF "2.prems"]] st strip_Cons [OF st] strip_Cons [of q c cs out n]
    by simp
qed simp

definition plain_char :: "char \<Rightarrow> bool" where
  "plain_char c \<longleftrightarrow> c \<noteq> quote_c \<and> c \<noteq> dquote_c \<and> c \<noteq> CHR ''$'' \<and> c \<noteq> CHR ''-'' \<and> c \<noteq> CHR ''/''"

lemma strip_plain: "list_all plain_char pre \<Longrightarrow> strip p (pre @ r) = pre @ strip (rev pre @ p) r"
proof (induction pre arbitrary: p)
  case (Cons c cs)
  then have "scan_token p c (cs @ r) = ([c], 1)" by (simp add: scan_token_def plain_char_def)
  from strip_Cons [OF this] Cons show ?case by simp
qed simp

section \<open>Lexical structure\<close>

text \<open>The lexical structure of SQL, as the documentation of PostgreSQL gives it. A text is a sequence of pieces: single
  characters outside of quotes and comments, string constants (with quotes doubled inside), escape string constants (whose \<open>E\<close> is
  the character before), dollar-quoted constants, quoted identifiers, line comments up to and with the end of the line, and block comments,
  which nest.\<close>

datatype escaped = Lit char | Esc char

datatype piece =
    Char char
  | Str string
  | EStr "escaped list"
  | Dollar string string
  | Ident string
  | LineComment string
  | BlockComment string

definition doubled :: "char \<Rightarrow> string \<Rightarrow> string" where
  "doubled q s = concat (map (\<lambda>c. if c = q then [q, q] else [c]) s)"

fun escaped_text :: "escaped \<Rightarrow> string" where
  "escaped_text (Lit c) = (if c = quote_c then [quote_c, quote_c] else [c])"
| "escaped_text (Esc c) = [backslash_c, c]"

fun piece_text :: "piece \<Rightarrow> string" where
  "piece_text (Char c) = [c]"
| "piece_text (Str s) = quote_c # doubled quote_c s @ [quote_c]"
| "piece_text (EStr es) = quote_c # concat (map escaped_text es) @ [quote_c]"
| "piece_text (Dollar tag s) = ''$'' @ tag @ ''$'' @ s @ ''$'' @ tag @ ''$''"
| "piece_text (Ident s) = dquote_c # doubled dquote_c s @ [dquote_c]"
| "piece_text (LineComment s) = ''--'' @ s @ [CHR 10]"
| "piece_text (BlockComment s) = ''/*'' @ s"

definition sql_text :: "piece list \<Rightarrow> string" where
  "sql_text ps = concat (map piece_text ps)"

text \<open>The rest of a block comment at nesting depth \<open>d\<close>, up to its last delimiter.\<close>

inductive comment_rest :: "nat \<Rightarrow> string \<Rightarrow> bool" where
  closed: "comment_rest 0 []"
| nests: "comment_rest (Suc (Suc d)) s \<Longrightarrow> comment_rest (Suc d) (CHR ''/'' # CHR ''*'' # s)"
| closes: "comment_rest d s \<Longrightarrow> comment_rest (Suc d) (CHR ''*'' # CHR ''/'' # s)"
| inside: "comment_rest (Suc d) s \<Longrightarrow> \<not> prefix ''/*'' (c # s) \<Longrightarrow> \<not> prefix ''*/'' (c # s) \<Longrightarrow> comment_rest (Suc d) (c # s)"

text \<open>A standalone \<open>E\<close> right before (the text before is reversed).\<close>

definition after_E :: "string \<Rightarrow> bool" where
  "after_E before \<longleftrightarrow> (\<exists>e b. before = e # b \<and> e \<in> set ''Ee'' \<and> (b = [] \<or> \<not> isIdentChar (hd b)))"

text \<open>A piece is read as such between the text before and the text after it.\<close>

fun piece_ok :: "string \<Rightarrow> piece \<Rightarrow> string \<Rightarrow> bool" where
  "piece_ok before (Char c) after \<longleftrightarrow> c \<noteq> quote_c \<and> c \<noteq> dquote_c \<and> \<not> prefix ''--'' (c # after) \<and> \<not> prefix ''/*'' (c # after) \<and>
     (c = CHR ''$'' \<longrightarrow> \<not> starts_with CHR ''$'' (dropWhile isIdentChar after))"
| "piece_ok before (Str s) after \<longleftrightarrow> \<not> after_E before \<and> \<not> starts_with quote_c after"
| "piece_ok before (EStr es) after \<longleftrightarrow> after_E before \<and> Lit backslash_c \<notin> set es \<and> \<not> starts_with quote_c after"
| "piece_ok before (Dollar tag s) after \<longleftrightarrow> list_all isIdentChar tag \<and>
     (\<forall>i<length s. \<not> prefix (''$'' @ tag @ ''$'') (drop i (s @ ''$'' @ tag @ ''$'')))"
| "piece_ok before (Ident s) after \<longleftrightarrow> \<not> starts_with dquote_c after"
| "piece_ok before (LineComment s) after \<longleftrightarrow> CHR 10 \<notin> set s"
| "piece_ok before (BlockComment s) after \<longleftrightarrow> comment_rest 1 s"

fun lexed :: "string \<Rightarrow> piece list \<Rightarrow> bool" where
  "lexed before [] = True"
| "lexed before (p # ps) = (piece_ok before p (sql_text ps) \<and> lexed (rev (piece_text p) @ before) ps)"

text \<open>What remains of a piece when contents of constants and comments are removed.\<close>

fun bare :: "piece \<Rightarrow> string" where
  "bare (Char c) = [c]"
| "bare (Ident s) = piece_text (Ident s)"
| "bare (LineComment s) = [CHR '' '', CHR 10]"
| "bare (BlockComment s) = '' ''"
| "bare _ = placeholder"

subsection \<open>The scanner reads the pieces\<close>

lemma strip_token:
  assumes "scan_token p (hd tok) (tl tok @ r) = (out, length tok)" "tok \<noteq> []"
  shows "strip p (tok @ r) = out @ strip (rev tok @ p) r"
  using strip_Cons [OF assms(1)] assms(2) by (cases tok) simp_all

lemma string_len_more [simp]: "cs \<noteq> [] \<Longrightarrow> c \<noteq> quote_c \<Longrightarrow> \<not> (esc \<and> c = backslash_c) \<Longrightarrow> string_len esc (c # cs) = 1 + string_len esc cs"
  by (cases cs) auto

lemma string_len_end: "\<not> starts_with quote_c r \<Longrightarrow> string_len esc (quote_c # r) = 1"
  by (cases r) (auto simp: starts_with_def)

lemma string_len_doubled:
  "\<not> starts_with quote_c r \<Longrightarrow> string_len False (doubled quote_c s @ quote_c # r) = length (doubled quote_c s) + 1"
  by (induction s) (auto simp: doubled_def string_len_end)

lemma string_len_escaped:
  "\<not> starts_with quote_c r \<Longrightarrow> Lit backslash_c \<notin> set es \<Longrightarrow>
     string_len True (concat (map escaped_text es) @ quote_c # r) = length (concat (map escaped_text es)) + 1"
proof (induction es)
  case (Cons e es)
  then show ?case by (cases e) auto
qed (simp add: string_len_end)

lemma quoted_ident_len_doubled:
  assumes "\<not> starts_with dquote_c r"
  shows "quoted_ident_len (doubled dquote_c s @ dquote_c # r) = length (doubled dquote_c s) + 1"
proof (induction s)
  case Nil
  then show ?case using assms by (cases r) (auto simp: doubled_def starts_with_def)
next
  case (Cons c s)
  have "quoted_ident_len (c # cs) = 1 + quoted_ident_len cs" if "cs \<noteq> []" "c \<noteq> dquote_c" for cs using that by (cases cs) auto
  then show ?case using Cons by (auto simp: doubled_def)
qed

lemma block_comment_len_rest: "comment_rest d s \<Longrightarrow> block_comment_len d (s @ r) = length s"
proof (induction rule: comment_rest.induct)
  case (inside d s c)
  have "s \<noteq> []" using inside.hyps(1) by (auto elim: comment_rest.cases)
  then obtain e s' where "s = e # s'" by (cases s) auto
  then show ?case using inside by auto
qed auto

lemma findDollarQuoteEnd_first:
  assumes "\<forall>i<length s. \<not> prefix closer (drop i (s @ closer))"
  shows "findDollarQuoteEnd closer (s @ closer @ r) = Some (length s + length closer)"
  using assms
proof (induction s)
  case Nil
  have "prefix closer (closer @ r)" by simp
  then show ?case by (cases "closer @ r") (auto simp del: prefix_append prefixI)
next
  case (Cons c s)
  have "\<not> prefix closer (c # s @ closer)" using Cons.prems by force
  then have "\<not> prefix closer (c # s @ closer @ r)"
    using prefix_length_prefix [of closer "c # s @ closer @ r" "c # s @ closer"] by auto
  moreover have "\<forall>i<length s. \<not> prefix closer (drop i (s @ closer))" using Cons.prems by force
  ultimately show ?case using Cons.IH by simp
qed

lemma escape_syntax_after_E: "escape_syntax before = after_E before"
proof (cases before)
  case Nil
  then show ?thesis by (simp add: after_E_def escape_syntax_def)
next
  case (Cons e b)
  then show ?thesis by (auto simp: after_E_def escape_syntax_Cons)
qed

lemma strip_piece:
  assumes "piece_ok before p after"
  shows "strip before (piece_text p @ after) = bare p @ strip (rev (piece_text p) @ before) after"
proof (cases p)
  case (Char c)
  have "scan_token before c after = ([c], 1)"
    using assms Char by (cases after)
      (auto simp: scan_token_def starts_with_def dollar_quote_len_def dollarQuoteTag_def Let_def dropWhile_eq_drop [symmetric] split: option.splits)
  then show ?thesis using strip_Cons Char by simp
next
  case (Str s)
  then show ?thesis using assms
    by (intro strip_token) (simp_all add: scan_token_def escape_syntax_after_E string_len_doubled)
next
  case (EStr es)
  then show ?thesis using assms
    by (intro strip_token) (simp_all add: scan_token_def escape_syntax_after_E string_len_escaped)
next
  case (Dollar tag s)
  let ?cl = "''$'' @ tag @ ''$''"
  have d: "\<not> isIdentChar (CHR ''$'')" by (simp add: isIdentChar_def is_upper_def is_lower_def is_digit_def char_in_def byte_def)
  then have "takeWhile isIdentChar (tag @ CHR ''$'' # r) = tag" for r
    using assms Dollar by (simp add: takeWhile_append2 list_all_iff)
  then have "dollarQuoteTag (piece_text p @ after) = Some (tag, length tag + 2)"
    using Dollar by (simp add: dollarQuoteTag_def Let_def starts_with_def)
  moreover have "drop (length tag + 2) (piece_text p @ after) = s @ ?cl @ after" using Dollar by simp
  ultimately have "dollar_quote_len (piece_text p @ after) = Some (length (piece_text p))"
    using findDollarQuoteEnd_first [of s ?cl after] assms Dollar by (simp add: dollar_quote_len_def)
  then show ?thesis using Dollar by (intro strip_token) (simp_all add: scan_token_def)
next
  case (Ident s)
  then show ?thesis using assms
    by (intro strip_token) (simp_all add: scan_token_def quoted_ident_len_doubled)
next
  case (LineComment s)
  have "takeWhile (\<lambda>c. c \<noteq> CHR 10) (s @ CHR 10 # after) = s" if "CHR 10 \<notin> set s" for s using that by (induction s) auto
  then have "takeWhile (\<lambda>c. c \<noteq> CHR 10) (s @ CHR 10 # after) = s" using assms LineComment by simp
  then have "strip before ((''--'' @ s) @ CHR 10 # after) = '' '' @ strip (rev (''--'' @ s) @ before) (CHR 10 # after)"
    by (intro strip_token) (simp_all add: scan_token_def starts_with_def line_comment_len_def)
  moreover have "strip b (CHR 10 # after) = CHR 10 # strip (CHR 10 # b) after" for b
    using strip_plain [of "[CHR 10]" b after] by (simp add: plain_char_def)
  ultimately show ?thesis using LineComment by simp
next
  case (BlockComment s)
  then show ?thesis using assms
    by (intro strip_token) (simp_all add: scan_token_def starts_with_def block_comment_len_rest)
qed

lemma strip_lexed: "lexed before ps \<Longrightarrow> strip before (sql_text ps) = concat (map bare ps)"
proof (induction ps arbitrary: before)
  case (Cons p ps)
  then show ?case using strip_piece [of before p "sql_text ps"] by (simp add: sql_text_def)
qed (simp add: sql_text_def)

section \<open>Numbers between separators\<close>

definition breaker :: "char \<Rightarrow> bool" where
  "breaker b \<longleftrightarrow> \<not> is_word b \<and> b \<noteq> CHR ''.'' \<and> b \<noteq> CHR ''+'' \<and> b \<noteq> CHR ''-''"

lemma digits_len_append: "\<not> is_digit b \<Longrightarrow> digits_len (xs @ b # r) = digits_len xs"
  by (induction xs) (simp_all add: digits_len_def)

lemma digits_len_le: "digits_len xs \<le> length xs"
  by (simp add: digits_len_def length_takeWhile_le)

lemma breaker_not_digit: "breaker b \<Longrightarrow> \<not> is_digit b"
  by (simp add: breaker_def is_word_def)

lemma starts_with_append: "starts_with c (xs @ b # r) = (if xs = [] then b = c else starts_with c xs)"
  by (cases xs) (simp_all add: starts_with_def)

lemma frac_len_append: "breaker b \<Longrightarrow> frac_len (xs @ b # r) = frac_len xs"
  by (cases xs) (auto simp: frac_len_def digits_len_append breaker_not_digit breaker_def)

lemma exp_len_append:
  assumes "breaker b"
  shows "exp_len (xs @ b # r) = exp_len xs"
proof (cases xs)
  case Nil
  have "is_word (CHR ''e'')" "is_word (CHR ''E'')" by (simp_all add: is_word_def is_lower_def is_upper_def char_in_def byte_def)
  then show ?thesis using assms Nil by (auto simp: exp_len_def breaker_def)
next
  case (Cons c ds)
  let ?sg = "if starts_with CHR ''+'' ds \<or> starts_with CHR ''-'' ds then 1 else 0 :: nat"
  have sg: "starts_with CHR ''+'' (ds @ b # r) = starts_with CHR ''+'' ds"
    "starts_with CHR ''-'' (ds @ b # r) = starts_with CHR ''-'' ds"
    using assms by (cases ds; auto simp: starts_with_def breaker_def)+
  have "?sg \<le> length ds" by (cases ds) (auto simp: starts_with_def)
  then have "digits_len (drop ?sg (ds @ b # r)) = digits_len (drop ?sg ds)"
    using digits_len_append [OF breaker_not_digit [OF assms], of "drop ?sg ds" r] by (simp only: drop_append) simp
  then show ?thesis unfolding Cons exp_len_def append_Cons list.case sg Let_def by simp
qed

lemma frac_len_le: "frac_len xs = Some m \<Longrightarrow> m \<le> length xs"
  using digits_len_le by (auto simp: frac_len_def split: list.splits if_splits)

lemma exp_len_le: "exp_len xs = Some m \<Longrightarrow> m \<le> length xs"
proof (cases xs)
  case (Cons c ds)
  assume a: "exp_len xs = Some m"
  let ?sg = "if starts_with CHR ''+'' ds \<or> starts_with CHR ''-'' ds then 1 else 0 :: nat"
  have "m = 1 + ?sg + digits_len (drop ?sg ds)" using a Cons by (auto simp: exp_len_def Let_def split: if_splits)
  moreover have "?sg \<le> length ds" by (cases ds) (auto simp: starts_with_def)
  ultimately show ?thesis using digits_len_le [of "drop ?sg ds"] Cons by (auto split: if_splits)
qed (simp add: exp_len_def)

lemma number_ends_le: "n \<in> set (number_ends xs) \<Longrightarrow> n \<le> length xs"
  using digits_len_le [of xs]
  by (fastforce simp: number_ends_def Let_def split: option.splits dest: frac_len_le exp_len_le)

lemma number_ends_append:
  assumes "breaker b"
  shows "number_ends (xs @ b # r) = number_ends xs"
proof -
  let ?d = "digits_len xs"
  have d: "digits_len (xs @ b # r) = ?d" "?d \<le> length xs"
    using assms digits_len_le by (simp_all add: digits_len_append breaker_not_digit)
  have e: "n \<le> length xs \<Longrightarrow> exp_len (drop n (xs @ b # r)) = exp_len (drop n xs)" for n
    by (simp add: exp_len_append [OF assms])
  show ?thesis
  proof (cases "frac_len (drop ?d xs)")
    case None
    then show ?thesis using d e [of ?d] assms by (simp add: number_ends_def Let_def frac_len_append)
  next
    case (Some m)
    then have "?d + m \<le> length xs" using frac_len_le [OF Some] d(2) by simp
    then show ?thesis using Some d e [of ?d] e [of "?d + m"] assms
      by (simp add: number_ends_def Let_def frac_len_append)
  qed
qed

lemma match_number_append:
  assumes "breaker b"
  shows "match_number (xs @ b # r) = match_number xs"
proof -
  have "word_end (drop n (xs @ b # r)) = word_end (drop n xs)" if "n \<in> set (number_ends xs)" for n
    using number_ends_le [OF that] assms by (cases "drop n xs") (auto simp: word_end_def breaker_def)
  then show ?thesis unfolding match_number_def number_ends_append [OF assms] by (intro find_cong refl) auto
qed

lemma match_number_le: "match_number xs = Some n \<Longrightarrow> n \<le> length xs"
  by (auto simp: match_number_def find_Some_iff intro: number_ends_le)

lemma replace_numbers_break:
  "breaker b \<Longrightarrow> replace_numbers w (u @ b # r) = replace_numbers w u @ b # replace_numbers False r"
proof (induction w u rule: replace_numbers.induct)
  case (1 w)
  then show ?case by (auto simp: breaker_not_digit breaker_def)
next
  case (2 w c cs)
  have m: "match_number (c # cs @ b # r) = match_number (c # cs)"
    using match_number_append [OF "2.prems", of "c # cs"] by simp
  have step: "replace_numbers w ((c # cs) @ b # r) =
      (case (if \<not> w \<and> is_digit c then match_number (c # cs) else None) of
        None \<Rightarrow> c # replace_numbers (is_word c) (cs @ b # r)
      | Some n \<Rightarrow> placeholder @ replace_numbers True (drop (n - 1) (cs @ b # r)))"
    by (simp add: m)
  show ?case
  proof (cases "if \<not> w \<and> is_digit c then match_number (c # cs) else None")
    case None
    then show ?thesis unfolding step replace_numbers.simps(2) [of w c cs] using "2.IH"(1) [OF None "2.prems"] by simp
  next
    case (Some n)
    then have "n \<le> Suc (length cs)" using match_number_le [of "c # cs" n] by (simp split: if_splits)
    then show ?thesis unfolding step replace_numbers.simps(2) [of w c cs] Some
      using "2.IH"(2) [OF Some "2.prems"] by simp
  qed
qed

lemma replace_numbers_digits:
  assumes "list_all is_digit ds" "ds \<noteq> []" "word_end v" "\<not> starts_with CHR ''.'' v"
  shows "replace_numbers False (ds @ v) = placeholder @ replace_numbers True v"
proof -
  have "is_word (CHR ''e'')" "is_word (CHR ''E'')" by (simp_all add: is_word_def is_lower_def is_upper_def char_in_def byte_def)
  then have v: "takeWhile is_digit v = []" "frac_len v = None" "exp_len v = None"
    using assms(3,4) by (cases v; auto simp: word_end_def is_word_def frac_len_def exp_len_def starts_with_def)+
  have "takeWhile is_digit (ds @ v) = ds"
    using assms(1) v(1) by (simp add: takeWhile_append2 list_all_iff)
  then have "match_number (ds @ v) = Some (length ds)"
    using v assms(3) by (simp add: match_number_def number_ends_def digits_len_def)
  moreover obtain c cs where "ds = c # cs" using assms(2) by (cases ds) auto
  ultimately show ?thesis using assms(1) by simp
qed

lemma digit_plain: "is_digit c \<Longrightarrow> plain_char c \<and> lower_char c = c \<and> c \<noteq> CHR ''$'' \<and> isIdentChar c \<and> c \<noteq> CHR ''E'' \<and> c \<noteq> CHR ''e''"
  by (auto simp: is_digit_def plain_char_def lower_char_def is_upper_def char_in_def byte_def isIdentChar_def)

lemma replace_dollar_append: "CHR ''$'' \<notin> set u \<Longrightarrow> replace_dollar_params (u @ v) = u @ replace_dollar_params v"
  by (induction u) auto

definition before_number :: "char \<Rightarrow> bool" where
  "before_number c \<longleftrightarrow> c \<in> set '' (,=<>''"

definition after_number :: "char \<Rightarrow> bool" where
  "after_number c \<longleftrightarrow> c \<in> set '' ),;=<>''"

lemma before_number_props: "before_number b \<Longrightarrow> breaker b \<and> lower_char b = b \<and> plain_char b"
  by (auto simp: before_number_def breaker_def is_word_def is_upper_def is_lower_def is_digit_def char_in_def byte_def
      lower_char_def plain_char_def)

lemma after_number_props: "after_number b \<Longrightarrow> \<not> is_word b \<and> lower_char b = b \<and> plain_char b \<and> b \<noteq> CHR ''.''"
  by (auto simp: after_number_def is_word_def is_upper_def is_lower_def is_digit_def char_in_def byte_def
      lower_char_def plain_char_def)

lemma replace_numbers_sql:
  assumes pre: "list_all plain_char pre" and b: "before_number b"
    and ds: "list_all is_digit ds" "ds \<noteq> []" and post: "post = [] \<or> after_number (hd post)"
  shows "replace_numbers False (replace_dollar_params (to_lower (strip [] (pre @ b # ds @ post)))) =
    replace_numbers False (to_lower pre) @ b # placeholder @
    replace_numbers True (replace_dollar_params (to_lower (strip ''0'' post)))"
proof -
  have "list_all plain_char (pre @ b # ds)"
    using pre ds(1) before_number_props [OF b] digit_plain by (auto simp: list_all_iff)
  from strip_plain [OF this, of "[]" post]
  have "strip [] (pre @ b # ds @ post) = pre @ b # ds @ strip (rev ds @ b # rev pre) post" by simp
  moreover have "scan_ctx (rev ds @ b # rev pre) = scan_ctx ''0''"
    using ds digit_plain [of "last ds"] digit_plain [of "CHR ''0''"]
    by (cases ds rule: rev_cases) (auto simp: scan_ctx_def escape_syntax_Cons is_digit_def char_in_def byte_def)
  ultimately have st: "strip [] (pre @ b # ds @ post) = pre @ b # ds @ strip ''0'' post"
    using strip_ctx by metis
  have low: "to_lower (pre @ b # ds @ x) = to_lower pre @ b # ds @ to_lower x" for x
    using before_number_props [OF b] ds(1) digit_plain by (auto simp: to_lower_def list_all_iff intro!: map_idI)
  have nd: "CHR ''$'' \<notin> set (to_lower pre @ b # ds)"
  proof -
    have "lower_char c \<noteq> CHR ''$''" if "plain_char c" for c using that by (simp add: plain_char_def)
    then have "CHR ''$'' \<noteq> lower_char c" if "plain_char c" for c using that by metis
    then have "CHR ''$'' \<notin> set (to_lower pre)" using pre unfolding to_lower_def list_all_iff by (metis imageE set_map)
    moreover have "CHR ''$'' \<notin> set ds" using ds(1) digit_plain by (auto simp: list_all_iff)
    moreover have "b \<noteq> CHR ''$''" using before_number_props [OF b] by (simp add: plain_char_def)
    ultimately show ?thesis by simp
  qed
  let ?v = "replace_dollar_params (to_lower (strip ''0'' post))"
  have v: "word_end ?v \<and> \<not> starts_with CHR ''.'' ?v"
  proof (cases post)
    case (Cons c cs)
    have ap: "\<not> is_word c" "lower_char c = c" "plain_char c" "c \<noteq> CHR ''.''"
      using post Cons after_number_props [of c] by auto
    then have "strip ''0'' post = c # strip (c # ''0'') cs"
      using strip_plain [of "[c]" "''0''" cs] Cons by simp
    then show ?thesis using ap by (simp add: to_lower_def plain_char_def word_end_def starts_with_def)
  qed (simp add: to_lower_def word_end_def starts_with_def)
  have "replace_dollar_params (to_lower (strip [] (pre @ b # ds @ post))) = to_lower pre @ b # ds @ ?v"
    using replace_dollar_append [OF nd] unfolding st low by simp
  then show ?thesis
    using before_number_props [OF b] replace_numbers_digits [OF ds conjunct1 [OF v] conjunct2 [OF v]]
    by (simp add: replace_numbers_break)
qed

section \<open>Properties\<close>

text \<open>The normalised text is in canonical form: white space is single blanks, never at either end,
  and never next to the punctuation that the normaliser tightens.\<close>

theorem normalized_canonical:
  "successively tight (normalizeQueryText sql) \<and>
   {c \<in> set (normalizeQueryText sql). re_space c} \<subseteq> {CHR '' ''} \<and>
   (normalizeQueryText sql = [] \<or>
      is_space (hd (normalizeQueryText sql)) = False \<and> is_space (last (normalizeQueryText sql)) = False)"
proof -
  define t where "t = collapse_space (collapse_lists (replace_numbers False
       (replace_dollar_params (to_lower (stripCommentsAndLiterals sql)))))"
  have n: "normalizeQueryText sql = trim_space (tighten_punct t)" by (simp add: normalizeQueryText_def t_def)
  obtain a b where ab: "tighten_punct t = a @ trim_space (tighten_punct t) @ b" using trim_space_segment by blast
  have "successively tight (tighten_punct t)" unfolding t_def by (rule tighten_punct_tight [OF collapse_space_single])
  then have "successively tight (trim_space (tighten_punct t))"
    by (subst (asm) ab) (simp add: successively_append_iff)
  moreover have "c = CHR '' ''" if "c \<in> set (trim_space (tighten_punct t))" "re_space c" for c
  proof -
    have "c \<in> set (tighten_punct t)" using that(1) by (subst ab) simp
    then show ?thesis using that(2) tighten_punct_chars collapse_space_chars unfolding t_def by blast
  qed
  ultimately show ?thesis using trim_space_ends unfolding n by blast
qed

text \<open>C23: The scanner reads a text by the lexical structure of SQL: what it leaves is the text with every string constant (with
  doubled quotes, with backslash escapes after a standalone \<open>E\<close>, or between dollar quotes) replaced by the placeholder and every line
  and nested block comment by a blank, wherever they stand. So two texts that differ only in the contents of constants and comments
  have the same fingerprint.\<close>

theorem fingerprint_ignores_strings:
  assumes "lexed [] ps"
  shows "stripCommentsAndLiterals (sql_text ps) = concat (map bare ps) \<and>
    (lexed [] qs \<and> map bare qs = map bare ps \<longrightarrow> fingerprintQuery (sql_text qs) = fingerprintQuery (sql_text ps))"
  using strip_lexed [OF assms] strip_lexed [of "[]" qs]
  by (simp add: fingerprintQuery_def normalizeQueryText_def stripCommentsAndLiterals_def)

text \<open>The fingerprint does not depend on the value of an integer literal that stands between
  separators: replacing one digit string by another leaves it unchanged.\<close>

theorem fingerprint_ignores_numbers:
  assumes "list_all plain_char pre" "before_number b" "post = [] \<or> after_number (hd post)"
    and "list_all is_digit (ds @ es)" "ds \<noteq> []" "es \<noteq> []"
  shows "fingerprintQuery (pre @ b # ds @ post) = fingerprintQuery (pre @ b # es @ post)"
  using replace_numbers_sql [OF assms(1,2) _ assms(5,3)] replace_numbers_sql [OF assms(1,2) _ assms(6,3)] assms(4)
  by (simp add: fingerprintQuery_def normalizeQueryText_def stripCommentsAndLiterals_def)

text \<open>The fingerprint of a statement without dollar signs ignores letter case everywhere, also
  inside double-quoted identifiers, where PostgreSQL does not: two statements that differ only in the
  case of a quoted identifier get one fingerprint.\<close>

theorem fingerprint_ignores_case:
  assumes "CHR ''$'' \<notin> set sql \<union> set sql'" "to_lower sql = to_lower sql'"
  shows "fingerprintQuery sql = fingerprintQuery sql'"
  using assms normalize_lower [of sql] normalize_lower [of sql'] by (simp add: fingerprintQuery_def)

section \<open>Witnesses\<close>

definition sample_pieces :: "string \<Rightarrow> escaped list \<Rightarrow> string \<Rightarrow> string \<Rightarrow> piece list" where
  "sample_pieces s es d cm = map Char ''n = '' @ [Str s] @ map Char '' or n = E'' @ [EStr es] @ map Char '' or n = '' @ [Dollar ''t'' d] @
     map Char '' '' @ [BlockComment cm]"

lemma dollar_free:
  assumes "CHR ''$'' \<notin> set d" "i < length d"
  shows "\<not> prefix (CHR ''$'' # x) (drop i d @ y)"
  using assms Cons_nth_drop_Suc [OF assms(2), symmetric] nth_mem [OF assms(2)] by auto

lemma sample_pieces_lexed:
  "comment_rest 1 cm \<Longrightarrow> Lit backslash_c \<notin> set es \<Longrightarrow> CHR ''$'' \<notin> set d \<Longrightarrow> lexed [] (sample_pieces s es d cm)"
  by (auto simp: sample_pieces_def sql_text_def starts_with_def after_E_def isIdentChar_def is_upper_def is_lower_def is_digit_def char_in_def byte_def
      prefix_Cons drop_Cons' nth_append dollar_free)

theorem fingerprint_ignores_strings_witness:
  "fingerprintQuery (''n = '' @ quote_c # ''it'' @ [quote_c, quote_c] @ ''s'' @ quote_c # '' or n = E'' @ quote_c # backslash_c # quote_c # quote_c #
     '' or n = $t$-- '' @ quote_c # ''$t$ /*/*a*/ b*/'') =
   fingerprintQuery (''n = '' @ quote_c # quote_c # '' or n = E'' @ quote_c # ''x'' @ quote_c # '' or n = $t$$t$ /**/'')"
proof -
  have c: "comment_rest 1 ''/*a*/ b*/''" "comment_rest 1 ''*/''"
    by (auto intro!: comment_rest.intros simp: numeral_eq_Suc)
  have "lexed [] (sample_pieces (''it'' @ quote_c # ''s'') [Esc quote_c] (''-- '' @ [quote_c]) ''/*a*/ b*/'')" "lexed [] (sample_pieces [] [Lit CHR ''x''] [] ''*/'')"
    using c by (auto intro!: sample_pieces_lexed)
  from fingerprint_ignores_strings [OF this(2), of "sample_pieces (''it'' @ quote_c # ''s'') [Esc quote_c] (''-- '' @ [quote_c]) ''/*a*/ b*/''"] this(1)
  show ?thesis by (simp add: sample_pieces_def sql_text_def doubled_def)
qed

theorem fingerprint_ignores_numbers_witness:
  "fingerprintQuery (''WHERE id ='' @ CHR '' '' # ''1'' @ '' LIMIT'') =
   fingerprintQuery (''WHERE id ='' @ CHR '' '' # ''42'' @ '' LIMIT'')"
  by (rule fingerprint_ignores_numbers)
     (simp_all add: plain_char_def before_number_def after_number_def is_digit_def char_in_def byte_def)

theorem fingerprint_ignores_case_witness:
  "fingerprintQuery (''SELECT '' @ dquote_c # ''Id'' @ [dquote_c]) =
   fingerprintQuery (''select '' @ dquote_c # ''id'' @ [dquote_c])"
  by (rule fingerprint_ignores_case) (simp, code_simp)

end
