(* ===== verification/Api_Types.thy ===== *)
theory Api_Types
  imports Complex_Main Go_Strings
begin

text \<open>
  The data exchanged between the components (\<open>pkg/apis/v1alpha1/types.go\<close> and
  \<open>collector.QuerySample\<close>). Field names carry a prefix per struct. A \<open>float64\<close> is a real number;
  a query id is an \<open>int64\<close> on which no arithmetic is done.
\<close>

record deploy_source =
  ds_Name :: string
  ds_Namespace :: string
  ds_PostgresWatchRef :: string
  ds_SourceType :: string
  ds_AppName :: string
  ds_ClusterName :: string
  ds_WebhookSecret :: string

record deploy_event =
  ev_ID :: string
  ev_Source :: string
  ev_App :: string
  ev_Cluster :: string
  ev_Namespace :: string
  ev_Revision :: string
  ev_ImageTag :: string
  ev_Timestamp :: gtime

datatype regression_status = StatusDetected | StatusNoRegression | StatusInsufficientData

text \<open>The zero value of \<open>TriggerType\<close> is the empty string, \<open>TriggerTypeUnset\<close> here.\<close>

datatype trigger_type = TriggerTypeUnset | TriggerTypeDeploy | TriggerTypePeriodic

record performance_regression =
  pr_Name :: string
  pr_Namespace :: string
  pr_DeployEventID :: string
  pr_QueryID :: queryid
  pr_QueryText :: string
  pr_Status :: regression_status
  pr_ConfidenceScore :: real
  pr_MeanLatencyBefore :: real
  pr_MeanLatencyAfter :: real
  pr_LatencyChangeFactor :: real
  pr_ExternalCauseSuspected :: bool
  pr_AutoAbortTriggered :: bool
  pr_AutoAbortError :: string
  pr_TriggerType :: trigger_type
  pr_DetectedChangeAt :: gtime
  pr_PlanDiffSummary :: string
  pr_CreatedAt :: gtime

record query_sample =
  qs_QueryID :: queryid
  qs_QueryText :: string
  qs_Calls :: int
  qs_TotalExecTimeMs :: real
  qs_MeanExecTimeMs :: real
  qs_RecordedAt :: gtime
  qs_Fingerprint :: string

definition status_string :: "regression_status \<Rightarrow> string" where
  "status_string st = (case st of StatusDetected \<Rightarrow> ''Detected'' | StatusNoRegression \<Rightarrow> ''NoRegression''
     | StatusInsufficientData \<Rightarrow> ''InsufficientData'')"

definition trigger_string :: "trigger_type \<Rightarrow> string" where
  "trigger_string t = (case t of TriggerTypeUnset \<Rightarrow> [] | TriggerTypeDeploy \<Rightarrow> ''deploy''
     | TriggerTypePeriodic \<Rightarrow> ''periodic'')"

text \<open>A source of samples as its clients see it (\<open>correlation.SampleSource\<close>): every answer is in the
  requested range and in time order.\<close>

locale sample_source =
  fixes samples_in_range :: "queryid \<Rightarrow> gtime \<Rightarrow> gtime \<Rightarrow> query_sample list"
  assumes samples_sorted: "sorted_by qs_RecordedAt (samples_in_range q lo hi)"
    and samples_between: "s \<in> set (samples_in_range q lo hi) \<Longrightarrow> lo \<le> qs_RecordedAt s \<and> qs_RecordedAt s \<le> hi"
begin

lemma samples_empty_range: "hi < lo \<Longrightarrow> samples_in_range q lo hi = []"
  using samples_between [of _ q lo hi] by (cases "samples_in_range q lo hi") force+

lemma last_is_latest:
  "s \<in> set (samples_in_range q lo hi) \<Longrightarrow> qs_RecordedAt s \<le> qs_RecordedAt (last (samples_in_range q lo hi))"
  using samples_sorted by (rule sorted_by_last)

end

end
