(* ===== verification/Planner.thy ===== *)
theory Planner
  imports Api_Types
begin

text \<open>
  Plan capture (\<open>internal/planner\<close>): the two capture paths with their version and trust gates, the
  facade that falls back from one to the other, the reading of a plan document and the rendering of a
  plan diff. The database is an argument: a record with the answer to each statement the package
  sends, an error string or a value. \<open>encoding/json\<close> is an argument too, a parser from text to a JSON
  value; how the package reads that value is modelled.
\<close>

section \<open>Snapshots and errors\<close>

datatype plan_source = SourceStorePlans | SourceGenericPlan

definition source_string :: "plan_source \<Rightarrow> string" where
  "source_string s = (case s of SourceStorePlans \<Rightarrow> ''pg_store_plans'' | SourceGenericPlan \<Rightarrow> ''generic_plan'')"

record plan_snapshot =
  ps_QueryID :: queryid
  ps_RecordedAt :: gtime
  ps_RootNodeType :: string
  ps_TotalCost :: real
  ps_PlanJSON :: string
  ps_Source :: plan_source

datatype planner_error =
    ErrUnsupportedVersion
  | ErrExtensionNotInstalled
  | ErrQueryIDUnreliable string
  | ErrNoPlanRecorded queryid
  | PlannerFailure string
  | NoPlanAvailable queryid planner_error planner_error

text \<open>\<open>errors.Is(err, ErrUnsupportedVersion)\<close>: the facade wraps the second error, not the first.\<close>

fun is_unsupported_version :: "planner_error \<Rightarrow> bool" where
  "is_unsupported_version ErrUnsupportedVersion = True"
| "is_unsupported_version (NoPlanAvailable q storeErr genErr) = is_unsupported_version genErr"
| "is_unsupported_version _ = False"

record pg_db =
  db_server_version_num :: "string + int"
  db_extversion :: "string + string option"
  db_compute_query_id :: "string + string"
  db_begin :: "string option"
  db_set_format :: "string option"
  db_store_plan :: "queryid \<Rightarrow> string + string option"
  db_commit :: "string option"
  db_explain :: "string \<Rightarrow> string + string"

section \<open>Plan documents\<close>

datatype json = JNull | JBool bool | JNum real | JStr string | JArr "json list" | JObj "(string \<times> json) list"

type_synonym json_parser = "string \<Rightarrow> string + json"

text \<open>Decoding into \<open>map[string]any\<close>: an object, or null (the nil map); a later duplicate key wins.\<close>

definition as_map :: "json \<Rightarrow> (string \<Rightarrow> json option) option" where
  "as_map j = (case j of JObj kvs \<Rightarrow> Some (map_of (rev kvs)) | JNull \<Rightarrow> Some (\<lambda>_. None) | _ \<Rightarrow> None)"

definition as_map_list :: "json \<Rightarrow> (string \<Rightarrow> json option) list option" where
  "as_map_list j =
     (case j of JArr js \<Rightarrow> if list_all (\<lambda>x. as_map x \<noteq> None) js then Some (map (\<lambda>x. the (as_map x)) js) else None
      | JNull \<Rightarrow> Some [] | _ \<Rightarrow> None)"

definition json_kind :: "json \<Rightarrow> string" where
  "json_kind j = (case j of JNull \<Rightarrow> ''null'' | JBool _ \<Rightarrow> ''bool'' | JNum _ \<Rightarrow> ''number'' | JStr _ \<Rightarrow> ''string''
     | JArr _ \<Rightarrow> ''array'' | JObj _ \<Rightarrow> ''object'')"

definition plan_node :: "json_parser \<Rightarrow> string \<Rightarrow> string + (string \<Rightarrow> json option)" where
  "plan_node parse raw =
     (case parse raw of
        Inl err \<Rightarrow> Inl (''unrecognized plan JSON shape: '' @ err)
      | Inr j \<Rightarrow>
          (case as_map_list j of
             Some (m # _) \<Rightarrow> Inr m
           | _ \<Rightarrow> (case as_map j of
                     Some m \<Rightarrow> Inr m
                   | None \<Rightarrow> Inl (''unrecognized plan JSON shape: json: cannot unmarshal '' @ json_kind j @
                                  '' into Go value of type map[string]interface {}''))))"

definition parsePlanJSON :: "json_parser \<Rightarrow> string \<Rightarrow> string + (string \<times> real)" where
  "parsePlanJSON parse raw0 =
     (let raw = trim_space raw0
      in if raw = [] then Inl ''empty plan JSON''
         else (case plan_node parse raw of
                 Inl err \<Rightarrow> Inl err
               | Inr node \<Rightarrow>
                   (let plan = (case node ''Plan'' of Some (JObj kvs) \<Rightarrow> map_of (rev kvs) | _ \<Rightarrow> node);
                        nt = (case plan ''Node Type'' of Some (JStr s) \<Rightarrow> s | _ \<Rightarrow> []);
                        tc = (case plan ''Total Cost'' of Some (JNum x) \<Rightarrow> x | _ \<Rightarrow> 0)
                    in if nt = [] then Inl ''plan JSON missing \"Node Type\"'' else Inr (nt, tc))))"

section \<open>Capture\<close>

definition pgMajorVersion :: "pg_db \<Rightarrow> planner_error + int" where
  "pgMajorVersion db =
     (case db_server_version_num db of
        Inl err \<Rightarrow> Inl (PlannerFailure (''planner: check server_version_num: '' @ err))
      | Inr n \<Rightarrow> Inr (go_div n 10000))"

definition captureGenericPlan :: "json_parser \<Rightarrow> pg_db \<Rightarrow> gtime \<Rightarrow> queryid \<Rightarrow> string \<Rightarrow> planner_error + plan_snapshot" where
  "captureGenericPlan parse db now q text =
     (if trim_space text = [] then
        Inl (PlannerFailure (''planner: CaptureGenericPlan: empty query text for queryid '' @ format_int q))
      else
        (case pgMajorVersion db of
           Inl err \<Rightarrow> Inl err
         | Inr major \<Rightarrow>
             if major < 16 then Inl ErrUnsupportedVersion
             else
               (case db_explain db (''EXPLAIN (FORMAT JSON, GENERIC_PLAN) '' @ text) of
                  Inl err \<Rightarrow> Inl (PlannerFailure (''planner: EXPLAIN (FORMAT JSON, GENERIC_PLAN) for queryid '' @ format_int q @ '': '' @ err))
                | Inr planText \<Rightarrow>
                    (case parsePlanJSON parse planText of
                       Inl err \<Rightarrow> Inl (PlannerFailure (''planner: parse GENERIC_PLAN JSON for queryid '' @ format_int q @ '': '' @ err))
                     | Inr (rootType, totalCost) \<Rightarrow>
                         Inr \<lparr>ps_QueryID = q, ps_RecordedAt = now, ps_RootNodeType = rootType, ps_TotalCost = totalCost,
                              ps_PlanJSON = planText, ps_Source = SourceGenericPlan\<rparr>))))"

definition storePlansMinReliableVersion :: "int \<times> int" where "storePlansMinReliableVersion = (1, 6)"
definition storePlansMinReliablePGMajor :: int where "storePlansMinReliablePGMajor = 14"

text \<open>\<open>strings.SplitN(s, ".", 3)\<close>: only the first two pieces are read.\<close>

definition extVersionAtLeast :: "string \<Rightarrow> int \<Rightarrow> int \<Rightarrow> bool" where
  "extVersionAtLeast extversion wantMajor wantMinor =
     (case split_on CHR ''.'' extversion of
        p # r # _ \<Rightarrow>
          (case parse_int p of None \<Rightarrow> False
           | Some major \<Rightarrow>
               (case parse_int r of None \<Rightarrow> False
                | Some minor \<Rightarrow> if major \<noteq> wantMajor then wantMajor < major else wantMinor \<le> minor))
      | _ \<Rightarrow> False)"

record store_plans_status =
  sp_installed :: bool
  sp_reliable :: bool
  sp_reason :: string

definition unreliable :: "string \<Rightarrow> store_plans_status" where
  "unreliable reason = \<lparr>sp_installed = True, sp_reliable = False, sp_reason = reason\<rparr>"

definition detectStorePlans :: "pg_db \<Rightarrow> planner_error + store_plans_status" where
  "detectStorePlans db =
     (case db_extversion db of
        Inl err \<Rightarrow> Inl (PlannerFailure (''planner: check pg_store_plans extension: '' @ err))
      | Inr None \<Rightarrow> Inr \<lparr>sp_installed = False, sp_reliable = False, sp_reason = []\<rparr>
      | Inr (Some extversion) \<Rightarrow>
          if \<not> extVersionAtLeast extversion (fst storePlansMinReliableVersion) (snd storePlansMinReliableVersion) then
            Inr (unreliable (''pg_store_plans '' @ extversion @ '' predates 1.6, which introduced a core-compatible queryid; its queryid may use pg_store_plans' own algorithm instead and cannot safely be joined against pg_stat_statements''))
          else
            (case pgMajorVersion db of
               Inl err \<Rightarrow> Inl err
             | Inr major \<Rightarrow>
                 if major < storePlansMinReliablePGMajor then
                   Inr (unreliable (''server is PostgreSQL '' @ format_int major @ '', older than the PostgreSQL 14 that pg_store_plans documents queryid-joining against pg_stat_statements as supported''))
                 else
                   (case db_compute_query_id db of
                      Inl err \<Rightarrow> Inr (unreliable (''could not read compute_query_id: '' @ err))
                    | Inr v \<Rightarrow>
                        if v = ''off'' then
                          Inr (unreliable ''compute_query_id is 'off'; pg_store_plans is silently disabled per upstream docs, and any existing rows may predate that setting and cannot be trusted'')
                        else Inr \<lparr>sp_installed = True, sp_reliable = True, sp_reason = []\<rparr>)))"

definition read_store_plan :: "json_parser \<Rightarrow> pg_db \<Rightarrow> gtime \<Rightarrow> queryid \<Rightarrow> planner_error + plan_snapshot" where
  "read_store_plan parse db now q =
     (case db_begin db of
        Some err \<Rightarrow> Inl (PlannerFailure (''planner: begin tx to read pg_store_plans: '' @ err))
      | None \<Rightarrow>
          (case db_set_format db of
             Some err \<Rightarrow> Inl (PlannerFailure (''planner: set pg_store_plans.plan_format: '' @ err))
           | None \<Rightarrow>
               (case db_store_plan db q of
                  Inl err \<Rightarrow> Inl (PlannerFailure (''planner: query pg_store_plans for queryid '' @ format_int q @ '': '' @ err))
                | Inr None \<Rightarrow> Inl (ErrNoPlanRecorded q)
                | Inr (Some planText) \<Rightarrow>
                    (case db_commit db of
                       Some err \<Rightarrow> Inl (PlannerFailure (''planner: commit pg_store_plans read: '' @ err))
                     | None \<Rightarrow>
                         (case parsePlanJSON parse planText of
                            Inl err \<Rightarrow> Inl (PlannerFailure (''planner: parse pg_store_plans plan JSON for queryid '' @ format_int q @ '': '' @ err))
                          | Inr (rootType, totalCost) \<Rightarrow>
                              Inr \<lparr>ps_QueryID = q, ps_RecordedAt = now, ps_RootNodeType = rootType, ps_TotalCost = totalCost,
                                   ps_PlanJSON = planText, ps_Source = SourceStorePlans\<rparr>)))))"

definition capturePlanFromStorePlans :: "json_parser \<Rightarrow> pg_db \<Rightarrow> gtime \<Rightarrow> queryid \<Rightarrow> planner_error + plan_snapshot" where
  "capturePlanFromStorePlans parse db now q =
     (case detectStorePlans db of
        Inl err \<Rightarrow> Inl err
      | Inr status \<Rightarrow>
          if \<not> sp_installed status then Inl ErrExtensionNotInstalled
          else if \<not> sp_reliable status then Inl (ErrQueryIDUnreliable (sp_reason status))
          else read_store_plan parse db now q)"

definition capturePlan :: "json_parser \<Rightarrow> pg_db \<Rightarrow> gtime \<Rightarrow> queryid \<Rightarrow> string \<Rightarrow> planner_error + plan_snapshot" where
  "capturePlan parse db now q text =
     (case capturePlanFromStorePlans parse db now q of
        Inr snap \<Rightarrow> Inr snap
      | Inl storeErr \<Rightarrow>
          (case captureGenericPlan parse db now q text of
             Inr snap \<Rightarrow> Inr snap
           | Inl genErr \<Rightarrow> Inl (NoPlanAvailable q storeErr genErr)))"

section \<open>Plan diff\<close>

text \<open>\<open>fmt\<close> verbs: \<open>%.nf\<close> rounds half to even, \<open>%q\<close> quotes and escapes (printable ASCII and bytes of
  multi-byte runes stand for themselves).\<close>

definition round_half_even :: "real \<Rightarrow> int" where
  "round_half_even y =
     (let f = \<lfloor>y\<rfloor>; r = y - of_int f
      in if r < 1 / 2 then f else if r > 1 / 2 then f + 1 else if even f then f else f + 1)"

definition pad_left :: "nat \<Rightarrow> string \<Rightarrow> string" where
  "pad_left n s = replicate (n - length s) CHR ''0'' @ s"

definition format_fixed :: "nat \<Rightarrow> real \<Rightarrow> string" where
  "format_fixed d x =
     (let m = nat (round_half_even (\<bar>x\<bar> * 10 ^ d))
      in (if x < 0 then ''-'' else []) @ format_uint 10 (m div 10 ^ d) @
         (if d = 0 then [] else ''.'' @ pad_left d (format_uint 10 (m mod 10 ^ d))))"

definition format_signed :: "nat \<Rightarrow> real \<Rightarrow> string" where
  "format_signed d x = (if x < 0 then [] else ''+'') @ format_fixed d x"

definition quote_char :: "char \<Rightarrow> string" where
  "quote_char c =
     (if c = CHR 0x22 then [CHR 0x5C, CHR 0x22]
      else if c = CHR 0x5C then [CHR 0x5C, CHR 0x5C]
      else if byte c = 7 then [CHR 0x5C, CHR ''a''] else if byte c = 8 then [CHR 0x5C, CHR ''b'']
      else if byte c = 12 then [CHR 0x5C, CHR ''f''] else if byte c = 10 then [CHR 0x5C, CHR ''n'']
      else if byte c = 13 then [CHR 0x5C, CHR ''r''] else if byte c = 9 then [CHR 0x5C, CHR ''t'']
      else if byte c = 11 then [CHR 0x5C, CHR ''v'']
      else if byte c < 32 \<or> byte c = 127 then [CHR 0x5C, CHR ''x''] @ pad_left 2 (format_uint 16 (byte c))
      else [c])"

definition go_quote :: "string \<Rightarrow> string" where
  "go_quote s = CHR 0x22 # concat (map quote_char s) @ [CHR 0x22]"

definition em_dash :: string where "em_dash = [CHR 0xE2, CHR 0x80, CHR 0x94]"

definition plan_caution :: string where
  "plan_caution = ''  caution: at least one snapshot is an EXPLAIN (GENERIC_PLAN) estimate, not a plan pg_store_plans recorded from a real execution '' @
     em_dash @ '' planner statistics may have changed since the original slow run, so this diff may not reflect the actual root cause.'' @ [CHR 10]"

definition plan_diff :: "plan_snapshot option \<Rightarrow> plan_snapshot option \<Rightarrow> string" where
  "plan_diff before after =
     (case (before, after) of
        (None, None) \<Rightarrow> ''plan diff: no plan captured on either side of the regression.''
      | (None, Some a) \<Rightarrow> ''plan diff: no plan captured before the regression; after ('' @ source_string (ps_Source a) @
           '' source): '' @ ps_RootNodeType a @ '', total cost '' @ format_fixed 2 (ps_TotalCost a) @ ''.''
      | (Some b, None) \<Rightarrow> ''plan diff: no plan captured after the regression; before ('' @ source_string (ps_Source b) @
           '' source): '' @ ps_RootNodeType b @ '', total cost '' @ format_fixed 2 (ps_TotalCost b) @ ''.''
      | (Some b, Some a) \<Rightarrow>
          ''plan diff for queryid '' @ format_int (ps_QueryID a) @ '':'' @ [CHR 10] @
          (if ps_RootNodeType b \<noteq> ps_RootNodeType a
           then ''  root node type changed: '' @ go_quote (ps_RootNodeType b) @ '' -> '' @ go_quote (ps_RootNodeType a) @ [CHR 10]
           else ''  root node type unchanged: '' @ go_quote (ps_RootNodeType a) @ [CHR 10]) @
          (if ps_TotalCost b > 0
           then ''  total cost: '' @ format_fixed 2 (ps_TotalCost b) @ '' -> '' @ format_fixed 2 (ps_TotalCost a) @ '' ('' @
                format_signed 1 ((ps_TotalCost a - ps_TotalCost b) / ps_TotalCost b * 100) @ ''%)'' @ [CHR 10]
           else ''  total cost: '' @ format_fixed 2 (ps_TotalCost b) @ '' -> '' @ format_fixed 2 (ps_TotalCost a) @ [CHR 10]) @
          ''  source: '' @ source_string (ps_Source b) @ '' -> '' @ source_string (ps_Source a) @ [CHR 10] @
          (if ps_Source b = SourceGenericPlan \<or> ps_Source a = SourceGenericPlan then plan_caution else []))"

section \<open>Trust gates\<close>

lemma detectStorePlans_reliable:
  assumes "detectStorePlans db = Inr st" "sp_installed st" "sp_reliable st"
  obtains v major c where "db_extversion db = Inr (Some v)" "extVersionAtLeast v 1 6"
    "pgMajorVersion db = Inr major" "14 \<le> major" "db_compute_query_id db = Inr c" "c \<noteq> ''off''"
  using assms
  by (auto simp: detectStorePlans_def unreliable_def storePlansMinReliableVersion_def storePlansMinReliablePGMajor_def
      split: sum.splits option.splits if_splits)

lemma parsePlanJSON_root: "parsePlanJSON parse raw = Inr (nt, tc) \<Longrightarrow> nt \<noteq> []"
  by (auto simp: parsePlanJSON_def Let_def split: if_splits sum.splits)

text \<open>A snapshot says when and for which query it was captured, and what its text says about the root of the plan.\<close>

definition snapshot_of :: "json_parser \<Rightarrow> gtime \<Rightarrow> queryid \<Rightarrow> plan_snapshot \<Rightarrow> bool" where
  "snapshot_of parse now q snap \<longleftrightarrow> ps_QueryID snap = q \<and> ps_RecordedAt snap = now \<and> ps_RootNodeType snap \<noteq> [] \<and>
     parsePlanJSON parse (ps_PlanJSON snap) = Inr (ps_RootNodeType snap, ps_TotalCost snap)"

lemma read_store_plan_snapshot:
  assumes "read_store_plan parse db now q = Inr snap"
  shows "snapshot_of parse now q snap \<and> ps_Source snap = SourceStorePlans \<and> db_store_plan db q = Inr (Some (ps_PlanJSON snap))"
  unfolding snapshot_of_def using assms parsePlanJSON_root by (auto simp: read_store_plan_def split: option.splits sum.splits)

lemma captureGenericPlan_snapshot:
  assumes "captureGenericPlan parse db now q text = Inr snap"
  shows "snapshot_of parse now q snap \<and> ps_Source snap = SourceGenericPlan \<and>
    db_explain db (''EXPLAIN (FORMAT JSON, GENERIC_PLAN) '' @ text) = Inr (ps_PlanJSON snap) \<and>
    (\<exists>major. pgMajorVersion db = Inr major \<and> 16 \<le> major)"
  unfolding snapshot_of_def using assms parsePlanJSON_root by (auto simp: captureGenericPlan_def split: if_splits sum.splits)

lemma capturePlanFromStorePlans_snapshot:
  assumes "capturePlanFromStorePlans parse db now q = Inr snap"
  shows "snapshot_of parse now q snap \<and> ps_Source snap = SourceStorePlans \<and> db_store_plan db q = Inr (Some (ps_PlanJSON snap)) \<and>
    (\<exists>v major c. db_extversion db = Inr (Some v) \<and> extVersionAtLeast v 1 6 \<and>
       pgMajorVersion db = Inr major \<and> 14 \<le> major \<and> db_compute_query_id db = Inr c \<and> c \<noteq> ''off'')"
proof -
  obtain st where st: "detectStorePlans db = Inr st" "sp_installed st" "sp_reliable st" "read_store_plan parse db now q = Inr snap"
    using assms by (auto simp: capturePlanFromStorePlans_def split: sum.splits if_splits)
  from st(1-3) obtain v major c where "db_extversion db = Inr (Some v)" "extVersionAtLeast v 1 6"
    "pgMajorVersion db = Inr major" "14 \<le> major" "db_compute_query_id db = Inr c" "c \<noteq> ''off''" by (rule detectStorePlans_reliable)
  then show ?thesis using read_store_plan_snapshot [OF st(4)] by blast
qed

lemma split_on_sep: "sep \<notin> set p \<Longrightarrow> split_on sep (p @ sep # r) = p # split_on sep r"
  by (induction p) auto

lemma format_uint_no_dot: "CHR ''.'' \<notin> set (format_uint 10 n)"
  using format_uint_digits [of n] by (auto simp: list_all_iff is_digit_def char_in_def byte_def)

section \<open>Properties\<close>

text \<open>C24: A captured plan can be trusted for what its source says: it carries the requested query id and the time of the capture, its
  text is the one the server gave for this query, and root node and cost are those of the text; it comes from pg_store_plans only if the extension is at least 1.6, the server at
  least 14 and query ids are computed; otherwise it is an estimate, taken only after the real plan
  could not be read and only from a server that supports \<open>GENERIC_PLAN\<close>.\<close>

theorem capture_plan_trust:
  assumes "capturePlan parse db now q text = Inr snap"
  shows "ps_QueryID snap = q \<and> ps_RecordedAt snap = now \<and> ps_RootNodeType snap \<noteq> [] \<and>
    parsePlanJSON parse (ps_PlanJSON snap) = Inr (ps_RootNodeType snap, ps_TotalCost snap) \<and>
    (case ps_Source snap of
       SourceStorePlans \<Rightarrow> db_store_plan db q = Inr (Some (ps_PlanJSON snap)) \<and> (\<exists>v major c. db_extversion db = Inr (Some v) \<and> extVersionAtLeast v 1 6 \<and>
          pgMajorVersion db = Inr major \<and> 14 \<le> major \<and> db_compute_query_id db = Inr c \<and> c \<noteq> ''off'')
     | SourceGenericPlan \<Rightarrow> db_explain db (''EXPLAIN (FORMAT JSON, GENERIC_PLAN) '' @ text) = Inr (ps_PlanJSON snap) \<and> (\<exists>err. capturePlanFromStorePlans parse db now q = Inl err) \<and>
          (\<exists>major. pgMajorVersion db = Inr major \<and> 16 \<le> major))"
proof (cases "capturePlanFromStorePlans parse db now q")
  case (Inl err)
  then have "captureGenericPlan parse db now q text = Inr snap"
    using assms by (auto simp: capturePlan_def split: sum.splits)
  from captureGenericPlan_snapshot [OF this] Inl show ?thesis by (simp add: snapshot_of_def)
next
  case (Inr s)
  then have "s = snap" using assms by (simp add: capturePlan_def)
  with capturePlanFromStorePlans_snapshot [OF Inr] show ?thesis by (auto simp: snapshot_of_def)
qed

text \<open>Extension versions are compared numerically, component by component: for a version written as
  two decimal numbers the test is the lexicographic order, so 1.10 is newer than 1.6.\<close>

theorem ext_version_numeric:
  assumes "major < 2 ^ 63" "minor < 2 ^ 63"
  shows "extVersionAtLeast (format_uint 10 major @ ''.'' @ format_uint 10 minor) wa wb =
    (wa < int major \<or> wa = int major \<and> wb \<le> int minor)"
proof -
  have p: "parse_int (format_uint 10 n) = Some (int n)" if "n < 2 ^ 63" for n
    using parse_format_int [of "int n"] that by (simp add: format_int_def)
  have "split_on CHR ''.'' (format_uint 10 major @ CHR ''.'' # format_uint 10 minor) = [format_uint 10 major, format_uint 10 minor]"
    using split_on_sep [OF format_uint_no_dot, of major "format_uint 10 minor"] split_on_only [OF format_uint_no_dot, of minor] by simp
  then show ?thesis using p [OF assms(1)] p [OF assms(2)] by (auto simp: extVersionAtLeast_def)
qed

section \<open>Witnesses\<close>

definition sample_db :: pg_db where
  "sample_db = \<lparr>db_server_version_num = Inr 160003, db_extversion = Inr None, db_compute_query_id = Inr ''auto'',
     db_begin = None, db_set_format = None, db_store_plan = (\<lambda>q. Inr None), db_commit = None,
     db_explain = (\<lambda>s. Inr ''[]'')\<rparr>"

definition sample_parser :: json_parser where
  "sample_parser s = Inr (JArr [JObj [(''Plan'', JObj [(''Node Type'', JStr ''Seq Scan''), (''Total Cost'', JNum 12)])]])"

theorem capture_plan_trust_witness:
  "\<exists>snap. capturePlan sample_parser sample_db 5 1 ''select 1'' = Inr snap \<and> ps_QueryID snap = 1 \<and> ps_RecordedAt snap = 5 \<and>
    ps_PlanJSON snap = ''[]'' \<and> ps_Source snap = SourceGenericPlan"
proof -
  have m: "pgMajorVersion sample_db = Inr 16" by (simp add: pgMajorVersion_def sample_db_def go_div_def)
  have t: "trim_space ''select 1'' \<noteq> []" "trim_space ''[]'' \<noteq> []" by code_simp+
  have "\<exists>snap. capturePlan sample_parser sample_db 5 1 ''select 1'' = Inr snap \<and> ps_Source snap = SourceGenericPlan"
    using m t
    by (simp add: capturePlan_def capturePlanFromStorePlans_def detectStorePlans_def captureGenericPlan_def
        sample_db_def parsePlanJSON_def plan_node_def sample_parser_def as_map_list_def as_map_def Let_def)
  then obtain snap where s: "capturePlan sample_parser sample_db 5 1 ''select 1'' = Inr snap" "ps_Source snap = SourceGenericPlan" by blast
  with capture_plan_trust [OF s(1)] show ?thesis by (simp add: sample_db_def)
qed

theorem ext_version_numeric_witness:
  "extVersionAtLeast (format_uint 10 1 @ ''.'' @ format_uint 10 10) 1 6"
  using ext_version_numeric [of 1 10 1 6] by simp

end
