(* ===== verification/Event_Ingester.thy ===== *)
theory Event_Ingester
  imports Api_Types
begin

text \<open>
  The deploy-event ingester (\<open>internal/ingester/ingester.go\<close>): the in-memory event store with its
  time index, and the webhook handler that authenticates, decodes and normalises a request. The
  interface of an event store is the locale \<open>event_store\<close>; the ingester's own store is one of its
  models, the in-memory storage backend (\<open>Memory_Store\<close>) another.

  \<open>encoding/json\<close> is an argument of the handler: one decoder per payload type, which sees the bytes
  that \<open>http.MaxBytesReader\<close> lets through and whether reading past them is an error.
\<close>

section \<open>The contract of an event store\<close>

text \<open>\<open>tm\<close> is the resolution of the store: what becomes of a time, of an event or of a query, that it is given.\<close>

definition at_resolution :: "(gtime \<Rightarrow> gtime) \<Rightarrow> deploy_event \<Rightarrow> deploy_event" where
  "at_resolution tm e = e\<lparr>ev_Timestamp := tm (ev_Timestamp e)\<rparr>"

lemma at_resolution_id [simp]: "at_resolution (\<lambda>t. t) e = e"
  by (simp add: at_resolution_def)

locale event_store =
  fixes tm :: "gtime \<Rightarrow> gtime"
    and ok :: "'s \<Rightarrow> bool"
    and add :: "deploy_event \<Rightarrow> 's \<Rightarrow> 's"
    and contents :: "'s \<Rightarrow> deploy_event list"
    and in_range :: "gtime \<Rightarrow> gtime \<Rightarrow> 's \<Rightarrow> deploy_event list"
  assumes add_ok: "ok s \<Longrightarrow> ok (add e s)"
    and ids_distinct: "ok s \<Longrightarrow> distinct (map ev_ID (contents s))"
    and add_ids: "ok s \<Longrightarrow> map ev_ID (contents (add e s)) = set_add (ev_ID e) (map ev_ID (contents s))"
    and add_others: "ok s \<Longrightarrow> filter (\<lambda>x. ev_ID x \<noteq> ev_ID e) (contents (add e s)) =
          filter (\<lambda>x. ev_ID x \<noteq> ev_ID e) (contents s)"
    and add_fresh: "ok s \<Longrightarrow> ev_ID e \<notin> ev_ID ` set (contents s) \<Longrightarrow> at_resolution tm e \<in> set (contents (add e s))"
    and add_again: "ok s \<Longrightarrow> contents (add e (add e s)) = contents (add e s)"
    and range_contents: "ok s \<Longrightarrow> mset (in_range lo hi s) = mset (range_filter ev_Timestamp (tm lo) (tm hi) (contents s))"
begin

lemma add_all_ok: "ok s \<Longrightarrow> ok (fold add es s)"
  by (induction es arbitrary: s) (auto intro: add_ok)

lemma add_all_ids: "ok s \<Longrightarrow> map ev_ID (contents (fold add es s)) = fold set_add (map ev_ID es) (map ev_ID (contents s))"
  by (induction es arbitrary: s) (auto simp: add_ids add_ok)

text \<open>Redelivering any part of the history (webhook retries) adds no entry.\<close>

lemma redelivery_adds_nothing:
  assumes "ok s" "set rs \<subseteq> set es"
  shows "map ev_ID (contents (fold add (es @ rs) s)) = map ev_ID (contents (fold add es s))"
proof -
  have known: "set (map ev_ID rs) \<subseteq> set (fold set_add (map ev_ID es) ks)" for ks
  proof -
    have "set (fold set_add xs ks) = set xs \<union> set ks" for xs :: "string list"
      by (induction xs arbitrary: ks) auto
    then show ?thesis using assms(2) by auto
  qed
  have "fold set_add xs ks = ks" if "set xs \<subseteq> set ks" for xs ks :: "string list"
    using that by (induction xs) (auto simp: set_add_def)
  then show ?thesis using add_all_ids [OF assms(1), of "es @ rs"] add_all_ids [OF assms(1), of es] known
    by simp
qed

lemma in_range_member:
  assumes "ok s"
  shows "e \<in> set (in_range lo hi s) \<longleftrightarrow> e \<in> set (contents s) \<and> tm lo \<le> ev_Timestamp e \<and> ev_Timestamp e \<le> tm hi"
  using mset_eq_setD [OF range_contents [OF assms, of lo hi]] by (auto simp: range_filter_def)

end

section \<open>Store\<close>

record store =
  st_events :: "deploy_event list"
  st_byTime :: "deploy_event list"
  st_ids :: "string list option"

definition new_store :: store where
  "new_store = \<lparr>st_events = [], st_byTime = [], st_ids = Some []\<rparr>"

text \<open>The zero value of \<open>Store\<close>: its id set is nil until the first write.\<close>

definition zero_store :: store where
  "zero_store = \<lparr>st_events = [], st_byTime = [], st_ids = None\<rparr>"

definition insertByTimeLocked :: "deploy_event \<Rightarrow> store \<Rightarrow> store" where
  "insertByTimeLocked ev s =
     (let pos = sort_search (length (st_byTime s)) (\<lambda>i. time_after (ev_Timestamp (st_byTime s ! i)) (ev_Timestamp ev))
      in s\<lparr>st_byTime := insert_at pos ev (st_byTime s)\<rparr>)"

definition store_put :: "deploy_event \<Rightarrow> string list \<Rightarrow> store \<Rightarrow> store" where
  "store_put ev ids s =
     (if ev_ID ev \<in> set ids then s\<lparr>st_ids := Some ids\<rparr>
      else insertByTimeLocked ev (s\<lparr>st_ids := Some (set_add (ev_ID ev) ids), st_events := st_events s @ [ev]\<rparr>))"

definition ids_of :: "store \<Rightarrow> string list" where
  "ids_of s = (case st_ids s of None \<Rightarrow> [] | Some ids \<Rightarrow> ids)"

definition store_Add :: "deploy_event \<Rightarrow> store \<Rightarrow> store" where
  "store_Add ev s = store_put ev (ids_of s) s"

definition store_EventsInRange :: "gtime \<Rightarrow> gtime \<Rightarrow> store \<Rightarrow> deploy_event list" where
  "store_EventsInRange lo hi s =
     (let i = sort_search (length (st_byTime s)) (\<lambda>i. \<not> time_before (ev_Timestamp (st_byTime s ! i)) lo)
      in takeWhile (\<lambda>ev. \<not> time_after (ev_Timestamp ev) hi) (drop i (st_byTime s)))"

definition backfill_ids :: "store \<Rightarrow> string list" where
  "backfill_ids s = (case st_ids s of None \<Rightarrow> fold (\<lambda>ev ids. set_add (ev_ID ev) ids) (st_events s) [] | Some ids \<Rightarrow> ids)"

fun backfill_loop :: "deploy_event list \<Rightarrow> store \<Rightarrow> store" where
  "backfill_loop [] s = s"
| "backfill_loop (ev # evs) s = backfill_loop evs (store_put ev (ids_of s) s)"

definition store_Backfill :: "deploy_event list \<Rightarrow> store \<Rightarrow> store \<times> nat" where
  "store_Backfill evs s =
     (if evs = [] then (s, length (st_events s))
      else let s' = backfill_loop evs (s\<lparr>st_ids := Some (backfill_ids s)\<rparr>) in (s', length (st_events s')))"

definition store_DrainSince :: "nat \<Rightarrow> store \<Rightarrow> deploy_event list \<times> nat" where
  "store_DrainSince cursor s =
     (if length (st_events s) \<le> cursor then ([], cursor)
      else (drop cursor (st_events s), length (st_events s)))"

definition store_All :: "store \<Rightarrow> deploy_event list" where
  "store_All s = st_events s"

subsection \<open>Representation invariant\<close>

definition store_inv :: "store \<Rightarrow> bool" where
  "store_inv s \<longleftrightarrow> st_byTime s = sort_key ev_Timestamp (st_events s) \<and>
     distinct (map ev_ID (st_events s)) \<and>
     (case st_ids s of None \<Rightarrow> st_events s = [] | Some ids \<Rightarrow> ids = map ev_ID (st_events s))"

lemma store_inv_new: "store_inv new_store" "store_inv zero_store"
  by (simp_all add: store_inv_def new_store_def zero_store_def)

lemma store_inv_ids:
  assumes "store_inv s"
  shows "ids_of s = map ev_ID (st_events s)"
    and "backfill_ids s = map ev_ID (st_events s)"
  using assms by (auto simp: store_inv_def backfill_ids_def ids_of_def split: option.splits)

lemma store_put_dup:
  assumes "store_inv s" "ev_ID ev \<in> ev_ID ` set (st_events s)"
  shows "store_put ev (map ev_ID (st_events s)) s = s\<lparr>st_ids := Some (map ev_ID (st_events s))\<rparr>"
  using assms by (simp add: store_put_def)

lemma store_put_fresh:
  assumes "ev_ID ev \<notin> ev_ID ` set (st_events s)"
  shows "st_events (store_put ev (map ev_ID (st_events s)) s) = st_events s @ [ev]"
    and "st_ids (store_put ev (map ev_ID (st_events s)) s) = Some (map ev_ID (st_events s @ [ev]))"
    and "st_byTime (store_put ev (map ev_ID (st_events s)) s) =
      insert_at (sort_search (length (st_byTime s)) (\<lambda>i. ev_Timestamp ev < ev_Timestamp (st_byTime s ! i))) ev (st_byTime s)"
  using assms
  by (simp_all add: store_put_def insertByTimeLocked_def Let_def set_add_def time_simps)

lemma store_put_inv:
  assumes "store_inv s"
  shows "store_inv (store_put ev (map ev_ID (st_events s)) s)"
proof (cases "ev_ID ev \<in> ev_ID ` set (st_events s)")
  case True
  then show ?thesis using assms by (simp add: store_put_dup) (simp add: store_inv_def)
next
  case False
  then show ?thesis using assms
    by (simp add: store_inv_def store_put_fresh insert_by_search_sort_key [unfolded length_sort])
qed

lemma store_put_events:
  assumes "store_inv s"
  shows "st_events (store_put ev (map ev_ID (st_events s)) s) =
     (if ev_ID ev \<in> ev_ID ` set (st_events s) then st_events s else st_events s @ [ev])"
  using assms by (simp add: store_put_dup store_put_fresh)

lemma store_Add_inv: "store_inv s \<Longrightarrow> store_inv (store_Add ev s)"
  by (simp add: store_Add_def store_inv_ids store_put_inv)

lemma store_Add_events:
  "store_inv s \<Longrightarrow> st_events (store_Add ev s) =
     (if ev_ID ev \<in> ev_ID ` set (st_events s) then st_events s else st_events s @ [ev])"
  by (simp add: store_Add_def store_inv_ids store_put_events)

lemma backfill_loop_eq_Adds: "store_inv s \<Longrightarrow> backfill_loop evs s = fold store_Add evs s"
  by (induction evs arbitrary: s) (auto simp: store_Add_def store_inv_ids store_put_inv)

lemma store_inv_set_ids: "store_inv s \<Longrightarrow> store_inv (s\<lparr>st_ids := Some (backfill_ids s)\<rparr>)"
  by (simp add: store_inv_ids) (simp add: store_inv_def)

lemma store_EventsInRange_eq:
  assumes "store_inv s"
  shows "store_EventsInRange lo hi s = sort_key ev_Timestamp (range_filter ev_Timestamp lo hi (st_events s))"
  using assms range_by_search [of ev_Timestamp "st_byTime s" hi lo]
  by (simp add: store_EventsInRange_def store_inv_def time_simps range_filter_sort_key)

interpretation ingester_store: event_store "\<lambda>t. t" store_inv store_Add store_All store_EventsInRange
proof unfold_locales
  fix s e assume inv: "store_inv s"
  show "store_inv (store_Add e s)" by (rule store_Add_inv [OF inv])
  show "distinct (map ev_ID (store_All s))" using inv by (simp add: store_inv_def store_All_def)
  show "map ev_ID (store_All (store_Add e s)) = set_add (ev_ID e) (map ev_ID (store_All s))"
    using store_Add_events [OF inv] by (auto simp: store_All_def set_add_def)
  show "filter (\<lambda>x. ev_ID x \<noteq> ev_ID e) (store_All (store_Add e s)) = filter (\<lambda>x. ev_ID x \<noteq> ev_ID e) (store_All s)"
    using store_Add_events [OF inv] by (simp add: store_All_def)
  show "at_resolution (\<lambda>t. t) e \<in> set (store_All (store_Add e s))" if "ev_ID e \<notin> ev_ID ` set (store_All s)"
    using store_Add_events [OF inv] that by (simp add: store_All_def)
  show "store_All (store_Add e (store_Add e s)) = store_All (store_Add e s)"
    using store_Add_events [OF inv] store_Add_events [OF store_Add_inv [OF inv]] by (simp add: store_All_def)
  show "mset (store_EventsInRange lo hi s) = mset (range_filter ev_Timestamp lo hi (store_All s))" for lo hi
    using inv by (simp add: store_EventsInRange_eq store_All_def)
qed

subsection \<open>Draining the store\<close>

text \<open>The poll loop of the operator interleaves deliveries with drains; a run of such steps keeps the
  cursor of the last drain and everything drained so far.\<close>

datatype store_op = OpAdd deploy_event | OpBackfill "deploy_event list" | OpDrain

fun drain_step :: "store_op \<Rightarrow> store \<times> nat \<times> deploy_event list \<Rightarrow> store \<times> nat \<times> deploy_event list" where
  "drain_step (OpAdd ev) (s, c, out) = (store_Add ev s, c, out)"
| "drain_step (OpBackfill evs) (s, c, out) = (fst (store_Backfill evs s), c, out)"
| "drain_step OpDrain (s, c, out) = (let (b, c') = store_DrainSince c s in (s, c', out @ b))"

lemma store_Add_extends: "store_inv s \<Longrightarrow> prefix (st_events s) (st_events (store_Add ev s))"
  by (simp add: store_Add_events)

lemma fold_store_Add:
  "store_inv s \<Longrightarrow> store_inv (fold store_Add evs s) \<and> prefix (st_events s) (st_events (fold store_Add evs s))"
proof (induction evs arbitrary: s)
  case (Cons e evs)
  then have "store_inv (store_Add e s)" "prefix (st_events s) (st_events (store_Add e s))"
    by (simp_all add: store_Add_inv store_Add_extends)
  with Cons.IH [of "store_Add e s"] show ?case by (auto intro: prefix_order.trans)
qed simp

lemma store_Backfill_eq:
  assumes "store_inv s"
  shows "store_Backfill evs s = (let s' = fold store_Add evs (if evs = [] then s else s\<lparr>st_ids := Some (backfill_ids s)\<rparr>)
           in (s', length (st_events s')))"
  using assms by (simp add: store_Backfill_def backfill_loop_eq_Adds store_inv_set_ids Let_def)

lemma store_Backfill_inv:
  assumes "store_inv s"
  shows "store_inv (fst (store_Backfill evs s))" "prefix (st_events s) (st_events (fst (store_Backfill evs s)))"
    "snd (store_Backfill evs s) = length (st_events (fst (store_Backfill evs s)))"
  using fold_store_Add [OF assms, of evs] fold_store_Add [OF store_inv_set_ids [OF assms], of evs]
  using assms by (auto simp: store_Backfill_eq [OF assms] Let_def)

definition drain_inv :: "nat \<Rightarrow> deploy_event list \<Rightarrow> store \<times> nat \<times> deploy_event list \<Rightarrow> bool" where
  "drain_inv n hist r = (case r of (s, c, out) \<Rightarrow> store_inv s \<and> n \<le> c \<and> c \<le> length (st_events s) \<and>
     take n (st_events s) = hist \<and> out = drop n (take c (st_events s)))"

lemma prefix_take_drop:
  assumes "prefix xs ys" "c \<le> length xs"
  shows "take c ys = take c xs"
  using assms by (auto simp: prefix_def)

lemma drain_inv_extend:
  assumes "drain_inv n hist (s, c, out)" "store_inv s'" "prefix (st_events s) (st_events s')"
  shows "drain_inv n hist (s', c, out)"
  using assms prefix_length_le [OF assms(3)] prefix_take_drop [OF assms(3), of n] prefix_take_drop [OF assms(3), of c]
  by (auto simp: drain_inv_def)

lemma drop_take_append_drop:
  assumes "n \<le> c" "c \<le> length xs"
  shows "drop n (take c xs) @ drop c xs = drop n xs"
proof -
  have "drop n (take c xs @ drop c xs) = drop n (take c xs) @ drop c xs"
    using assms by (simp add: drop_append del: append_take_drop_id)
  then show ?thesis by simp
qed

lemma drain_step_inv:
  assumes "drain_inv n hist r"
  shows "drain_inv n hist (drain_step op r)"
proof -
  obtain s c out where r: "r = (s, c, out)" by (cases r)
  have inv: "store_inv s" using assms by (simp add: r drain_inv_def)
  show ?thesis
  proof (cases op)
    case (OpAdd ev)
    then show ?thesis
      using drain_inv_extend [OF assms [unfolded r] store_Add_inv [OF inv] store_Add_extends [OF inv]] by (simp add: r)
  next
    case (OpBackfill evs)
    then show ?thesis
      using drain_inv_extend [OF assms [unfolded r] store_Backfill_inv(1,2) [OF inv]] by (simp add: r)
  next
    case OpDrain
    then show ?thesis using assms drop_take_append_drop [of n c "st_events s"]
      by (simp add: r drain_inv_def store_DrainSince_def)
  qed
qed

lemma drain_steps_inv: "drain_inv n hist r \<Longrightarrow> drain_inv n hist (fold drain_step ops r)"
  by (induction ops arbitrary: r) (simp_all add: drain_step_inv)

section \<open>Webhook handler\<close>

definition validSourceTypes :: "string list" where
  "validSourceTypes = [''argocd'', ''argo-rollouts'', ''flux'', ''generic'']"

definition maxWebhookBodyBytes :: nat where "maxWebhookBodyBytes = 2 ^ 20"

record argocd_payload =
  acd_Name :: string
  acd_Namespace :: string
  acd_DestName :: string
  acd_DestServer :: string
  acd_Revision :: string
  acd_Images :: "string list"

record rollouts_payload =
  aro_Name :: string
  aro_Namespace :: string
  aro_CurrentPodHash :: string
  aro_ImageTag :: string
  aro_Cluster :: string

record flux_payload =
  flx_Name :: string
  flx_Namespace :: string
  flx_Kind :: string
  flx_Message :: string
  flx_Severity :: string
  flx_Metadata :: "(string, string) gomap"
  flx_Timestamp :: gtime

text \<open>What is left of a request body behind \<open>http.MaxBytesReader\<close>: the readable bytes, and whether a
  read past them fails (with \<open>http: request body too large\<close>) instead of reporting the end.\<close>

type_synonym body_stream = "string \<times> bool"
type_synonym 'p decoder = "body_stream \<Rightarrow> string + 'p"

definition max_bytes_reader :: "string \<Rightarrow> body_stream" where
  "max_bytes_reader body = (take maxWebhookBodyBytes body, maxWebhookBodyBytes < length body)"

record decoders =
  dec_argocd :: "argocd_payload decoder"
  dec_rollouts :: "rollouts_payload decoder"
  dec_flux :: "flux_payload decoder"
  dec_generic :: "deploy_event decoder"

record request =
  rq_Method :: string
  rq_Token :: string
  rq_Body :: string

record response =
  rs_Status :: nat
  rs_Body :: string

definition http_error :: "string \<Rightarrow> nat \<Rightarrow> response" where
  "http_error msg code = \<lparr>rs_Status = code, rs_Body = msg @ [CHR 10]\<rparr>"

definition no_content :: response where
  "no_content = \<lparr>rs_Status = 204, rs_Body = []\<rparr>"

definition parseArgoCDPayload :: "argocd_payload decoder \<Rightarrow> (nat \<Rightarrow> gtime) \<Rightarrow> body_stream \<Rightarrow> string + deploy_event" where
  "parseArgoCDPayload dec now body =
     (case dec body of
        Inl err \<Rightarrow> Inl (''argocd: decode: '' @ err)
      | Inr p \<Rightarrow>
          (let imageTag = (case acd_Images p of [] \<Rightarrow> [] | i # _ \<Rightarrow> i);
               cluster = (if acd_DestName p = [] then acd_DestServer p else acd_DestName p)
           in Inr \<lparr>ev_ID = ''argocd-'' @ acd_Name p @ ''-'' @ acd_Revision p, ev_Source = [],
                   ev_App = acd_Name p, ev_Cluster = cluster, ev_Namespace = acd_Namespace p,
                   ev_Revision = acd_Revision p, ev_ImageTag = imageTag, ev_Timestamp = now 0\<rparr>))"

definition parseArgoRolloutsPayload :: "rollouts_payload decoder \<Rightarrow> (nat \<Rightarrow> gtime) \<Rightarrow> body_stream \<Rightarrow> string + deploy_event" where
  "parseArgoRolloutsPayload dec now body =
     (case dec body of
        Inl err \<Rightarrow> Inl (''argo-rollouts: decode: '' @ err)
      | Inr p \<Rightarrow>
          Inr \<lparr>ev_ID = ''argo-rollouts-'' @ aro_Name p @ ''-'' @ aro_CurrentPodHash p, ev_Source = [],
               ev_App = aro_Name p, ev_Cluster = aro_Cluster p, ev_Namespace = aro_Namespace p,
               ev_Revision = aro_CurrentPodHash p, ev_ImageTag = aro_ImageTag p, ev_Timestamp = now 0\<rparr>)"

definition parseFluxPayload :: "flux_payload decoder \<Rightarrow> (nat \<Rightarrow> gtime) \<Rightarrow> body_stream \<Rightarrow> string + deploy_event" where
  "parseFluxPayload dec now body =
     (case dec body of
        Inl err \<Rightarrow> Inl (''flux: decode: '' @ err)
      | Inr p \<Rightarrow>
          (let ts = (if is_zero (flx_Timestamp p) then now 0 else flx_Timestamp p)
           in Inr \<lparr>ev_ID = ''flux-'' @ flx_Name p @ ''-'' @ format_int (unix_nano (now 1)), ev_Source = [],
                   ev_App = flx_Name p, ev_Cluster = map_get [] (flx_Metadata p) ''cluster'',
                   ev_Namespace = flx_Namespace p, ev_Revision = map_get [] (flx_Metadata p) ''revision'',
                   ev_ImageTag = [], ev_Timestamp = ts\<rparr>))"

definition parseGenericPayload :: "deploy_event decoder \<Rightarrow> (nat \<Rightarrow> gtime) \<Rightarrow> body_stream \<Rightarrow> string + deploy_event" where
  "parseGenericPayload dec now body =
     (case dec body of
        Inl err \<Rightarrow> Inl (''generic: decode: '' @ err)
      | Inr ev \<Rightarrow>
          (let ev1 = (if is_zero (ev_Timestamp ev) then ev\<lparr>ev_Timestamp := now 0\<rparr> else ev);
               ev2 = (if ev_ID ev1 = [] then
                        ev1\<lparr>ev_ID := ''generic-'' @ ev_App ev1 @ ''-'' @ format_int (unix_nano (now 1))\<rparr> else ev1)
           in Inr ev2))"

definition parse_payload :: "decoders \<Rightarrow> string \<Rightarrow> (nat \<Rightarrow> gtime) \<Rightarrow> body_stream \<Rightarrow> string + deploy_event" where
  "parse_payload d st now body =
     (if st = ''argocd'' then parseArgoCDPayload (dec_argocd d) now body
      else if st = ''argo-rollouts'' then parseArgoRolloutsPayload (dec_rollouts d) now body
      else if st = ''flux'' then parseFluxPayload (dec_flux d) now body
      else parseGenericPayload (dec_generic d) now body)"

text \<open>\<open>subtle.ConstantTimeCompare\<close> returns 1 exactly on equal byte strings.\<close>

definition handler_ServeHTTP :: "decoders \<Rightarrow> (nat \<Rightarrow> gtime) \<Rightarrow> deploy_source \<Rightarrow> request \<Rightarrow> store \<Rightarrow> response \<times> store" where
  "handler_ServeHTTP d now src r s =
     (if rq_Method r \<noteq> ''POST'' then (http_error ''method not allowed'' 405, s)
      else if ds_WebhookSecret src \<noteq> [] \<and> rq_Token r \<noteq> ds_WebhookSecret src then (http_error ''unauthorized'' 401, s)
      else case parse_payload d (ds_SourceType src) now (max_bytes_reader (rq_Body r)) of
             Inl err \<Rightarrow> (http_error (''bad request: '' @ err) 400, s)
           | Inr ev \<Rightarrow>
               (let ev1 = ev\<lparr>ev_Source := ds_Name src\<rparr>;
                    ev2 = (if ev_Cluster ev1 = [] then ev1\<lparr>ev_Cluster := ds_ClusterName src\<rparr> else ev1)
                in if ds_AppName src \<noteq> [] \<and> ev_App ev2 \<noteq> ds_AppName src then (no_content, s)
                   else (no_content, store_Add ev2 s)))"

lemma parse_payload_event:
  assumes "parse_payload d st now body = Inr ev"
  shows "ev_ID ev \<noteq> []"
  using assms
  by (auto simp: parse_payload_def parseArgoCDPayload_def parseArgoRolloutsPayload_def parseFluxPayload_def
      parseGenericPayload_def Let_def split: if_splits sum.splits)

text \<open>The event that an accepted request stores.\<close>

definition normalised :: "deploy_source \<Rightarrow> deploy_event \<Rightarrow> deploy_event" where
  "normalised src ev = ev\<lparr>ev_Source := ds_Name src, ev_Cluster := (if ev_Cluster ev = [] then ds_ClusterName src else ev_Cluster ev)\<rparr>"

definition authorised :: "deploy_source \<Rightarrow> request \<Rightarrow> bool" where
  "authorised src r \<longleftrightarrow> rq_Method r = ''POST'' \<and> (ds_WebhookSecret src = [] \<or> rq_Token r = ds_WebhookSecret src)"

lemma handler_ServeHTTP_cases:
  "handler_ServeHTTP d now src r s =
     (if \<not> authorised src r then (if rq_Method r = ''POST'' then http_error ''unauthorized'' 401 else http_error ''method not allowed'' 405, s)
      else case parse_payload d (ds_SourceType src) now (max_bytes_reader (rq_Body r)) of
             Inl err \<Rightarrow> (http_error (''bad request: '' @ err) 400, s)
           | Inr ev \<Rightarrow> (no_content, if ds_AppName src \<noteq> [] \<and> ev_App ev \<noteq> ds_AppName src then s
                                      else store_Add (normalised src ev) s))"
  by (auto simp: handler_ServeHTTP_def authorised_def normalised_def Let_def split: sum.splits)

text \<open>What a delivery says: the event that a body carries for a source, by the source's payload format. The event is not there if
  the body does not decode.\<close>

definition carries :: "decoders \<Rightarrow> deploy_source \<Rightarrow> (nat \<Rightarrow> gtime) \<Rightarrow> body_stream \<Rightarrow> deploy_event \<Rightarrow> bool" where
  "carries d src now body ev \<longleftrightarrow>
     (if ds_SourceType src = ''argocd'' then
        (\<exists>p. dec_argocd d body = Inr p \<and> ev = \<lparr>ev_ID = ''argocd-'' @ acd_Name p @ ''-'' @ acd_Revision p, ev_Source = ds_Name src, ev_App = acd_Name p,
           ev_Cluster = first_set [acd_DestName p, acd_DestServer p, ds_ClusterName src], ev_Namespace = acd_Namespace p, ev_Revision = acd_Revision p,
           ev_ImageTag = concat (take 1 (acd_Images p)), ev_Timestamp = now 0\<rparr>)
      else if ds_SourceType src = ''argo-rollouts'' then
        (\<exists>p. dec_rollouts d body = Inr p \<and> ev = \<lparr>ev_ID = ''argo-rollouts-'' @ aro_Name p @ ''-'' @ aro_CurrentPodHash p, ev_Source = ds_Name src,
           ev_App = aro_Name p, ev_Cluster = first_set [aro_Cluster p, ds_ClusterName src], ev_Namespace = aro_Namespace p,
           ev_Revision = aro_CurrentPodHash p, ev_ImageTag = aro_ImageTag p, ev_Timestamp = now 0\<rparr>)
      else if ds_SourceType src = ''flux'' then
        (\<exists>p. dec_flux d body = Inr p \<and> ev = \<lparr>ev_ID = ''flux-'' @ flx_Name p @ ''-'' @ format_int (unix_nano (now 1)), ev_Source = ds_Name src,
           ev_App = flx_Name p, ev_Cluster = first_set [map_get [] (flx_Metadata p) ''cluster'', ds_ClusterName src], ev_Namespace = flx_Namespace p,
           ev_Revision = map_get [] (flx_Metadata p) ''revision'', ev_ImageTag = [],
           ev_Timestamp = (if flx_Timestamp p = 0 then now 0 else flx_Timestamp p)\<rparr>)
      else
        (\<exists>p. dec_generic d body = Inr p \<and> ev = p\<lparr>ev_ID := first_set [ev_ID p, ''generic-'' @ ev_App p @ ''-'' @ format_int (unix_nano (now 1))],
           ev_Source := ds_Name src, ev_Cluster := first_set [ev_Cluster p, ds_ClusterName src],
           ev_Timestamp := (if ev_Timestamp p = 0 then now 0 else ev_Timestamp p)\<rparr>))"

lemma carries_parsed:
  "carries d src now body ev \<longleftrightarrow> (\<exists>e. parse_payload d (ds_SourceType src) now body = Inr e \<and> ev = normalised src e)"
proof -
  consider (argocd) "ds_SourceType src = ''argocd''" | (rollouts) "ds_SourceType src = ''argo-rollouts''" | (flux) "ds_SourceType src = ''flux''"
    | (generic) "ds_SourceType src \<notin> {''argocd'', ''argo-rollouts'', ''flux''}" by blast
  then show ?thesis
  proof cases
    case argocd
    have "concat (take 1 is) = (case is of [] \<Rightarrow> [] | i # _ \<Rightarrow> i)" for "is" :: "string list" by (cases "is") simp_all
    then show ?thesis using argocd
      by (cases "dec_argocd d body") (simp_all add: carries_def parse_payload_def parseArgoCDPayload_def normalised_def Let_def)
  next
    case rollouts
    then show ?thesis
      by (cases "dec_rollouts d body") (simp_all add: carries_def parse_payload_def parseArgoRolloutsPayload_def normalised_def)
  next
    case flux
    then show ?thesis
      by (cases "dec_flux d body") (simp_all add: carries_def parse_payload_def parseFluxPayload_def normalised_def is_zero_def Let_def)
  next
    case generic
    show ?thesis
    proof (cases "dec_generic d body")
      case (Inr p)
      then show ?thesis using generic
        by (cases p) (simp add: carries_def parse_payload_def parseGenericPayload_def normalised_def is_zero_def Let_def)
    qed (use generic in \<open>simp add: carries_def parse_payload_def parseGenericPayload_def\<close>)
  qed
qed

lemma argocd_id_of_body:
  assumes "parseArgoCDPayload dec now body = Inr ev" "parseArgoCDPayload dec now' body = Inr ev'"
  shows "ev_ID ev = ev_ID ev' \<and> ev_App ev = ev_App ev'"
  using assms by (auto simp: parseArgoCDPayload_def Let_def split: sum.splits)

lemma drained_once:
  "case store_Backfill hist new_store of (s0, n) \<Rightarrow>
     (case fold drain_step (ops @ [OpDrain]) (s0, n, []) of (s, c, out) \<Rightarrow>
        st_events s = st_events s0 @ out \<and> c = length (st_events s) \<and>
        distinct (map ev_ID out) \<and> set (map ev_ID out) \<inter> set (map ev_ID (st_events s0)) = {})"
proof -
  define s0 where "s0 = fst (store_Backfill hist new_store)"
  note bf = store_Backfill_inv [OF store_inv_new(1), of hist, folded s0_def]
  define r where "r = fold drain_step ops (s0, length (st_events s0), [])"
  have "drain_inv (length (st_events s0)) (st_events s0) (s0, length (st_events s0), [])"
    using bf(1) by (simp add: drain_inv_def)
  then have "drain_inv (length (st_events s0)) (st_events s0) (drain_step OpDrain r)"
    unfolding r_def by (intro drain_step_inv drain_steps_inv)
  moreover obtain s c out where r: "drain_step OpDrain r = (s, c, out)" by (cases "drain_step OpDrain r")
  moreover have "length (st_events s) \<le> c"
    using r by (cases r) (auto simp: store_DrainSince_def split: if_splits)
  ultimately have "st_events s = st_events s0 @ out \<and> c = length (st_events s) \<and> distinct (map ev_ID (st_events s))"
    unfolding drain_inv_def store_inv_def by simp (metis append_take_drop_id)
  then have "st_events s = st_events s0 @ out \<and> c = length (st_events s) \<and>
        distinct (map ev_ID out) \<and> set (map ev_ID out) \<inter> set (map ev_ID (st_events s0)) = {}"
    by (metis distinct_append inf_commute map_append)
  moreover have "store_Backfill hist new_store = (s0, length (st_events s0))"
    using bf(3) by (simp add: s0_def prod_eq_iff)
  moreover have "fold drain_step (ops @ [OpDrain]) (s0, length (st_events s0), []) = (s, c, out)"
    using r by (simp add: r_def)
  ultimately show ?thesis by simp
qed

section \<open>Properties\<close>

text \<open>C17: Deploy events are handed to the analysis exactly once. Seed a fresh store with persisted
  history, start the drain cursor at the count \<open>Backfill\<close> returns, and interleave deliveries, further
  backfills and drains in any order, ending with a drain: the batches drained are together exactly
  the events stored after the history, in order of arrival, with no id repeated and no id of the
  history among them.\<close>

theorem drain_exactly_once:
  "case store_Backfill hist new_store of (s0, n) \<Rightarrow>
     (case fold drain_step (ops @ [OpDrain]) (s0, n, []) of (s, c, out) \<Rightarrow>
        st_events s = st_events s0 @ out \<and> c = length (st_events s) \<and>
        distinct (map ev_ID out) \<and> set (map ev_ID out) \<inter> set (map ev_ID (st_events s0)) = {})"
  by (rule drained_once)

text \<open>C22: The binary-search range query over the time index returns exactly the stored events of the
  closed interval, stably sorted by timestamp, after any sequence of deliveries, backfills and drains.\<close>

theorem events_in_range_correct:
  "case fold drain_step ops (new_store, 0, []) of (s, c, out) \<Rightarrow>
     store_EventsInRange lo hi s = sort_key ev_Timestamp (filter (\<lambda>ev. lo \<le> ev_Timestamp ev \<and> ev_Timestamp ev \<le> hi) (store_All s))"
proof -
  have "drain_inv 0 [] (new_store, 0, [])" by (simp add: drain_inv_def store_inv_new)
  from drain_steps_inv [OF this, of ops] show ?thesis
    by (auto simp: drain_inv_def store_EventsInRange_eq range_filter_def store_All_def split: prod.splits)
qed

text \<open>C21: A webhook request changes the store only if it is an authorised POST whose body decodes to an event of the
  configured application; then the answer is 204 and exactly this event is appended: the fields of the payload, attributed to the configured
  source and to its cluster where the payload names none, under an id that was not present. Every other request leaves the events as
  they were; an authorised body that does not decode is answered 400, and an event of the application that was
  delivered is in the store afterwards.\<close>

theorem serve_http_store_change:
  assumes "store_inv s" "handler_ServeHTTP d now src r s = (resp, s')"
  defines "body \<equiv> max_bytes_reader (rq_Body r)"
  shows "store_inv s' \<and>
    (st_events s' = st_events s \<or>
     (\<exists>ev. st_events s' = st_events s @ [ev] \<and> rs_Status resp = 204 \<and> rq_Method r = ''POST'' \<and>
        (ds_WebhookSecret src = [] \<or> rq_Token r = ds_WebhookSecret src) \<and> carries d src now body ev \<and>
        ev_ID ev \<noteq> [] \<and> ev_ID ev \<notin> ev_ID ` set (st_events s) \<and> (ds_AppName src = [] \<or> ev_App ev = ds_AppName src))) \<and>
    (authorised src r \<longrightarrow>
       rs_Status resp = (if \<exists>ev. carries d src now body ev then 204 else 400) \<and>
       (\<forall>ev. carries d src now body ev \<and> (ds_AppName src = [] \<or> ev_App ev = ds_AppName src) \<longrightarrow> ev_ID ev \<in> ev_ID ` set (st_events s')))"
proof (cases "authorised src r")
  case auth: True
  show ?thesis
  proof (cases "parse_payload d (ds_SourceType src) now body")
    case (Inl err)
    then have "s' = s" "resp = http_error (''bad request: '' @ err) 400" "\<not> carries d src now body ev" for ev
      using assms(2) auth by (auto simp: handler_ServeHTTP_cases body_def carries_parsed)
    then show ?thesis using assms(1) by (simp add: http_error_def)
  next
    case (Inr e)
    have c: "carries d src now body ev \<longleftrightarrow> ev = normalised src e" for ev using Inr by (simp add: carries_parsed)
    have s': "resp = no_content" "s' = (if ds_AppName src = [] \<or> ev_App e = ds_AppName src then store_Add (normalised src e) s else s)"
      using assms(2) auth Inr by (auto simp: handler_ServeHTTP_cases body_def)
    have "ev_ID (normalised src e) \<noteq> []" "ev_App (normalised src e) = ev_App e"
      using parse_payload_event [OF Inr] by (simp_all add: normalised_def)
    then show ?thesis
      using auth store_Add_events [OF assms(1), of "normalised src e"] store_Add_inv [OF assms(1)] assms(1)
      by (auto simp: s' c authorised_def no_content_def)
  qed
next
  case False
  then have "s' = s" using assms(2) by (auto simp: handler_ServeHTTP_cases split: if_splits sum.splits)
  then show ?thesis using assms(1) False by simp
qed

text \<open>A redelivered ArgoCD notification is deduplicated: whatever the clock says on the second
  delivery, the same request leaves the stored events exactly as the first delivery left them.\<close>

theorem argocd_retry_deduplicated:
  assumes "store_inv s" "ds_SourceType src = ''argocd''"
  shows "st_events (snd (handler_ServeHTTP d now' src r (snd (handler_ServeHTTP d now src r s)))) =
         st_events (snd (handler_ServeHTTP d now src r s))"
proof (cases "parseArgoCDPayload (dec_argocd d) now (max_bytes_reader (rq_Body r))")
  case (Inl err)
  then have "\<exists>err. parseArgoCDPayload (dec_argocd d) now' (max_bytes_reader (rq_Body r)) = Inl err"
    by (auto simp: parseArgoCDPayload_def split: sum.splits)
  with Inl show ?thesis using assms(2) by (auto simp: handler_ServeHTTP_cases parse_payload_def)
next
  case (Inr ev)
  then obtain ev' where ev': "parseArgoCDPayload (dec_argocd d) now' (max_bytes_reader (rq_Body r)) = Inr ev'"
    by (auto simp: parseArgoCDPayload_def split: sum.splits)
  have "ev_ID (normalised src ev') = ev_ID (normalised src ev)" "ev_App ev' = ev_App ev"
    using argocd_id_of_body [OF Inr ev'] by (auto simp: normalised_def)
  moreover have "ev_ID (normalised src ev) \<in> ev_ID ` set (st_events (store_Add (normalised src ev) s))"
    using store_Add_events [OF assms(1)] by auto
  ultimately show ?thesis using assms Inr ev' store_Add_events [OF store_Add_inv [OF assms(1)]]
    by (auto simp: handler_ServeHTTP_cases parse_payload_def)
qed

text \<open>A redelivered Flux notification is not deduplicated: its id is built from the clock, so the
  same request handled at two instants less than 2^64 nanoseconds apart is stored twice.\<close>

theorem flux_retry_stored_twice:
  assumes "store_inv s" "ds_SourceType src = ''flux''" "authorised src r" "ds_AppName src = []"
    and "dec_flux d (max_bytes_reader (rq_Body r)) = Inr p"
    and "now' 1 \<noteq> now 1" "\<bar>now' 1 - now 1\<bar> < 2 ^ 64"
    and "\<forall>t\<in>{now 1, now' 1}. ''flux-'' @ flx_Name p @ ''-'' @ format_int (unix_nano t) \<notin> ev_ID ` set (st_events s)"
  shows "length (st_events (snd (handler_ServeHTTP d now' src r (snd (handler_ServeHTTP d now src r s))))) =
         length (st_events s) + 2"
proof -
  have "unix_nano (now' 1) \<noteq> unix_nano (now 1)"
    using assms(6,7) wrap64_eq_imp_eq unfolding unix_nano_def by fastforce
  then have ids: "format_int (unix_nano (now' 1)) \<noteq> format_int (unix_nano (now 1))"
    using parse_format_int wrap64_bounds unfolding unix_nano_def by (metis option.inject)
  obtain ev ev' where
    ev: "parseFluxPayload (dec_flux d) now (max_bytes_reader (rq_Body r)) = Inr ev"
      "ev_ID ev = ''flux-'' @ flx_Name p @ ''-'' @ format_int (unix_nano (now 1))" and
    ev': "parseFluxPayload (dec_flux d) now' (max_bytes_reader (rq_Body r)) = Inr ev'"
      "ev_ID ev' = ''flux-'' @ flx_Name p @ ''-'' @ format_int (unix_nano (now' 1))"
    using assms(5) by (auto simp: parseFluxPayload_def Let_def)
  have e1: "st_events (store_Add (normalised src ev) s) = st_events s @ [normalised src ev]"
    using assms(8) ev(2) store_Add_events [OF assms(1)] by (auto simp: normalised_def)
  have "st_events (store_Add (normalised src ev') (store_Add (normalised src ev) s)) =
      st_events s @ [normalised src ev, normalised src ev']"
    using assms(8) ev(2) ev'(2) ids e1 store_Add_events [OF store_Add_inv [OF assms(1)]] by (auto simp: normalised_def)
  then show ?thesis using assms ev ev' by (simp add: handler_ServeHTTP_cases parse_payload_def)
qed

section \<open>Witnesses\<close>

text \<open>Constant decoders stand for \<open>encoding/json\<close> on one body.\<close>

definition sample_decoders :: decoders where
  "sample_decoders = \<lparr>
     dec_argocd = (\<lambda>_. Inr \<lparr>acd_Name = ''shop'', acd_Namespace = ''argo'', acd_DestName = [], acd_DestServer = ''srv'',
                           acd_Revision = ''abc'', acd_Images = [''shop:1'']\<rparr>),
     dec_rollouts = (\<lambda>_. Inl ''eof''),
     dec_flux = (\<lambda>_. Inr \<lparr>flx_Name = ''shop'', flx_Namespace = ''prod'', flx_Kind = ''Kustomization'', flx_Message = [],
                         flx_Severity = ''info'', flx_Metadata = [(''revision'', ''r1'')], flx_Timestamp = 5\<rparr>),
     dec_generic = (\<lambda>_. Inl ''eof'')\<rparr>"

definition sample_source_cfg :: "string \<Rightarrow> deploy_source" where
  "sample_source_cfg st = \<lparr>ds_Name = ''src'', ds_Namespace = ''ns'', ds_PostgresWatchRef = ''pw'', ds_SourceType = st,
     ds_AppName = [], ds_ClusterName = ''c1'', ds_WebhookSecret = ''s3''\<rparr>"

definition sample_request :: request where
  "sample_request = \<lparr>rq_Method = ''POST'', rq_Token = ''s3'', rq_Body = ''x''\<rparr>"

lemma sample_authorised: "authorised (sample_source_cfg st) sample_request"
  by (simp add: authorised_def sample_source_cfg_def sample_request_def)

theorem serve_http_store_change_witness:
  "\<exists>ev. st_events (snd (handler_ServeHTTP sample_decoders (\<lambda>i. 7) (sample_source_cfg ''argocd'') sample_request new_store)) = [ev]
     \<and> ev_Source ev = ''src'' \<and> ev_App ev = ''shop'' \<and> ev_Revision ev = ''abc'' \<and> ev_Cluster ev = ''srv''"
proof -
  let ?h = "handler_ServeHTTP sample_decoders (\<lambda>i. 7) (sample_source_cfg ''argocd'') sample_request new_store"
  let ?body = "max_bytes_reader (rq_Body sample_request)"
  have "\<exists>ev. carries sample_decoders (sample_source_cfg ''argocd'') (\<lambda>i. 7) ?body ev"
    by (simp add: carries_def sample_source_cfg_def sample_decoders_def)
  then have "st_events (snd ?h) \<noteq> []"
    using serve_http_store_change [OF store_inv_new(1) surjective_pairing [of ?h]] sample_authorised [of "''argocd''"]
    by (auto simp: sample_source_cfg_def)
  then show ?thesis
    using serve_http_store_change [OF store_inv_new(1) surjective_pairing [of ?h]]
    by (auto simp: new_store_def sample_source_cfg_def carries_def sample_decoders_def)
qed

theorem argocd_retry_deduplicated_witness:
  "st_events (snd (handler_ServeHTTP sample_decoders (\<lambda>i. 9) (sample_source_cfg ''argocd'') sample_request
      (snd (handler_ServeHTTP sample_decoders (\<lambda>i. 7) (sample_source_cfg ''argocd'') sample_request new_store)))) =
   st_events (snd (handler_ServeHTTP sample_decoders (\<lambda>i. 7) (sample_source_cfg ''argocd'') sample_request new_store))"
  by (rule argocd_retry_deduplicated [OF store_inv_new(1)]) (simp add: sample_source_cfg_def)

theorem flux_retry_stored_twice_witness:
  "length (st_events (snd (handler_ServeHTTP sample_decoders (\<lambda>i. 9) (sample_source_cfg ''flux'') sample_request
      (snd (handler_ServeHTTP sample_decoders (\<lambda>i. 7) (sample_source_cfg ''flux'') sample_request new_store))))) = 2"
proof -
  let ?src = "sample_source_cfg ''flux''"
  have "\<exists>p. dec_flux sample_decoders (max_bytes_reader (rq_Body sample_request)) = Inr p"
    by (simp add: sample_decoders_def)
  then obtain p where "dec_flux sample_decoders (max_bytes_reader (rq_Body sample_request)) = Inr p" by blast
  from flux_retry_stored_twice [OF store_inv_new(1) _ sample_authorised [of "''flux''"] _ this, of "\<lambda>i. 9" "\<lambda>i. 7"]
  show ?thesis by (simp add: sample_source_cfg_def new_store_def)
qed

end
