(* ===== verification/Memory_Store.thy ===== *)
theory Memory_Store
  imports Event_Ingester
begin

text \<open>
  The storage contracts (\<open>internal/storage/store.go\<close>), the retention loop (\<open>internal/storage/prune.go\<close>)
  and the in-memory backend (\<open>internal/storage/memory/store.go\<close>). The contracts are the locales
  \<open>pruner\<close>, \<open>sample_store\<close> (which extends it) and \<open>event_store\<close>; the backend interprets them.
  The context arguments, which the in-memory backend ignores, and its always-nil errors are left out.
\<close>

section \<open>Retention loop\<close>

lemma mono_max: "mono f \<Longrightarrow> f (max a b) = max (f a) (f b)" for f :: "gtime \<Rightarrow> gtime"
  by (rule max_of_mono [symmetric])

definition default_prune_interval :: "duration \<Rightarrow> duration" where
  "default_prune_interval interval = (if interval \<le> 0 then dur_mul 15 minute_d else interval)"

text \<open>One element of the tick list per firing of the ticker, holding the time at which it fires; a
  failed sweep is logged and the loop goes on.\<close>

fun prune_ticks :: "(gtime \<Rightarrow> 's \<Rightarrow> string option \<times> 's) \<Rightarrow> duration \<Rightarrow> gtime list \<Rightarrow> 's \<Rightarrow> 's" where
  "prune_ticks p retention [] s = s"
| "prune_ticks p retention (now # ticks) s =
     prune_ticks p retention ticks (snd (p (time_add now (dur_neg retention)) s))"

definition runPruneLoop :: "(gtime \<Rightarrow> 's \<Rightarrow> string option \<times> 's) \<Rightarrow> duration \<Rightarrow> gtime list \<Rightarrow> 's \<Rightarrow> 's" where
  "runPruneLoop p retention ticks s = (if retention \<le> 0 then s else prune_ticks p retention ticks s)"

lemma dur_neg_id: "0 < d \<Longrightarrow> d \<le> max_duration \<Longrightarrow> dur_neg d = - d"
  by (simp add: dur_neg_def max_duration_def wrap64_id)

text \<open>\<open>tm\<close> is the resolution of the store, as for event stores.\<close>

locale pruner =
  fixes tm :: "gtime \<Rightarrow> gtime"
    and ok :: "'s \<Rightarrow> bool"
    and prune :: "gtime \<Rightarrow> 's \<Rightarrow> 's"
    and items :: "'s \<Rightarrow> 'a list"
    and stamp :: "'a \<Rightarrow> gtime"
  assumes prune_ok: "ok s \<Longrightarrow> ok (prune t s)"
    and prune_items: "ok s \<Longrightarrow> items (prune t s) = filter (\<lambda>x. \<not> stamp x < tm t) (items s)"
begin

abbreviation sweep :: "gtime \<Rightarrow> 's \<Rightarrow> string option \<times> 's" where
  "sweep t s \<equiv> (None, prune t s)"

lemma prune_ticks_ok: "ok s \<Longrightarrow> ok (prune_ticks sweep retention ticks s)"
  by (induction ticks arbitrary: s) (auto intro: prune_ok)

lemma prune_ticks_items:
  assumes "ok s" "0 < retention" "retention \<le> max_duration"
  shows "items (prune_ticks sweep retention ticks s) =
         filter (\<lambda>x. \<forall>now\<in>set ticks. tm (now - retention) \<le> stamp x) (items s)"
  using assms(1)
proof (induction ticks arbitrary: s)
  case (Cons now ticks)
  from Cons.IH [OF prune_ok [OF Cons.prems]] show ?case
    using assms(2,3)
    by (auto simp: prune_items [OF Cons.prems] dur_neg_id time_add_def not_less intro!: filter_cong)
qed simp

lemma prune_prune: "mono tm \<Longrightarrow> ok s \<Longrightarrow> items (prune t (prune u s)) = items (prune (max t u) s)"
  by (auto simp: prune_items prune_ok mono_max intro!: filter_cong)

end

section \<open>Contract of a sample store\<close>

locale sample_store = pruner tm ok prune items stamp
  for tm :: "gtime \<Rightarrow> gtime" and ok :: "'s \<Rightarrow> bool" and prune :: "gtime \<Rightarrow> 's \<Rightarrow> 's" and items :: "'s \<Rightarrow> query_sample list"
    and stamp :: "query_sample \<Rightarrow> gtime" +
  fixes append :: "query_sample \<Rightarrow> 's \<Rightarrow> 's"
    and range :: "queryid \<Rightarrow> gtime \<Rightarrow> gtime \<Rightarrow> 's \<Rightarrow> query_sample list"
    and ids :: "'s \<Rightarrow> queryid list"
    and stored :: "query_sample \<Rightarrow> query_sample"
  assumes append_ok: "ok s \<Longrightarrow> ok (append x s)"
    and append_items: "ok s \<Longrightarrow> mset (items (append x s)) = add_mset (stored x) (mset (items s))"
    and stored_sample: "qs_QueryID (stored x) = qs_QueryID x" "qs_RecordedAt (stored x) = tm (qs_RecordedAt x)"
    and range_sorted: "ok s \<Longrightarrow> sorted_by qs_RecordedAt (range q lo hi s)"
    and range_items: "ok s \<Longrightarrow> mset (range q lo hi s) =
          mset (filter (\<lambda>x. qs_QueryID x = q \<and> tm lo \<le> qs_RecordedAt x \<and> qs_RecordedAt x \<le> tm hi) (items s))"
    and ids_items: "ok s \<Longrightarrow> set (ids s) = qs_QueryID ` set (items s)"
    and ids_sorted: "ok s \<Longrightarrow> sorted (ids s) \<and> distinct (ids s)"
    and stamp_recorded: "stamp = qs_RecordedAt"
begin

lemma append_all_items: "ok s \<Longrightarrow> ok (fold append xs s) \<and> mset (items (fold append xs s)) = mset (items s) + mset (map stored xs)"
  by (induction xs arbitrary: s) (auto simp: append_ok append_items)

lemma range_member:
  "ok s \<Longrightarrow> x \<in> set (range q lo hi s) \<longleftrightarrow>
     x \<in> set (items s) \<and> qs_QueryID x = q \<and> tm lo \<le> qs_RecordedAt x \<and> qs_RecordedAt x \<le> tm hi"
  using mset_eq_setD [OF range_items [of s q lo hi]] by auto

text \<open>What the store returns after any history of appends and retention sweeps depends only on what
  was appended and on the largest cutoff.\<close>

lemma range_after_prune:
  assumes "ok s" "mono tm"
  shows "mset (range q lo hi (prune t s)) = mset (range q (max lo t) hi s)"
  unfolding range_items [OF prune_ok [OF assms(1)]] range_items [OF assms(1)] prune_items [OF assms(1)] stamp_recorded
  by (auto simp: filter_filter_mset mono_max [OF assms(2)] intro!: filter_mset_cong)

lemma as_sample_source: "ok s \<Longrightarrow> \<forall>t. tm t = t \<Longrightarrow> sample_source (\<lambda>q lo hi. range q lo hi s)"
  by unfold_locales (auto simp: range_sorted range_member)

end

section \<open>In-memory sample store\<close>

record mem_samples =
  ms_samples :: "(queryid, query_sample list) gomap"

definition newSampleStore :: mem_samples where
  "newSampleStore = \<lparr>ms_samples = []\<rparr>"

definition ms_Append :: "query_sample \<Rightarrow> mem_samples \<Rightarrow> mem_samples" where
  "ms_Append x s = s\<lparr>ms_samples := AList.update (qs_QueryID x) (map_get [] (ms_samples s) (qs_QueryID x) @ [x]) (ms_samples s)\<rparr>"

definition ms_SamplesInRange :: "queryid \<Rightarrow> gtime \<Rightarrow> gtime \<Rightarrow> mem_samples \<Rightarrow> query_sample list" where
  "ms_SamplesInRange q lo hi s =
     sort_key qs_RecordedAt
       (filter (\<lambda>x. \<not> time_before (qs_RecordedAt x) lo \<and> \<not> time_after (qs_RecordedAt x) hi) (map_get [] (ms_samples s) q))"

definition ms_AllQueryIDs :: "mem_samples \<Rightarrow> queryid list" where
  "ms_AllQueryIDs s = sort (map fst (filter (\<lambda>(id, xs). 0 < length xs) (ms_samples s)))"

definition ms_Prune :: "gtime \<Rightarrow> mem_samples \<Rightarrow> mem_samples" where
  "ms_Prune olderThan s = s\<lparr>ms_samples :=
     concat (map (\<lambda>(id, xs). let kept = filter (\<lambda>x. \<not> time_before (qs_RecordedAt x) olderThan) xs
                              in if kept = [] then [] else [(id, kept)]) (ms_samples s))\<rparr>"

definition ms_inv :: "mem_samples \<Rightarrow> bool" where
  "ms_inv s \<longleftrightarrow> distinct (map fst (ms_samples s)) \<and>
     (\<forall>(id, xs)\<in>set (ms_samples s). xs \<noteq> [] \<and> (\<forall>x\<in>set xs. qs_QueryID x = id))"

definition ms_items :: "mem_samples \<Rightarrow> query_sample list" where
  "ms_items s = concat (map snd (ms_samples s))"

lemma mset_concat_update:
  assumes "distinct (map fst m)"
  shows "mset (concat (map snd (AList.update k (map_get [] m k @ [x]) m))) = add_mset x (mset (concat (map snd m)))"
  using assms by (induction m) auto

lemma filter_bucket:
  assumes "distinct (map fst m)" "\<forall>(id, xs)\<in>set m. \<forall>x\<in>set xs. key x = id"
  shows "filter (\<lambda>x. key x = q) (concat (map snd m)) = map_get [] m q"
  using assms
proof (induction m)
  case (Cons p m)
  obtain j v where p: "p = (j, v)" by (cases p)
  have v: "filter (\<lambda>x. key x = q) v = (if j = q then v else [])"
    using Cons.prems by (auto simp: p filter_empty_conv filter_id_conv)
  have "map_get [] m j = []" using Cons.prems(1) by (auto simp: p intro!: map_get_notin)
  then show ?case using Cons v by (simp add: p)
qed simp

lemma concat_prune:
  "concat (map snd (concat (map (\<lambda>(id, xs). let kept = filter P xs in if kept = [] then [] else [(id, kept)]) m))) =
     filter P (concat (map snd m))"
  by (induction m) (auto simp: Let_def filter_empty_conv)

lemma keys_prune:
  "set (concat (map (\<lambda>(id, xs). let kept = filter P xs in if kept = [] then [] else [(id, kept)]) m)) =
     {(id, filter P xs) | id xs. (id, xs) \<in> set m \<and> filter P xs \<noteq> []}"
  by (auto simp: Let_def split: if_splits)

lemma distinct_keys_prune:
  "distinct (map fst m) \<Longrightarrow>
   distinct (map fst (concat (map (\<lambda>(id, xs). let kept = filter P xs in if kept = [] then [] else [(id, kept)]) m)))"
  by (induction m) (auto simp: Let_def image_iff split: if_splits)

lemma ms_inv_new: "ms_inv newSampleStore"
  by (simp add: ms_inv_def newSampleStore_def)

lemma ms_Append_inv:
  assumes "ms_inv s"
  shows "ms_inv (ms_Append x s)"
proof -
  have "set (AList.update k v m) \<subseteq> insert (k, v) (set m)" for k :: queryid and v :: "query_sample list" and m
    by (induction m) auto
  moreover have "\<forall>y\<in>set (map_get [] (ms_samples s) (qs_QueryID x)). qs_QueryID y = qs_QueryID x"
    using assms by (cases "map_of (ms_samples s) (qs_QueryID x)")
      (fastforce simp: ms_inv_def map_get_def dest: map_of_SomeD)+
  ultimately show ?thesis
    using assms unfolding ms_inv_def ms_Append_def
    by (fastforce simp: distinct_update)
qed

lemma ms_Prune_inv: "ms_inv s \<Longrightarrow> ms_inv (ms_Prune t s)"
  unfolding ms_inv_def ms_Prune_def
  by (auto simp add: distinct_keys_prune keys_prune simp del: set_concat)

lemma ms_keys_sorted:
  assumes "ms_inv s"
  shows "ms_AllQueryIDs s = sort (map fst (ms_samples s))"
proof -
  have "filter (\<lambda>(id, xs). 0 < length xs) (ms_samples s) = ms_samples s"
    using assms by (auto simp: ms_inv_def filter_id_conv)
  then show ?thesis by (simp add: ms_AllQueryIDs_def)
qed

lemma ms_range_eq:
  assumes "ms_inv s"
  shows "ms_SamplesInRange q lo hi s = sort_key qs_RecordedAt
     (filter (\<lambda>x. qs_QueryID x = q \<and> lo \<le> qs_RecordedAt x \<and> qs_RecordedAt x \<le> hi) (ms_items s))"
proof -
  have "map_get [] (ms_samples s) q = filter (\<lambda>x. qs_QueryID x = q) (ms_items s)"
    using assms unfolding ms_items_def ms_inv_def
    by (intro filter_bucket [symmetric]) auto
  then show ?thesis by (simp add: ms_SamplesInRange_def time_simps not_less conj_commute conj_left_commute)
qed

interpretation memory_samples:
  sample_store "\<lambda>t. t" ms_inv ms_Prune ms_items qs_RecordedAt ms_Append ms_SamplesInRange ms_AllQueryIDs "\<lambda>x. x"
proof unfold_locales
  fix s t x q lo hi assume inv: "ms_inv s"
  show "ms_inv (ms_Prune t s)" by (rule ms_Prune_inv [OF inv])
  show "ms_items (ms_Prune t s) = filter (\<lambda>x. \<not> qs_RecordedAt x < t) (ms_items s)"
    by (simp add: ms_items_def ms_Prune_def time_before_def concat_prune del: map_concat)
  show "ms_inv (ms_Append x s)" by (rule ms_Append_inv [OF inv])
  show "mset (ms_items (ms_Append x s)) = add_mset x (mset (ms_items s))"
    using inv by (simp add: ms_items_def ms_Append_def mset_concat_update ms_inv_def)
  show "sorted_by qs_RecordedAt (ms_SamplesInRange q lo hi s)" by (simp add: ms_SamplesInRange_def)
  show "mset (ms_SamplesInRange q lo hi s) =
     mset (filter (\<lambda>x. qs_QueryID x = q \<and> lo \<le> qs_RecordedAt x \<and> qs_RecordedAt x \<le> hi) (ms_items s))"
    by (simp add: ms_range_eq [OF inv])
  show "set (ms_AllQueryIDs s) = qs_QueryID ` set (ms_items s)"
    using inv unfolding ms_keys_sorted [OF inv] ms_items_def ms_inv_def
    by (force simp: image_iff neq_Nil_conv)
  show "sorted (ms_AllQueryIDs s) \<and> distinct (ms_AllQueryIDs s)"
    using inv by (simp add: ms_keys_sorted) (simp add: ms_inv_def)
qed simp_all

section \<open>In-memory event store\<close>

record mem_events =
  me_events :: "(string, deploy_event) gomap"
  me_order :: "string list"

definition newEventStore :: mem_events where
  "newEventStore = \<lparr>me_events = [], me_order = []\<rparr>"

text \<open>Reading an id that is not in the map would yield a zero event.\<close>

definition zero_event :: deploy_event where
  "zero_event = \<lparr>ev_ID = [], ev_Source = [], ev_App = [], ev_Cluster = [], ev_Namespace = [], ev_Revision = [],
     ev_ImageTag = [], ev_Timestamp = 0\<rparr>"

definition me_Add :: "deploy_event \<Rightarrow> mem_events \<Rightarrow> mem_events" where
  "me_Add ev s =
     (let s1 = (if map_of (me_events s) (ev_ID ev) = None then s\<lparr>me_order := me_order s @ [ev_ID ev]\<rparr> else s)
      in s1\<lparr>me_events := AList.update (ev_ID ev) ev (me_events s1)\<rparr>)"

definition me_EventsInRange :: "gtime \<Rightarrow> gtime \<Rightarrow> mem_events \<Rightarrow> deploy_event list" where
  "me_EventsInRange lo hi s =
     filter (\<lambda>ev. \<not> time_before (ev_Timestamp ev) lo \<and> \<not> time_after (ev_Timestamp ev) hi)
       (map (map_get zero_event (me_events s)) (me_order s))"

definition me_All :: "mem_events \<Rightarrow> deploy_event list" where
  "me_All s = map (map_get zero_event (me_events s)) (me_order s)"

definition me_inv :: "mem_events \<Rightarrow> bool" where
  "me_inv s \<longleftrightarrow> distinct (me_order s) \<and> set (me_order s) = dom (map_of (me_events s)) \<and>
     (\<forall>id\<in>set (me_order s). ev_ID (map_get zero_event (me_events s) id) = id)"

lemma me_inv_new: "me_inv newEventStore"
  by (simp add: me_inv_def newEventStore_def)

lemma me_order_Add: "me_inv s \<Longrightarrow> me_order (me_Add ev s) = set_add (ev_ID ev) (me_order s)"
  by (auto simp: me_Add_def Let_def set_add_def me_inv_def)

lemma me_get_Add:
  "map_get zero_event (me_events (me_Add ev s)) i = (if i = ev_ID ev then ev else map_get zero_event (me_events s) i)"
  by (simp add: me_Add_def Let_def)

lemma me_Add_inv:
  assumes "me_inv s"
  shows "me_inv (me_Add ev s)"
proof -
  have "dom (map_of (me_events (me_Add ev s))) = insert (ev_ID ev) (dom (map_of (me_events s)))"
    by (simp add: me_Add_def Let_def map_simps)
  then show ?thesis using assms me_order_Add [OF assms, of ev]
    by (auto simp: me_inv_def me_get_Add)
qed

lemma me_All_ids: "me_inv s \<Longrightarrow> map ev_ID (me_All s) = me_order s"
  by (auto simp: me_inv_def me_All_def intro!: map_idI)

lemma me_All_Add:
  "me_inv s \<Longrightarrow> me_All (me_Add ev s) =
     (if ev_ID ev \<in> set (me_order s) then map (\<lambda>x. if ev_ID x = ev_ID ev then ev else x) (me_All s) else me_All s @ [ev])"
  by (auto simp: me_All_def me_order_Add me_get_Add set_add_def me_inv_def)

interpretation memory_events: event_store "\<lambda>t. t" me_inv me_Add me_All me_EventsInRange
proof unfold_locales
  fix s e assume inv: "me_inv s"
  note ids = me_All_ids [OF inv]
  show "me_inv (me_Add e s)" by (rule me_Add_inv [OF inv])
  show "distinct (map ev_ID (me_All s))" using inv ids by (simp add: me_inv_def)
  show "map ev_ID (me_All (me_Add e s)) = set_add (ev_ID e) (map ev_ID (me_All s))"
    using me_order_Add [OF inv] by (simp only: me_All_ids [OF me_Add_inv [OF inv]] ids)
  show "filter (\<lambda>x. ev_ID x \<noteq> ev_ID e) (me_All (me_Add e s)) = filter (\<lambda>x. ev_ID x \<noteq> ev_ID e) (me_All s)"
  proof -
    have "filter (\<lambda>x. ev_ID x \<noteq> ev_ID e) (map (\<lambda>x. if ev_ID x = ev_ID e then e else x) xs) = filter (\<lambda>x. ev_ID x \<noteq> ev_ID e) xs"
      for xs by (induction xs) auto
    then show ?thesis by (simp add: me_All_Add [OF inv])
  qed
  show "at_resolution (\<lambda>t. t) e \<in> set (me_All (me_Add e s))" if "ev_ID e \<notin> ev_ID ` set (me_All s)"
    using that ids by (simp add: me_All_Add [OF inv] flip: set_map)
  show "me_All (me_Add e (me_Add e s)) = me_All (me_Add e s)"
    using me_order_Add [OF inv] me_order_Add [OF me_Add_inv [OF inv]]
    by (simp add: me_All_def me_get_Add) (simp add: set_add_def me_get_Add)
  show "mset (me_EventsInRange lo hi s) = mset (range_filter ev_Timestamp lo hi (me_All s))" for lo hi
    by (simp add: me_EventsInRange_def me_All_def range_filter_def time_simps not_less)
qed

section \<open>Properties\<close>

text \<open>A history of a sample store, and the samples it should hold: those appended and not older than
  the cutoff of a later sweep.\<close>

datatype sample_op = OpAppend query_sample | OpPrune gtime

fun ms_step :: "sample_op \<Rightarrow> mem_samples \<Rightarrow> mem_samples" where
  "ms_step (OpAppend x) s = ms_Append x s"
| "ms_step (OpPrune t) s = ms_Prune t s"

fun live_step :: "sample_op \<Rightarrow> query_sample list \<Rightarrow> query_sample list" where
  "live_step (OpAppend x) xs = xs @ [x]"
| "live_step (OpPrune t) xs = filter (\<lambda>x. t \<le> qs_RecordedAt x) xs"

lemma ms_step_inv: "ms_inv s \<Longrightarrow> ms_inv (ms_step op s)"
  by (cases op) (simp_all add: ms_Append_inv ms_Prune_inv)

lemma bucket_items: "ms_inv s \<Longrightarrow> map_get [] (ms_samples s) q = filter (\<lambda>x. qs_QueryID x = q) (ms_items s)"
  unfolding ms_items_def ms_inv_def by (intro filter_bucket [symmetric]) auto

lemma ms_step_bucket:
  assumes "ms_inv s" "\<forall>q. map_get [] (ms_samples s) q = filter (\<lambda>x. qs_QueryID x = q) xs"
  shows "map_get [] (ms_samples (ms_step op s)) q = filter (\<lambda>x. qs_QueryID x = q) (live_step op xs)"
proof (cases op)
  case (OpAppend x)
  then show ?thesis using assms(2) by (simp add: ms_Append_def)
next
  case (OpPrune t)
  have "map_get [] (ms_samples (ms_Prune t s)) q =
        filter (\<lambda>x. qs_QueryID x = q) (filter (\<lambda>x. \<not> qs_RecordedAt x < t) (ms_items s))"
    using bucket_items [OF ms_Prune_inv [OF assms(1)]] memory_samples.prune_items [OF assms(1)] by simp
  also have "\<dots> = filter (\<lambda>x. \<not> qs_RecordedAt x < t) (map_get [] (ms_samples s) q)"
    by (simp add: bucket_items [OF assms(1)] conj_commute)
  finally show ?thesis using OpPrune assms(2) by (simp add: not_less conj_commute)
qed

lemma ms_steps_bucket:
  assumes "ms_inv s" "\<forall>q. map_get [] (ms_samples s) q = filter (\<lambda>x. qs_QueryID x = q) xs"
  shows "ms_inv (fold ms_step ops s) \<and>
    map_get [] (ms_samples (fold ms_step ops s)) q = filter (\<lambda>x. qs_QueryID x = q) (fold live_step ops xs)"
  using assms
proof (induction ops arbitrary: s xs)
  case (Cons op ops)
  from Cons.IH [OF ms_step_inv [OF Cons.prems(1), of op], of "live_step op xs"] show ?case
    using ms_step_bucket [OF Cons.prems, of op] by simp
qed simp

text \<open>After any history of appends and retention sweeps, a range query of the in-memory sample
  store answers exactly the live samples of that query id in the closed interval, stably sorted by
  their time.\<close>

theorem memory_range_refines_history:
  "ms_SamplesInRange q lo hi (fold ms_step ops newSampleStore) =
   sort_key qs_RecordedAt
     (filter (\<lambda>x. qs_QueryID x = q \<and> lo \<le> qs_RecordedAt x \<and> qs_RecordedAt x \<le> hi) (fold live_step ops []))"
proof -
  have "map_get [] (ms_samples (fold ms_step ops newSampleStore)) q = filter (\<lambda>x. qs_QueryID x = q) (fold live_step ops [])"
    using ms_steps_bucket [OF ms_inv_new, of "[]"] by (simp add: newSampleStore_def)
  then show ?thesis
    by (simp add: ms_SamplesInRange_def time_simps not_less conj_commute conj_left_commute)
qed

text \<open>The retention loop over the in-memory sample store keeps exactly the samples that are within
  the retention period at every sweep, and never sweeps when the retention is not positive.\<close>

theorem prune_loop_retention:
  assumes "ms_inv s" "retention \<le> max_duration"
  shows "ms_items (runPruneLoop (\<lambda>t s. (None, ms_Prune t s)) retention ticks s) =
         (if retention \<le> 0 then ms_items s
          else filter (\<lambda>x. \<forall>now\<in>set ticks. now - retention \<le> qs_RecordedAt x) (ms_items s))"
  using memory_samples.prune_ticks_items [OF assms(1) _ assms(2), of ticks] by (auto simp: runPruneLoop_def)

lemma find_append: "List.find P (xs @ ys) = (case List.find P xs of None \<Rightarrow> List.find P ys | Some x \<Rightarrow> Some x)"
  by (induction xs) auto

lemma find_None_ids: "List.find (\<lambda>x. ev_ID x = i) evs = None \<longleftrightarrow> i \<notin> ev_ID ` set evs"
  by (auto simp: find_None_iff)

lemma set_fold_set_add: "set (fold set_add xs ks) = set xs \<union> set ks"
  by (induction xs arbitrary: ks) auto

lemma store_All_history: "set (map ev_ID (store_All (fold store_Add evs new_store))) = ev_ID ` set evs"
  using ingester_store.add_all_ids [OF store_inv_new(1), of evs]
  by (simp add: set_fold_set_add del: set_map) (simp add: store_All_def new_store_def)

lemma store_keeps_first:
  "e \<in> set (store_All (fold store_Add evs new_store)) \<Longrightarrow> List.find (\<lambda>x. ev_ID x = ev_ID e) evs = Some e"
proof (induction evs arbitrary: e rule: rev_induct)
  case Nil
  then show ?case by (simp add: store_All_def new_store_def)
next
  case (snoc x evs)
  have inv: "store_inv (fold store_Add evs new_store)" by (rule ingester_store.add_all_ok [OF store_inv_new(1)])
  have ids: "ev_ID ` set (st_events (fold store_Add evs new_store)) = ev_ID ` set evs"
    using store_All_history [of evs] by (simp add: store_All_def)
  show ?case
  proof (cases "e \<in> set (st_events (fold store_Add evs new_store))")
    case True
    then show ?thesis using snoc.IH [of e] by (simp add: store_All_def find_append)
  next
    case False
    then have "e = x" "ev_ID x \<notin> ev_ID ` set evs"
      using snoc.prems by (auto simp: store_All_def store_Add_events [OF inv] ids split: if_splits)
    then show ?thesis using find_None_ids [of "ev_ID x" evs] by (simp add: find_append)
  qed
qed

lemma memory_keeps_last:
  "e \<in> set (me_All (fold me_Add evs newEventStore)) \<Longrightarrow> List.find (\<lambda>x. ev_ID x = ev_ID e) (rev evs) = Some e"
proof (induction evs arbitrary: e rule: rev_induct)
  case Nil
  then show ?case by (simp add: me_All_def newEventStore_def)
next
  case (snoc x evs)
  have inv: "me_inv (fold me_Add evs newEventStore)" by (rule memory_events.add_all_ok [OF me_inv_new])
  have ids: "ev_ID ` set (me_All (fold me_Add evs newEventStore)) = set (me_order (fold me_Add evs newEventStore))"
    using me_All_ids [OF inv] by (metis set_map)
  from snoc show ?case
    using ids by (auto simp: me_All_Add [OF inv] split: if_splits)
qed

text \<open>The ingester's event store and the storage backend's event store hold the same event ids in
  the same order after the same deliveries, but not the same events: the ingester keeps the first
  event delivered under an id, the backend the last.\<close>

theorem event_stores_first_vs_last:
  "map ev_ID (store_All (fold store_Add evs new_store)) = map ev_ID (me_All (fold me_Add evs newEventStore)) \<and>
   (\<forall>e\<in>set (store_All (fold store_Add evs new_store)). List.find (\<lambda>x. ev_ID x = ev_ID e) evs = Some e) \<and>
   (\<forall>e\<in>set (me_All (fold me_Add evs newEventStore)). List.find (\<lambda>x. ev_ID x = ev_ID e) (rev evs) = Some e)"
  using ingester_store.add_all_ids [OF store_inv_new(1), of evs] memory_events.add_all_ids [OF me_inv_new, of evs]
    store_keeps_first memory_keeps_last
  by (simp add: store_All_def new_store_def me_All_def newEventStore_def)

section \<open>Witnesses\<close>

definition sample_at :: "queryid \<Rightarrow> gtime \<Rightarrow> query_sample" where
  "sample_at q t = \<lparr>qs_QueryID = q, qs_QueryText = ''select 1'', qs_Calls = 1, qs_TotalExecTimeMs = 1,
     qs_MeanExecTimeMs = 1, qs_RecordedAt = t, qs_Fingerprint = ''f''\<rparr>"

definition event_of :: "string \<Rightarrow> string \<Rightarrow> deploy_event" where
  "event_of i r = zero_event\<lparr>ev_ID := i, ev_Revision := r\<rparr>"

theorem prune_loop_retention_witness:
  "ms_items (runPruneLoop (\<lambda>t s. (None, ms_Prune t s)) 10 [15, 30] (ms_Append (sample_at 1 25) (ms_Append (sample_at 1 5) newSampleStore)))
     = [sample_at 1 25]"
proof -
  have inv: "ms_inv (ms_Append (sample_at 1 25) (ms_Append (sample_at 1 5) newSampleStore))"
    by (intro ms_Append_inv ms_inv_new)
  from prune_loop_retention [OF inv, of 10 "[15, 30]"] show ?thesis
    by (simp add: max_duration_def ms_items_def ms_Append_def newSampleStore_def sample_at_def)
qed

theorem event_stores_first_vs_last_witness:
  "store_All (fold store_Add [event_of ''a'' ''1'', event_of ''a'' ''2''] new_store) = [event_of ''a'' ''1''] \<and>
   me_All (fold me_Add [event_of ''a'' ''1'', event_of ''a'' ''2''] newEventStore) = [event_of ''a'' ''2'']"
proof -
  let ?evs = "[event_of ''a'' ''1'', event_of ''a'' ''2'']"
  have ids: "map ev_ID (store_All (fold store_Add ?evs new_store)) = [''a'']"
    using ingester_store.add_all_ids [OF store_inv_new(1), of ?evs]
    by (simp add: store_All_def new_store_def event_of_def set_add_def)
  then obtain x where x: "store_All (fold store_Add ?evs new_store) = [x]" "ev_ID x = ''a''" by auto
  from ids obtain y where y: "me_All (fold me_Add ?evs newEventStore) = [y]" "ev_ID y = ''a''"
    using event_stores_first_vs_last [of ?evs] by auto
  from x y event_stores_first_vs_last [of ?evs] show ?thesis by (auto simp: event_of_def)
qed

end
