(* ===== verification/Collector.thy ===== *)
theory Collector
  imports Fingerprint Planner Memory_Store
begin

text \<open>
  The collector (\<open>internal/collector/collector.go\<close>): the in-memory sample history per query id with
  its fingerprint index, retention by binary search, range queries with the fingerprint fallback, the
  scrape cycle, and the bounded plan history. The database is an argument of each scrape: what the
  version query, the statistics query and the planner's statements return. Slice capacities (and so
  the compaction of a pruned slice, which copies it unchanged) have no counterpart in the model.
  Prometheus counters and gauges are numbers of the state.
\<close>

section \<open>State\<close>

definition planHistorySize :: nat where "planHistorySize = 5"
definition defaultMaxQueryTextLen :: int where "defaultMaxQueryTextLen = 200"
definition defaultRetentionDuration :: duration where "defaultRetentionDuration = 180 * 60000000000"
definition fingerprintFallbackMinSamples :: nat where "fingerprintFallbackMinSamples = 5"

record collector_config =
  cc_ScrapeInterval :: duration
  cc_ClusterName :: string
  cc_Namespace :: string
  cc_MaxQueryTextLen :: int
  cc_RetentionDuration :: duration
  cc_CapturePlans :: bool

definition collector_defaults :: "collector_config \<Rightarrow> collector_config" where
  "collector_defaults c =
     (let c1 = (if cc_ScrapeInterval c = 0 then c\<lparr>cc_ScrapeInterval := dur_mul 60 second_d\<rparr> else c);
          c2 = (if cc_MaxQueryTextLen c1 = 0 then c1\<lparr>cc_MaxQueryTextLen := defaultMaxQueryTextLen\<rparr> else c1)
      in (if cc_RetentionDuration c2 = 0 then c2\<lparr>cc_RetentionDuration := defaultRetentionDuration\<rparr> else c2))"

record collector =
  c_cfg :: collector_config
  c_samples :: "(queryid, query_sample list) gomap"
  c_queryFingerprint :: "(queryid, string) gomap"
  c_fingerprintIndex :: "(string, queryid list) gomap"
  c_versionChecked :: bool
  c_legacyTimingColumns :: bool
  c_planHistory :: "(queryid, plan_snapshot list) gomap"
  c_scrapeTotal :: nat
  c_scrapeErrors :: nat
  c_explainSkipped :: nat
  c_meanExecTime :: "(queryid, real) gomap"
  c_callsTotal :: "(queryid, int) gomap"
  c_trackedQueries :: nat
  c_retainedSamples :: nat
  c_lastScrapeTime :: "gtime option"

definition new_collector :: "collector_config \<Rightarrow> collector" where
  "new_collector cfg =
     \<lparr>c_cfg = collector_defaults cfg, c_samples = [], c_queryFingerprint = [], c_fingerprintIndex = [],
      c_versionChecked = False, c_legacyTimingColumns = False, c_planHistory = [], c_scrapeTotal = 0,
      c_scrapeErrors = 0, c_explainSkipped = 0, c_meanExecTime = [], c_callsTotal = [], c_trackedQueries = 0,
      c_retainedSamples = 0, c_lastScrapeTime = None\<rparr>"

section \<open>Fingerprint index\<close>

definition removeFromFingerprintIndexLocked :: "string \<Rightarrow> queryid \<Rightarrow> collector \<Rightarrow> collector" where
  "removeFromFingerprintIndexLocked fp qid c =
     (case map_of (c_fingerprintIndex c) fp of
        None \<Rightarrow> c
      | Some s \<Rightarrow>
          (let s' = set_remove qid s
           in if s' = [] then c\<lparr>c_fingerprintIndex := AList.delete fp (c_fingerprintIndex c)\<rparr>
              else c\<lparr>c_fingerprintIndex := AList.update fp s' (c_fingerprintIndex c)\<rparr>))"

definition indexFingerprintLocked :: "queryid \<Rightarrow> string \<Rightarrow> collector \<Rightarrow> collector" where
  "indexFingerprintLocked qid fp c =
     (let c1 = (case map_of (c_queryFingerprint c) qid of
                  Some oldFP \<Rightarrow> if oldFP \<noteq> fp then removeFromFingerprintIndexLocked oldFP qid c else c
                | None \<Rightarrow> c);
          c2 = c1\<lparr>c_queryFingerprint := AList.update qid fp (c_queryFingerprint c1)\<rparr>
      in c2\<lparr>c_fingerprintIndex := AList.update fp (set_add qid (map_get [] (c_fingerprintIndex c2) fp)) (c_fingerprintIndex c2)\<rparr>)"

definition forgetQueryLocked :: "queryid \<Rightarrow> collector \<Rightarrow> collector" where
  "forgetQueryLocked qid c =
     (case map_of (c_queryFingerprint c) qid of
        None \<Rightarrow> c
      | Some fp \<Rightarrow> removeFromFingerprintIndexLocked fp qid (c\<lparr>c_queryFingerprint := AList.delete qid (c_queryFingerprint c)\<rparr>))"

section \<open>Samples\<close>

definition ellipsis :: string where "ellipsis = [CHR 0xE2, CHR 0x80, CHR 0xA6]"

definition store_sample :: "query_sample \<Rightarrow> collector \<Rightarrow> collector" where
  "store_sample s c =
     indexFingerprintLocked (qs_QueryID s) (qs_Fingerprint s)
       (c\<lparr>c_samples := AList.update (qs_QueryID s) (map_get [] (c_samples c) (qs_QueryID s) @ [s]) (c_samples c)\<rparr>)"

text \<open>The text is cut at the configured number of bytes, which is positive (the code panics on a negative
  one).\<close>

definition truncate_text :: "int \<Rightarrow> string \<Rightarrow> string" where
  "truncate_text n t = (if int (length t) > n then take (nat n) t @ ellipsis else t)"

definition ingestSample :: "gtime \<Rightarrow> queryid \<Rightarrow> string \<Rightarrow> int \<Rightarrow> real \<Rightarrow> real \<Rightarrow> collector \<Rightarrow> collector" where
  "ingestSample now qid txt calls totalExec meanExec c =
     (let txt' = truncate_text (cc_MaxQueryTextLen (c_cfg c)) txt;
          s = \<lparr>qs_QueryID = qid, qs_QueryText = txt', qs_Calls = calls, qs_TotalExecTimeMs = totalExec,
               qs_MeanExecTimeMs = meanExec, qs_RecordedAt = now, qs_Fingerprint = fingerprintQuery txt'\<rparr>;
          c1 = store_sample s c
      in c1\<lparr>c_meanExecTime := AList.update qid meanExec (c_meanExecTime c1),
            c_callsTotal := AList.update qid calls (c_callsTotal c1)\<rparr>)"

definition prune_query :: "gtime \<Rightarrow> queryid \<Rightarrow> collector \<Rightarrow> collector" where
  "prune_query cutoff qid c =
     (let samples = map_get [] (c_samples c) qid;
          idx = sort_search (length samples) (\<lambda>i. \<not> time_before (qs_RecordedAt (samples ! i)) cutoff)
      in if idx = 0 then c
         else if length samples \<le> idx then forgetQueryLocked qid (c\<lparr>c_samples := AList.delete qid (c_samples c)\<rparr>)
         else c\<lparr>c_samples := AList.update qid (drop idx samples) (c_samples c)\<rparr>)"

definition prune_before :: "gtime \<Rightarrow> collector \<Rightarrow> collector" where
  "prune_before cutoff c = fold (prune_query cutoff) (map_keys (c_samples c)) c"

definition pruneLocked :: "gtime \<Rightarrow> collector \<Rightarrow> collector" where
  "pruneLocked now c = prune_before (time_add now (dur_neg (cc_RetentionDuration (c_cfg c)))) c"

definition updateRetentionMetricsLocked :: "collector \<Rightarrow> collector" where
  "updateRetentionMetricsLocked c =
     c\<lparr>c_trackedQueries := length (c_samples c),
       c_retainedSamples := foldl (\<lambda>t p. t + length (snd p)) 0 (c_samples c)\<rparr>"

definition pruneAndUpdateMetrics :: "gtime \<Rightarrow> collector \<Rightarrow> collector" where
  "pruneAndUpdateMetrics now c = updateRetentionMetricsLocked (pruneLocked now c)"

definition with_fingerprint :: "query_sample \<Rightarrow> query_sample" where
  "with_fingerprint s = (if qs_Fingerprint s = [] then s\<lparr>qs_Fingerprint := fingerprintQuery (qs_QueryText s)\<rparr> else s)"

definition sort_buckets :: "collector \<Rightarrow> collector" where
  "sort_buckets c = c\<lparr>c_samples := map (\<lambda>(q, ss). (q, sort_key qs_RecordedAt ss)) (c_samples c)\<rparr>"

definition collector_Backfill :: "gtime \<Rightarrow> query_sample list \<Rightarrow> collector \<Rightarrow> collector" where
  "collector_Backfill now samples c =
     (if samples = [] then c
      else updateRetentionMetricsLocked
             (pruneLocked now (sort_buckets (fold (\<lambda>s. store_sample (with_fingerprint s)) samples c))))"

section \<open>Queries\<close>

definition filterRange :: "query_sample list \<Rightarrow> gtime \<Rightarrow> gtime \<Rightarrow> query_sample list" where
  "filterRange ss lo hi = filter (\<lambda>s. \<not> time_before (qs_RecordedAt s) lo \<and> \<not> time_after (qs_RecordedAt s) hi) ss"

definition collector_SamplesInRange :: "queryid \<Rightarrow> gtime \<Rightarrow> gtime \<Rightarrow> collector \<Rightarrow> query_sample list" where
  "collector_SamplesInRange qid lo hi c =
     (let direct = filterRange (map_get [] (c_samples c) qid) lo hi
      in if fingerprintFallbackMinSamples \<le> length direct then direct
         else (case map_of (c_queryFingerprint c) qid of
                 None \<Rightarrow> direct
               | Some fp \<Rightarrow>
                   (let siblings = map_get [] (c_fingerprintIndex c) fp
                    in if length siblings \<le> 1 then direct
                       else
                         let merged = direct @ concat (map (\<lambda>sib. filterRange (map_get [] (c_samples c) sib) lo hi)
                                                          (filter (\<lambda>sib. sib \<noteq> qid) siblings))
                         in if length merged \<le> length direct then direct else sort_key qs_RecordedAt merged)))"

definition collector_AllQueryIDs :: "collector \<Rightarrow> queryid list" where
  "collector_AllQueryIDs c = map_keys (c_samples c)"

definition lastScrapeTime :: "collector \<Rightarrow> gtime" where
  "lastScrapeTime c = (case c_lastScrapeTime c of None \<Rightarrow> 0 | Some t \<Rightarrow> t)"

section \<open>Plan history\<close>

definition appendPlanSnapshot :: "plan_snapshot \<Rightarrow> collector \<Rightarrow> collector" where
  "appendPlanSnapshot snap c =
     (let hist = map_get [] (c_planHistory c) (ps_QueryID snap);
          hist' = (if planHistorySize \<le> length hist then tl hist @ [snap] else hist @ [snap])
      in c\<lparr>c_planHistory := AList.update (ps_QueryID snap) hist' (c_planHistory c)\<rparr>)"

fun capturePlans :: "(queryid \<Rightarrow> string \<Rightarrow> planner_error + plan_snapshot) \<Rightarrow> (queryid \<times> string) list \<Rightarrow> collector \<Rightarrow> collector" where
  "capturePlans capture [] c = c"
| "capturePlans capture ((q, txt) # tracked) c =
     (case capture q txt of
        Inl err \<Rightarrow> if is_unsupported_version err then c else capturePlans capture tracked c
      | Inr snap \<Rightarrow> capturePlans capture tracked (appendPlanSnapshot snap c))"

record around =
  ar_before :: "plan_snapshot option"
  ar_after :: "plan_snapshot option"
  ar_mostRecent :: "plan_snapshot option"

definition around_step :: "gtime \<Rightarrow> plan_snapshot \<Rightarrow> around \<Rightarrow> around" where
  "around_step t s a =
     (let a1 = (case ar_mostRecent a of None \<Rightarrow> a\<lparr>ar_mostRecent := Some s\<rparr>
                | Some m \<Rightarrow> if time_after (ps_RecordedAt s) (ps_RecordedAt m) then a\<lparr>ar_mostRecent := Some s\<rparr> else a)
      in if \<not> time_after (ps_RecordedAt s) t then
           (case ar_before a1 of None \<Rightarrow> a1\<lparr>ar_before := Some s\<rparr>
            | Some b \<Rightarrow> if time_after (ps_RecordedAt s) (ps_RecordedAt b) then a1\<lparr>ar_before := Some s\<rparr> else a1)
         else
           (case ar_after a1 of None \<Rightarrow> a1\<lparr>ar_after := Some s\<rparr>
            | Some b \<Rightarrow> if time_before (ps_RecordedAt s) (ps_RecordedAt b) then a1\<lparr>ar_after := Some s\<rparr> else a1))"

definition plansAround :: "queryid \<Rightarrow> gtime \<Rightarrow> collector \<Rightarrow> plan_snapshot option \<times> plan_snapshot option" where
  "plansAround q t c =
     (let a = fold (around_step t) (map_get [] (c_planHistory c) q) \<lparr>ar_before = None, ar_after = None, ar_mostRecent = None\<rparr>
      in (ar_before a, (case ar_after a of None \<Rightarrow> ar_mostRecent a | Some s \<Rightarrow> Some s)))"

section \<open>Scrape cycle\<close>

record stat_row =
  row_queryid :: queryid
  row_query :: string
  row_calls :: int
  row_total :: real
  row_mean :: real

text \<open>What the database answers during one scrape: the rows of the statistics query (each a value or a
  scan error) followed by the final error of the row iteration, next to what the planner asks.\<close>

record collector_db = pg_db +
  cdb_ping :: "string option"
  cdb_has_pgss :: "string + bool"
  cdb_rows :: "string \<Rightarrow> string + ((string + stat_row) list \<times> string option)"

definition collector_Ping :: "collector_db \<Rightarrow> string option" where
  "collector_Ping db =
     (case cdb_ping db of
        Some err \<Rightarrow> Some (''collector: ping: '' @ err)
      | None \<Rightarrow>
          (case cdb_has_pgss db of
             Inl err \<Rightarrow> Some (''collector: check pg_stat_statements extension: '' @ err)
           | Inr False \<Rightarrow> Some ''collector: pg_stat_statements extension is not installed in this database (run: CREATE EXTENSION pg_stat_statements)''
           | Inr True \<Rightarrow> None))"

definition resolveColumns :: "collector_db \<Rightarrow> collector \<Rightarrow> collector" where
  "resolveColumns db c =
     (if c_versionChecked c then c
      else (case db_server_version_num db of
              Inl err \<Rightarrow> c\<lparr>c_versionChecked := True\<rparr>
            | Inr n \<Rightarrow> c\<lparr>c_versionChecked := True, c_legacyTimingColumns := (go_div n 10000 < 13 \<or> c_legacyTimingColumns c)\<rparr>))"

definition lf :: string where "lf = [CHR 10]"

definition queryStatStatements :: "collector \<Rightarrow> string" where
  "queryStatStatements c =
     (let execCol = (if c_legacyTimingColumns c then ''total_time'' else ''total_exec_time'');
          meanCol = (if c_legacyTimingColumns c then ''mean_time'' else ''mean_exec_time'');
          n = (if cc_MaxQueryTextLen (c_cfg c) = 0 then defaultMaxQueryTextLen else cc_MaxQueryTextLen (c_cfg c))
      in lf @ ''SELECT'' @ lf @
         ''    queryid,'' @ lf @
         ''    LEFT(query, '' @ format_int (n + 1) @ '')           AS query,'' @ lf @
         ''    calls,'' @ lf @
         ''    '' @ execCol @ ''                        AS total_exec_time,'' @ lf @
         ''    '' @ meanCol @ ''                        AS mean_exec_time'' @ lf @
         ''FROM pg_stat_statements'' @ lf @
         ''WHERE query NOT LIKE '' @ [CHR 0x27] @ ''%pg_stat_statements%'' @ [CHR 0x27] @ lf @
         ''ORDER BY '' @ execCol @ '' DESC'' @ lf @
         ''LIMIT 500'' @ lf)"

definition isExplainStatement :: "string \<Rightarrow> bool" where
  "isExplainStatement t = has_prefix (to_upper (trim_space t)) ''EXPLAIN''"

fun scrape_rows :: "gtime \<Rightarrow> (string + stat_row) list \<Rightarrow> (queryid \<times> string) list \<Rightarrow> collector \<Rightarrow>
    (string + (queryid \<times> string) list) \<times> collector" where
  "scrape_rows now [] tracked c = (Inr tracked, c)"
| "scrape_rows now (Inl err # rows) tracked c = (Inl (''scan row: '' @ err), c)"
| "scrape_rows now (Inr r # rows) tracked c =
     (if isExplainStatement (row_query r) then
        scrape_rows now rows tracked (c\<lparr>c_explainSkipped := c_explainSkipped c + 1\<rparr>)
      else
        scrape_rows now rows
          (if cc_CapturePlans (c_cfg c) then tracked @ [(row_queryid r, row_query r)] else tracked)
          (ingestSample now (row_queryid r) (row_query r) (row_calls r) (row_total r) (row_mean r) c))"

text \<open>The time of the scrape is read once; \<open>planNow\<close> gives the time at which the plan of each query is captured.\<close>

definition scrape :: "json_parser \<Rightarrow> collector_db \<Rightarrow> gtime \<Rightarrow> (queryid \<Rightarrow> gtime) \<Rightarrow> collector \<Rightarrow> string option \<times> collector" where
  "scrape parse db now planNow c0 =
     (let c = resolveColumns db c0
      in case cdb_rows db (queryStatStatements c) of
           Inl err \<Rightarrow> (Some (''query pg_stat_statements: '' @ err), c)
         | Inr (rows, rowsErr) \<Rightarrow>
             (case scrape_rows now rows [] (c\<lparr>c_scrapeTotal := c_scrapeTotal c + 1\<rparr>) of
                (Inl err, c1) \<Rightarrow> (Some err, c1)
              | (Inr tracked, c1) \<Rightarrow>
                  (case rowsErr of
                     Some err \<Rightarrow> (Some err, c1)
                   | None \<Rightarrow>
                       (let c2 = pruneAndUpdateMetrics now (c1\<lparr>c_lastScrapeTime := Some now\<rparr>)
                        in (None, if cc_CapturePlans (c_cfg c2)
                                  then capturePlans (\<lambda>q. capturePlan parse (pg_db.truncate db) (planNow q) q) tracked c2 else c2)))))"

text \<open>\<open>Run\<close>: one scrape per firing of the ticker, until the context is cancelled.\<close>

fun collector_Run :: "json_parser \<Rightarrow> (collector_db \<times> gtime \<times> (queryid \<Rightarrow> gtime)) list \<Rightarrow> collector \<Rightarrow> collector" where
  "collector_Run parse [] c = c"
| "collector_Run parse ((db, now, planNow) # ticks) c =
     (case scrape parse db now planNow c of
        (None, c') \<Rightarrow> collector_Run parse ticks c'
      | (Some err, c') \<Rightarrow> collector_Run parse ticks (c'\<lparr>c_scrapeErrors := c_scrapeErrors c' + 1\<rparr>))"

section \<open>Representation invariant\<close>

text \<open>The reverse index holds, under each fingerprint, exactly the query ids whose current fingerprint it
  is, and no empty entries.\<close>

definition index_ok :: "(queryid \<Rightarrow> string option) \<Rightarrow> (string, queryid list) gomap \<Rightarrow> bool" where
  "index_ok f fi \<longleftrightarrow> distinct (map fst fi) \<and> (\<forall>fp. set (map_get [] fi fp) = {q. f q = Some fp}) \<and>
     (\<forall>(fp, qs)\<in>set fi. qs \<noteq> [] \<and> distinct qs)"

definition buckets_ok :: "(queryid, query_sample list) gomap \<Rightarrow> bool" where
  "buckets_ok m \<longleftrightarrow> distinct (map fst m) \<and> (\<forall>(q, ss)\<in>set m. ss \<noteq> [] \<and> (\<forall>s\<in>set ss. qs_QueryID s = q))"

definition buckets_sorted :: "(queryid, query_sample list) gomap \<Rightarrow> bool" where
  "buckets_sorted m \<longleftrightarrow> (\<forall>(q, ss)\<in>set m. sorted_by qs_RecordedAt ss)"

definition plans_ok :: "(queryid, plan_snapshot list) gomap \<Rightarrow> bool" where
  "plans_ok m \<longleftrightarrow> distinct (map fst m) \<and> (\<forall>(q, h)\<in>set m. length h \<le> planHistorySize)"

definition collector_pre :: "collector \<Rightarrow> bool" where
  "collector_pre c \<longleftrightarrow> buckets_ok (c_samples c) \<and> distinct (map fst (c_queryFingerprint c)) \<and>
     index_ok (map_of (c_queryFingerprint c)) (c_fingerprintIndex c) \<and>
     dom (map_of (c_queryFingerprint c)) = dom (map_of (c_samples c)) \<and> plans_ok (c_planHistory c)"

definition collector_inv :: "collector \<Rightarrow> bool" where
  "collector_inv c \<longleftrightarrow> collector_pre c \<and> buckets_sorted (c_samples c)"

definition recorded_by :: "gtime \<Rightarrow> collector \<Rightarrow> bool" where
  "recorded_by now c \<longleftrightarrow> (\<forall>(q, ss)\<in>set (c_samples c). \<forall>s\<in>set ss. qs_RecordedAt s \<le> now)"

lemma set_update_subset: "set (AList.update k v m) \<subseteq> insert (k, v) (set m)"
  by (induction m) auto

lemma set_delete_distinct: "set (AList.delete k m) = {p \<in> set m. fst p \<noteq> k}"
  by (induction m) auto

lemma distinct_keys_delete: "distinct (map fst m) \<Longrightarrow> distinct (map fst (AList.delete k m))"
  by (rule distinct_delete)

lemma distinct_keys_update: "distinct (map fst m) \<Longrightarrow> distinct (map fst (AList.update k v m))"
  by (rule distinct_update)

lemmas keys_distinct = distinct_keys_delete distinct_keys_update

definition fi_remove :: "string \<Rightarrow> queryid \<Rightarrow> (string, queryid list) gomap \<Rightarrow> (string, queryid list) gomap" where
  "fi_remove fp q fi = (case map_of fi fp of None \<Rightarrow> fi
     | Some s \<Rightarrow> if set_remove q s = [] then AList.delete fp fi else AList.update fp (set_remove q s) fi)"

lemma removeFromFingerprintIndexLocked_eq:
  "removeFromFingerprintIndexLocked fp q c = c\<lparr>c_fingerprintIndex := fi_remove fp q (c_fingerprintIndex c)\<rparr>"
  by (auto simp: removeFromFingerprintIndexLocked_def fi_remove_def Let_def split: option.splits)

lemma map_get_fi_remove: "map_get [] (fi_remove fp q fi) f = (if f = fp then set_remove q (map_get [] fi fp) else map_get [] fi f)"
  by (auto simp: fi_remove_def map_get_def map_simps set_remove_def split: option.splits)

lemma index_okD: "index_ok f fi \<Longrightarrow> (g, qs) \<in> set fi \<Longrightarrow> qs \<noteq> [] \<and> distinct qs"
  unfolding index_ok_def by (elim conjE) (drule (1) bspec, simp)

lemma index_ok_remove:
  assumes "index_ok f fi" "f q = Some fp"
  shows "index_ok (f(q := None)) (fi_remove fp q fi)"
proof -
  have "distinct (map fst (fi_remove fp q fi))"
    using assms(1) by (auto simp: fi_remove_def index_ok_def keys_distinct split: option.splits)
  moreover have "qs \<noteq> [] \<and> distinct qs" if "(g, qs) \<in> set (fi_remove fp q fi)" for g qs
  proof (cases "map_of fi fp")
    case None
    then show ?thesis using that assms(1) by (auto simp: fi_remove_def index_ok_def)
  next
    case (Some s)
    then have "distinct s" using assms(1) by (auto simp: index_ok_def dest: map_of_SomeD)
    then show ?thesis using that Some assms(1) set_update_subset [of fp "set_remove q s" fi]
      by (auto simp: fi_remove_def index_ok_def set_delete_distinct split: if_splits)
  qed
  moreover have "set (map_get [] (fi_remove fp q fi) g) = {p. (f(q := None)) p = Some g}" for g
    using assms by (auto simp: map_get_fi_remove index_ok_def split: if_splits)
  ultimately show ?thesis by (auto simp: index_ok_def)
qed

lemma index_ok_add:
  assumes "index_ok f fi" "f q = None \<or> f q = Some fp"
  shows "index_ok (f(q \<mapsto> fp)) (AList.update fp (set_add q (map_get [] fi fp)) fi)"
proof -
  have "distinct (map_get [] fi fp)"
    using assms(1) by (auto simp: index_ok_def map_get_def split: option.splits dest: map_of_SomeD)
  then have new: "set_add q (map_get [] fi fp) \<noteq> [] \<and> distinct (set_add q (map_get [] fi fp))"
    by (auto simp: set_add_def)
  have "\<forall>(g, qs)\<in>set (AList.update fp (set_add q (map_get [] fi fp)) fi). qs \<noteq> [] \<and> distinct qs"
  proof (clarify)
    fix g qs assume "(g, qs) \<in> set (AList.update fp (set_add q (map_get [] fi fp)) fi)"
    then have "qs = set_add q (map_get [] fi fp) \<or> (g, qs) \<in> set fi"
      using set_update_subset [of fp "set_add q (map_get [] fi fp)" fi] by auto
    then show "qs \<noteq> [] \<and> distinct qs" using new index_okD [OF assms(1)] by metis
  qed
  moreover have "set (map_get [] (AList.update fp (set_add q (map_get [] fi fp)) fi) g) = {p. (f(q \<mapsto> fp)) p = Some g}" for g
  proof -
    have "set (map_get [] fi g) = {p. f p = Some g}" using assms(1) by (simp add: index_ok_def)
    then show ?thesis using assms(2) by auto
  qed
  ultimately show ?thesis using assms(1) by (simp add: index_ok_def keys_distinct)
qed

lemma indexFingerprintLocked_fields [simp]:
  "c_samples (indexFingerprintLocked q fp c) = c_samples c" "c_cfg (indexFingerprintLocked q fp c) = c_cfg c"
  "c_planHistory (indexFingerprintLocked q fp c) = c_planHistory c"
  "c_queryFingerprint (indexFingerprintLocked q fp c) = AList.update q fp (c_queryFingerprint c)"
  by (auto simp: indexFingerprintLocked_def Let_def removeFromFingerprintIndexLocked_eq split: option.splits)

lemma indexFingerprintLocked_index:
  assumes "index_ok (map_of (c_queryFingerprint c)) (c_fingerprintIndex c)"
  shows "index_ok (map_of (AList.update q fp (c_queryFingerprint c))) (c_fingerprintIndex (indexFingerprintLocked q fp c))"
proof -
  let ?f = "map_of (c_queryFingerprint c)" let ?fi = "c_fingerprintIndex c"
  show ?thesis
  proof (cases "\<exists>old. ?f q = Some old \<and> old \<noteq> fp")
    case True
    then obtain old where old: "?f q = Some old" "old \<noteq> fp" by blast
    from index_ok_add [OF index_ok_remove [OF assms old(1)], of q fp]
    show ?thesis using old
      by (simp add: indexFingerprintLocked_def Let_def removeFromFingerprintIndexLocked_eq map_simps)
  next
    case False
    then have "?f q = None \<or> ?f q = Some fp" by (cases "?f q") auto
    from index_ok_add [OF assms this] show ?thesis using False
      by (auto simp: indexFingerprintLocked_def Let_def map_simps split: option.splits)
  qed
qed

lemma buckets_ok_get:
  assumes "buckets_ok m" "s \<in> set (map_get [] m q)"
  shows "qs_QueryID s = q"
  using assms by (cases "map_of m q") (fastforce simp: buckets_ok_def map_get_def dest: map_of_SomeD)+

lemma buckets_sorted_get:
  assumes "buckets_sorted m"
  shows "sorted_by qs_RecordedAt (map_get [] m q)"
  using assms by (cases "map_of m q") (fastforce simp: buckets_sorted_def map_get_def dest: map_of_SomeD)+

lemma buckets_ok_append:
  assumes "buckets_ok m" "qs_QueryID s = q"
  shows "buckets_ok (AList.update q (map_get [] m q @ [s]) m)"
  using assms set_update_subset [of q "map_get [] m q @ [s]" m] buckets_ok_get [OF assms(1), of _ q]
  by (fastforce simp: buckets_ok_def keys_distinct)

lemma store_sample_pre: "collector_pre c \<Longrightarrow> collector_pre (store_sample s c)"
  using indexFingerprintLocked_index [of "c\<lparr>c_samples := _\<rparr>"]
  by (auto simp: collector_pre_def store_sample_def buckets_ok_append keys_distinct map_simps)

lemma store_sample_sorted:
  assumes "buckets_sorted (c_samples c)" "recorded_by (qs_RecordedAt s) c"
  shows "buckets_sorted (c_samples (store_sample s c))"
proof -
  let ?b = "map_get [] (c_samples c) (qs_QueryID s)"
  have "\<forall>x\<in>set ?b. qs_RecordedAt x \<le> qs_RecordedAt s"
    using assms(2) by (cases "map_of (c_samples c) (qs_QueryID s)")
      (fastforce simp: recorded_by_def map_get_def dest: map_of_SomeD)+
  then have "sorted_by qs_RecordedAt (?b @ [s])"
    using buckets_sorted_get [OF assms(1), of "qs_QueryID s"] by (simp add: sorted_by_append) (simp add: sorted_by_def)
  then show ?thesis using assms(1) set_update_subset [of "qs_QueryID s" "?b @ [s]" "c_samples c"]
    by (fastforce simp: buckets_sorted_def store_sample_def)
qed

lemma store_sample_recorded:
  assumes "recorded_by now c" "qs_RecordedAt s \<le> now"
  shows "recorded_by now (store_sample s c)"
proof -
  let ?b = "map_get [] (c_samples c) (qs_QueryID s)"
  have "\<forall>x\<in>set ?b. qs_RecordedAt x \<le> now"
    using assms(1) by (cases "map_of (c_samples c) (qs_QueryID s)")
      (fastforce simp: recorded_by_def map_get_def dest: map_of_SomeD)+
  then show ?thesis using assms set_update_subset [of "qs_QueryID s" "?b @ [s]" "c_samples c"]
    by (fastforce simp: recorded_by_def store_sample_def)
qed

section \<open>Retention\<close>

text \<open>Reference: the samples of the query ids in \<open>K\<close> are filtered one by one, and an emptied entry is
  dropped.\<close>

definition keep_samples :: "(query_sample \<Rightarrow> bool) \<Rightarrow> queryid set \<Rightarrow> (queryid, query_sample list) gomap \<Rightarrow> (queryid, query_sample list) gomap" where
  "keep_samples P K m =
     concat (map (\<lambda>(k, ss). if k \<in> K then (let kept = filter P ss in if kept = [] then [] else [(k, kept)]) else [(k, ss)]) m)"

lemma keep_samples_Cons:
  "keep_samples P K ((k, ss) # m) =
     (if k \<in> K then (if filter P ss = [] then [] else [(k, filter P ss)]) else [(k, ss)]) @ keep_samples P K m"
  by (simp add: keep_samples_def Let_def)

lemma keep_samples_Nil [simp]: "keep_samples P K [] = []"
  by (simp add: keep_samples_def)

lemma keep_samples_other: "q \<notin> fst ` set m \<Longrightarrow> keep_samples P {q} m = m"
  by (induction m) (auto simp: keep_samples_Cons)

lemma keep_samples_delete:
  "distinct (map fst m) \<Longrightarrow> filter P (map_get [] m q) = [] \<Longrightarrow> AList.delete q m = keep_samples P {q} m"
proof (induction m)
  case (Cons p m)
  obtain k ss where p: "p = (k, ss)" by (cases p)
  show ?case
  proof (cases "k = q")
    case True
    then have "q \<notin> fst ` set m" using Cons.prems(1) by (simp add: p)
    then show ?thesis using True Cons.prems(2) by (simp add: p keep_samples_Cons keep_samples_other delete_id)
  next
    case False
    then show ?thesis using Cons by (simp add: p keep_samples_Cons)
  qed
qed simp

lemma keep_samples_update:
  "distinct (map fst m) \<Longrightarrow> q \<in> fst ` set m \<Longrightarrow> filter P (map_get [] m q) \<noteq> [] \<Longrightarrow>
     AList.update q (filter P (map_get [] m q)) m = keep_samples P {q} m"
proof (induction m)
  case (Cons p m)
  obtain k ss where p: "p = (k, ss)" by (cases p)
  show ?case
  proof (cases "k = q")
    case True
    then have "q \<notin> fst ` set m" using Cons.prems(1) by (simp add: p)
    then show ?thesis using True Cons.prems(3) by (simp add: p keep_samples_Cons keep_samples_other)
  next
    case False
    then show ?thesis using Cons by (simp add: p keep_samples_Cons)
  qed
qed simp

lemma keep_samples_insert: "keep_samples P {q} (keep_samples P K m) = keep_samples P (insert q K) m"
proof (induction m)
  case (Cons p m)
  obtain k ss where p: "p = (k, ss)" by (cases p)
  have app: "keep_samples P {q} (xs @ ys) = keep_samples P {q} xs @ keep_samples P {q} ys" for xs ys
    by (simp add: keep_samples_def)
  show ?case using Cons by (auto simp: p keep_samples_Cons app)
qed simp

lemma keep_samples_empty: "keep_samples P {} m = m"
  by (induction m) (auto simp: keep_samples_Cons)

lemma keep_samples_mem:
  "(k, ss') \<in> set (keep_samples P K m) \<longleftrightarrow>
     (\<exists>ss. (k, ss) \<in> set m \<and> (if k \<in> K then ss' = filter P ss \<and> ss' \<noteq> [] else ss' = ss))"
proof (induction m)
  case (Cons p m)
  then show ?case by (cases p) (cases "k \<in> K"; auto simp: keep_samples_Cons split: if_splits)
qed simp

lemma keep_samples_distinct: "distinct (map fst m) \<Longrightarrow> distinct (map fst (keep_samples P K m))"
proof (induction m)
  case (Cons p m)
  have "fst ` set (keep_samples P K m) \<subseteq> fst ` set m"
  proof
    fix k assume "k \<in> fst ` set (keep_samples P K m)"
    then obtain ss' where "(k, ss') \<in> set (keep_samples P K m)" by auto
    then show "k \<in> fst ` set m" using keep_samples_mem [of k ss'] by force
  qed
  then show ?case using Cons by (cases p) (auto simp: keep_samples_Cons)
qed simp

lemma keep_samples_items:
  "fst ` set m \<subseteq> K \<Longrightarrow> concat (map snd (keep_samples P K m)) = filter P (concat (map snd m))"
  by (induction m) (auto simp: keep_samples_Cons filter_empty_conv)

abbreviation fresh_since :: "gtime \<Rightarrow> query_sample \<Rightarrow> bool" where
  "fresh_since t s \<equiv> \<not> qs_RecordedAt s < t"

lemma prune_query_samples:
  assumes "collector_inv c"
  shows "c_samples (prune_query t q c) = keep_samples (fresh_since t) {q} (c_samples c)"
proof -
  let ?m = "c_samples c" let ?b = "map_get [] ?m q"
  let ?idx = "sort_search (length ?b) (\<lambda>i. \<not> qs_RecordedAt (?b ! i) < t)"
  have inv: "distinct (map fst ?m)" "buckets_sorted ?m" "buckets_ok ?m"
    using assms by (auto simp: collector_inv_def collector_pre_def buckets_ok_def)
  note mono = sorted_by_mono_lower(1) [OF buckets_sorted_get [OF inv(2), of q], of t]
  note kept = filter_by_search [OF mono]
  have le: "?idx \<le> length ?b" using sort_search_takeWhile [OF mono] length_takeWhile_le by metis
  have fg: "c_samples (forgetQueryLocked q c') = c_samples c'" for c'
    by (simp add: forgetQueryLocked_def removeFromFingerprintIndexLocked_eq split: option.splits)
  consider (none) "?idx = 0" | (all) "?idx \<noteq> 0" "length ?b \<le> ?idx" | (some) "?idx \<noteq> 0" "?idx < length ?b" by linarith
  then show ?thesis
  proof cases
    case none
    have "keep_samples (fresh_since t) {q} ?m = ?m"
    proof (cases "q \<in> fst ` set ?m")
      case True
      then obtain ss where ss: "(q, ss) \<in> set ?m" by auto
      then have "?b = ss" "ss \<noteq> []" using inv by (auto simp: map_get_in buckets_ok_def)
      moreover have "filter (fresh_since t) ?b = ?b" using kept(1) none by simp
      ultimately have "AList.update q ss ?m = keep_samples (fresh_since t) {q} ?m"
        using keep_samples_update [OF inv(1) True, of "fresh_since t"] by simp
      moreover have "AList.update q ss ?m = ?m" using update_same [OF inv(1) ss] .
      ultimately show ?thesis by simp
    qed (rule keep_samples_other)
    then show ?thesis using none by (simp add: prune_query_def Let_def time_simps)
  next
    case all
    then have "filter (fresh_since t) ?b = []" using kept(1) le by simp
    then show ?thesis using all keep_samples_delete [OF inv(1)]
      by (simp add: prune_query_def Let_def time_simps fg)
  next
    case some
    then have "filter (fresh_since t) ?b \<noteq> []" "?b \<noteq> []" using kept(1) by (metis drop_eq_Nil not_less, auto)
    moreover have "q \<in> fst ` set ?m" using \<open>?b \<noteq> []\<close> map_get_notin by metis
    ultimately show ?thesis using some keep_samples_update [OF inv(1), of q "fresh_since t"] kept(1)
      by (simp add: prune_query_def Let_def time_simps)
  qed
qed

lemma forgetQueryLocked_pre:
  assumes "collector_pre c"
  shows "collector_pre (forgetQueryLocked q (c\<lparr>c_samples := AList.delete q (c_samples c)\<rparr>))"
proof (cases "map_of (c_queryFingerprint c) q")
  case None
  then have "q \<notin> dom (map_of (c_samples c))" using assms by (auto simp: collector_pre_def)
  then have "AList.delete q (c_samples c) = c_samples c" by (simp add: delete_id dom_map_of_conv_image_fst)
  then show ?thesis using assms None by (simp add: forgetQueryLocked_def)
next
  case (Some fp)
  have "buckets_ok (AList.delete q (c_samples c))"
    using assms by (auto simp: collector_pre_def buckets_ok_def keys_distinct set_delete_distinct)
  moreover have "index_ok (map_of (AList.delete q (c_queryFingerprint c))) (fi_remove fp q (c_fingerprintIndex c))"
    using index_ok_remove [of "map_of (c_queryFingerprint c)" "c_fingerprintIndex c" q fp] assms Some
    by (simp add: collector_pre_def map_simps)
  ultimately show ?thesis using assms Some
    by (simp add: forgetQueryLocked_def removeFromFingerprintIndexLocked_eq collector_pre_def keys_distinct map_simps)
qed

lemma prune_query_cases:
  obtains "prune_query t q c = c"
  | "prune_query t q c = forgetQueryLocked q (c\<lparr>c_samples := AList.delete q (c_samples c)\<rparr>)"
  | i where "prune_query t q c = c\<lparr>c_samples := AList.update q (drop i (map_get [] (c_samples c) q)) (c_samples c)\<rparr>"
      "i < length (map_get [] (c_samples c) q)"
  by (auto simp: prune_query_def Let_def split: if_splits) (metis not_le)

lemma drop_bucket_pre:
  assumes "collector_pre c" "i < length (map_get [] (c_samples c) q)"
  shows "collector_pre (c\<lparr>c_samples := AList.update q (drop i (map_get [] (c_samples c) q)) (c_samples c)\<rparr>)"
proof -
  let ?m = "c_samples c" let ?v = "drop i (map_get [] ?m q)"
  have b: "buckets_ok ?m" using assms(1) by (simp add: collector_pre_def)
  have "q \<in> fst ` set ?m" using assms(2) map_get_notin [of q ?m "[]"] by (metis less_zeroE list.size(3))
  then have dom: "dom (map_of (AList.update q ?v ?m)) = dom (map_of ?m)"
    by (simp add: map_simps insert_absorb dom_map_of_conv_image_fst)
  have "\<forall>s\<in>set ?v. qs_QueryID s = q" using buckets_ok_get [OF b] by (meson in_set_dropD)
  moreover have "?v \<noteq> []" using assms(2) by simp
  ultimately have "buckets_ok (AList.update q ?v ?m)"
    using b set_update_subset [of q ?v ?m] by (fastforce simp: buckets_ok_def keys_distinct)
  then show ?thesis using assms(1) dom by (simp add: collector_pre_def)
qed

lemma prune_query_pre: "collector_pre c \<Longrightarrow> collector_pre (prune_query t q c)"
  by (rule prune_query_cases [of t q c]) (simp_all add: forgetQueryLocked_pre drop_bucket_pre)

lemma keep_samples_sorted: "buckets_sorted m \<Longrightarrow> buckets_sorted (keep_samples P K m)"
  unfolding buckets_sorted_def
proof (clarify)
  fix k ss' assume "\<forall>(q, ss)\<in>set m. sorted_by qs_RecordedAt ss" "(k, ss') \<in> set (keep_samples P K m)"
  then show "sorted_by qs_RecordedAt ss'" by (auto simp: keep_samples_mem split: if_splits)
qed

lemma prune_query_inv: "collector_inv c \<Longrightarrow> collector_inv (prune_query t q c)"
  using prune_query_samples [of c t q] by (simp add: collector_inv_def prune_query_pre keep_samples_sorted)

lemma prune_query_cfg [simp]: "c_cfg (prune_query t q c) = c_cfg c"
  by (auto simp: prune_query_def Let_def forgetQueryLocked_def removeFromFingerprintIndexLocked_eq split: option.splits)

lemma prune_fold:
  assumes "collector_inv c"
  shows "collector_inv (fold (prune_query t) qs c) \<and>
    c_samples (fold (prune_query t) qs c) = keep_samples (fresh_since t) (set qs) (c_samples c)"
proof (induction qs rule: rev_induct)
  case Nil
  then show ?case using assms by (simp add: keep_samples_empty)
next
  case (snoc q qs)
  then show ?case using prune_query_samples [of "fold (prune_query t) qs c" t q]
    by (simp add: prune_query_inv keep_samples_insert)
qed

definition collector_items :: "collector \<Rightarrow> query_sample list" where
  "collector_items c = concat (map snd (c_samples c))"

interpretation collector_pruner: pruner "\<lambda>t. t" collector_inv prune_before collector_items qs_RecordedAt
proof unfold_locales
  fix c t assume inv: "collector_inv c"
  show "collector_inv (prune_before t c)" using prune_fold [OF inv] by (simp add: prune_before_def)
  have "fst ` set (c_samples c) \<subseteq> set (map_keys (c_samples c))" by (simp add: dom_map_of_conv_image_fst)
  then show "collector_items (prune_before t c) = filter (\<lambda>x. \<not> qs_RecordedAt x < t) (collector_items c)"
    using prune_fold [OF inv, of t "map_keys (c_samples c)"]
    by (simp add: prune_before_def collector_items_def keep_samples_items)
qed

lemma pruneLocked_inv: "collector_inv c \<Longrightarrow> collector_inv (pruneLocked now c)"
  by (simp add: pruneLocked_def collector_pruner.prune_ok)

lemma recorded_by_items: "recorded_by now c \<longleftrightarrow> (\<forall>s\<in>set (collector_items c). qs_RecordedAt s \<le> now)"
  by (force simp: recorded_by_def collector_items_def)

lemma recorded_by_mono: "recorded_by t c \<Longrightarrow> t \<le> u \<Longrightarrow> recorded_by u c"
  by (fastforce simp: recorded_by_items)

lemma pruneLocked_recorded: "collector_inv c \<Longrightarrow> recorded_by t c \<Longrightarrow> recorded_by t (pruneLocked now c)"
  by (simp add: recorded_by_items pruneLocked_def collector_pruner.prune_items)

lemma metrics_inv [simp]:
  "collector_inv (updateRetentionMetricsLocked c) = collector_inv c"
  "recorded_by t (updateRetentionMetricsLocked c) = recorded_by t c"
  "c_samples (updateRetentionMetricsLocked c) = c_samples c"
  by (simp_all add: updateRetentionMetricsLocked_def collector_inv_def collector_pre_def recorded_by_def)

section \<open>Operations preserve the invariant\<close>

lemma store_sample_inv:
  "collector_inv c \<Longrightarrow> recorded_by (qs_RecordedAt s) c \<Longrightarrow> collector_inv (store_sample s c)"
  by (simp add: collector_inv_def store_sample_pre store_sample_sorted)

lemma collector_inv_fields:
  assumes "c_samples c' = c_samples c" "c_queryFingerprint c' = c_queryFingerprint c"
    "c_fingerprintIndex c' = c_fingerprintIndex c" "c_planHistory c' = c_planHistory c"
  shows "collector_inv c' = collector_inv c" "recorded_by t c' = recorded_by t c"
  by (simp_all add: collector_inv_def collector_pre_def recorded_by_def assms)

lemma counters_inv [simp]:
  "collector_inv (c\<lparr>c_explainSkipped := n\<rparr>) = collector_inv c" "recorded_by t (c\<lparr>c_explainSkipped := n\<rparr>) = recorded_by t c"
  "collector_inv (c\<lparr>c_scrapeTotal := n\<rparr>) = collector_inv c" "recorded_by t (c\<lparr>c_scrapeTotal := n\<rparr>) = recorded_by t c"
  "collector_inv (c\<lparr>c_scrapeErrors := n\<rparr>) = collector_inv c" "recorded_by t (c\<lparr>c_scrapeErrors := n\<rparr>) = recorded_by t c"
  "collector_inv (c\<lparr>c_lastScrapeTime := l\<rparr>) = collector_inv c" "recorded_by t (c\<lparr>c_lastScrapeTime := l\<rparr>) = recorded_by t c"
  "collector_inv (c\<lparr>c_meanExecTime := g\<rparr>) = collector_inv c" "recorded_by t (c\<lparr>c_meanExecTime := g\<rparr>) = recorded_by t c"
  "collector_inv (c\<lparr>c_callsTotal := h\<rparr>) = collector_inv c" "recorded_by t (c\<lparr>c_callsTotal := h\<rparr>) = recorded_by t c"
  by (rule collector_inv_fields; simp)+

lemma ingestSample_inv:
  assumes "collector_inv c" "recorded_by now c"
  shows "collector_inv (ingestSample now q txt calls tot mean c)" "recorded_by now (ingestSample now q txt calls tot mean c)"
  using assms
  by (simp_all add: ingestSample_def Let_def store_sample_inv store_sample_recorded collector_inv_fields [of "_\<lparr>c_meanExecTime := _, c_callsTotal := _\<rparr>"])

lemma ingestSample_cfg [simp]: "c_cfg (ingestSample now q txt calls tot mean c) = c_cfg c"
  by (simp add: ingestSample_def Let_def store_sample_def)

lemma plans_ok_append:
  assumes "plans_ok m" "length h \<le> planHistorySize"
  shows "plans_ok (AList.update q h m)"
  using assms set_update_subset [of q h m] by (fastforce simp: plans_ok_def keys_distinct)

lemma plans_ok_get: "plans_ok m \<Longrightarrow> length (map_get [] m q) \<le> planHistorySize"
  by (cases "map_of m q") (auto simp: plans_ok_def map_get_def dest: map_of_SomeD)

lemma appendPlanSnapshot_inv:
  assumes "collector_inv c"
  shows "collector_inv (appendPlanSnapshot snap c)" "recorded_by t (appendPlanSnapshot snap c) = recorded_by t c"
proof -
  have "plans_ok (c_planHistory c)" using assms by (simp add: collector_inv_def collector_pre_def)
  from plans_ok_append [OF this] plans_ok_get [OF this, of "ps_QueryID snap"]
  have "plans_ok (c_planHistory (appendPlanSnapshot snap c))"
    by (simp add: appendPlanSnapshot_def Let_def planHistorySize_def)
  then show "collector_inv (appendPlanSnapshot snap c)" using assms
    by (simp add: collector_inv_def collector_pre_def appendPlanSnapshot_def Let_def)
  show "recorded_by t (appendPlanSnapshot snap c) = recorded_by t c"
    by (simp add: recorded_by_def appendPlanSnapshot_def Let_def)
qed

lemma capturePlans_inv:
  "collector_inv c \<Longrightarrow> collector_inv (capturePlans cap tracked c) \<and> recorded_by t (capturePlans cap tracked c) = recorded_by t c"
  by (induction cap tracked c rule: capturePlans.induct) (auto simp: appendPlanSnapshot_inv split: sum.splits)

lemma scrape_rows_inv:
  "collector_inv c \<Longrightarrow> recorded_by now c \<Longrightarrow>
   collector_inv (snd (scrape_rows now rows tracked c)) \<and> recorded_by now (snd (scrape_rows now rows tracked c)) \<and>
   c_cfg (snd (scrape_rows now rows tracked c)) = c_cfg c"
proof (induction now rows tracked c rule: scrape_rows.induct)
  case (3 now r rows tracked c)
  then show ?case by (simp add: ingestSample_inv)
qed simp_all

lemma resolveColumns_fields:
  "c_samples (resolveColumns db c) = c_samples c" "c_queryFingerprint (resolveColumns db c) = c_queryFingerprint c"
  "c_fingerprintIndex (resolveColumns db c) = c_fingerprintIndex c" "c_planHistory (resolveColumns db c) = c_planHistory c"
  "c_cfg (resolveColumns db c) = c_cfg c"
  by (auto simp: resolveColumns_def split: sum.splits)

lemma pruneAndUpdateMetrics_inv:
  "collector_inv c \<Longrightarrow> recorded_by t c \<Longrightarrow>
     collector_inv (pruneAndUpdateMetrics now c) \<and> recorded_by t (pruneAndUpdateMetrics now c)"
  by (simp add: pruneAndUpdateMetrics_def pruneLocked_inv pruneLocked_recorded)

lemma scrape_inv:
  assumes "collector_inv c" "recorded_by now c" "scrape parse db now planNow c = (e, c')"
  shows "collector_inv c' \<and> recorded_by now c'"
proof -
  let ?c = "resolveColumns db c"
  have c: "collector_inv ?c" "recorded_by now ?c"
    using assms(1,2) collector_inv_fields [OF resolveColumns_fields(1-4)] by simp_all
  show ?thesis
  proof (cases "cdb_rows db (queryStatStatements ?c)")
    case (Inl err)
    then show ?thesis using assms(3) c by (simp add: scrape_def Let_def)
  next
    case (Inr rr)
    obtain rows rowsErr where rr: "rr = (rows, rowsErr)" by (cases rr)
    define c0 where "c0 = ?c\<lparr>c_scrapeTotal := c_scrapeTotal ?c + 1\<rparr>"
    obtain res c1 where r: "scrape_rows now rows [] c0 = (res, c1)" by (cases "scrape_rows now rows [] c0")
    have "collector_inv c0" "recorded_by now c0" using c by (simp_all add: c0_def)
    from scrape_rows_inv [OF this, of rows "[]"] have c1: "collector_inv c1" "recorded_by now c1" by (simp_all add: r)
    have c2: "collector_inv (pruneAndUpdateMetrics now (c1\<lparr>c_lastScrapeTime := Some now\<rparr>))"
      "recorded_by now (pruneAndUpdateMetrics now (c1\<lparr>c_lastScrapeTime := Some now\<rparr>))"
      using pruneAndUpdateMetrics_inv [of "c1\<lparr>c_lastScrapeTime := Some now\<rparr>" now now] c1 by simp_all
    define c2 where "c2 = pruneAndUpdateMetrics now (c1\<lparr>c_lastScrapeTime := Some now\<rparr>)"
    have "c' \<in> {c1, c2} \<or> (\<exists>cap tracked. c' = capturePlans cap tracked c2)"
    proof -
      have "scrape parse db now planNow c =
          (case (res, c1) of (Inl err, c1) \<Rightarrow> (Some err, c1)
           | (Inr tracked, c1) \<Rightarrow>
               (case rowsErr of Some err \<Rightarrow> (Some err, c1)
                | None \<Rightarrow> (None, if cc_CapturePlans (c_cfg c2)
                                then capturePlans (\<lambda>q. capturePlan parse (pg_db.truncate db) (planNow q) q) tracked c2 else c2)))"
        unfolding scrape_def Let_def Inr rr sum.case prod.case c0_def [symmetric] r c2_def by simp
      then show ?thesis using assms(3) by (auto split: sum.splits option.splits if_splits)
    qed
    then show ?thesis using c1 c2 capturePlans_inv unfolding c2_def [symmetric] by auto
  qed
qed

lemma fold_store_pre:
  "collector_pre c \<Longrightarrow> collector_pre (fold (\<lambda>s. store_sample (with_fingerprint s)) ss c)"
  by (induction ss arbitrary: c) (simp_all add: store_sample_pre)

lemma fold_store_recorded:
  assumes "\<forall>s\<in>set ss. qs_RecordedAt s \<le> now" "recorded_by now c"
  shows "recorded_by now (fold (\<lambda>s. store_sample (with_fingerprint s)) ss c)"
  using assms
proof (induction ss arbitrary: c)
  case (Cons s ss)
  have "qs_RecordedAt (with_fingerprint s) \<le> now" using Cons.prems(1) by (simp add: with_fingerprint_def)
  then show ?case using Cons by (simp add: store_sample_recorded)
qed simp

lemma sort_buckets_inv:
  assumes "collector_pre c"
  shows "collector_inv (sort_buckets c)" "recorded_by t (sort_buckets c) = recorded_by t c"
proof -
  have k: "fst \<circ> (\<lambda>(q :: queryid, ss). (q, sort_key qs_RecordedAt ss)) = fst" by (simp add: fun_eq_iff)
  have "buckets_ok (c_samples (sort_buckets c))"
  proof -
    have "ss \<noteq> [] \<and> (\<forall>s\<in>set ss. qs_QueryID s = q)" if "(q, ss) \<in> set (c_samples c)" for q ss
      using assms that by (auto simp: collector_pre_def buckets_ok_def)
    moreover have "sort_key qs_RecordedAt ss = [] \<longleftrightarrow> ss = []" for ss
      by (metis length_0_conv length_sort)
    ultimately show ?thesis using assms
      by (auto simp: collector_pre_def buckets_ok_def sort_buckets_def k)
  qed
  moreover have "dom (map_of (c_samples (sort_buckets c))) = dom (map_of (c_samples c))"
    unfolding dom_map_of_conv_image_fst by (force simp: sort_buckets_def)
  moreover have "buckets_sorted (c_samples (sort_buckets c))"
    by (auto simp: buckets_sorted_def sort_buckets_def)
  ultimately show "collector_inv (sort_buckets c)"
    using assms by (simp add: collector_inv_def collector_pre_def) (simp add: sort_buckets_def)
  show "recorded_by t (sort_buckets c) = recorded_by t c"
    by (auto simp: recorded_by_def sort_buckets_def)
qed

lemma collector_Backfill_inv:
  assumes "collector_inv c" "recorded_by now c" "\<forall>s\<in>set ss. qs_RecordedAt s \<le> now"
  shows "collector_inv (collector_Backfill now ss c) \<and> recorded_by now (collector_Backfill now ss c)"
proof -
  let ?c = "fold (\<lambda>s. store_sample (with_fingerprint s)) ss c"
  have "collector_pre ?c" "recorded_by now ?c"
    using assms by (simp_all add: fold_store_pre fold_store_recorded collector_inv_def)
  then have "collector_inv (sort_buckets ?c)" "recorded_by now (sort_buckets ?c)" by (simp_all add: sort_buckets_inv)
  then show ?thesis using assms(1,2)
    by (simp add: collector_Backfill_def pruneLocked_inv pruneLocked_recorded)
qed

text \<open>The states a collector goes through, with the time of the last operation; the clock does not go
  back between operations and persisted samples are not from the future.\<close>

inductive collector_reach :: "collector_config \<Rightarrow> gtime \<Rightarrow> collector \<Rightarrow> bool" for cfg where
  start: "collector_reach cfg t (new_collector cfg)"
| backfill: "collector_reach cfg t c \<Longrightarrow> t \<le> now \<Longrightarrow> \<forall>s\<in>set ss. qs_RecordedAt s \<le> now \<Longrightarrow>
    collector_reach cfg now (collector_Backfill now ss c)"
| scrape: "collector_reach cfg t c \<Longrightarrow> t \<le> now \<Longrightarrow> scrape parse db now planNow c = (e, c') \<Longrightarrow>
    collector_reach cfg now c'"

lemma new_collector_inv: "collector_inv (new_collector cfg)" "recorded_by t (new_collector cfg)"
  by (simp_all add: collector_inv_def collector_pre_def new_collector_def buckets_ok_def buckets_sorted_def index_ok_def
      plans_ok_def recorded_by_def)

lemma collector_reach_inv: "collector_reach cfg t c \<Longrightarrow> collector_inv c \<and> recorded_by t c"
proof (induction rule: collector_reach.induct)
  case (start t)
  then show ?case by (simp add: new_collector_inv)
next
  case (backfill t c now ss)
  then show ?case using collector_Backfill_inv recorded_by_mono by blast
next
  case (scrape t c now parse db planNow e c')
  then show ?case using scrape_inv recorded_by_mono by blast
qed

section \<open>Range queries\<close>

lemma filterRange_eq: "filterRange ss lo hi = range_filter qs_RecordedAt lo hi ss"
  by (simp add: filterRange_def range_filter_def time_simps not_less)

definition siblings_of :: "collector \<Rightarrow> queryid \<Rightarrow> queryid set" where
  "siblings_of c q = {p. p \<noteq> q \<and> map_of (c_queryFingerprint c) p \<noteq> None \<and> map_of (c_queryFingerprint c) p = map_of (c_queryFingerprint c) q}"

lemma samples_between_collector:
  "s \<in> set (collector_SamplesInRange q lo hi c) \<Longrightarrow> lo \<le> qs_RecordedAt s \<and> qs_RecordedAt s \<le> hi"
  by (auto simp: collector_SamplesInRange_def Let_def filterRange_eq range_filter_def split: if_splits option.splits)

lemma samples_sorted_collector:
  assumes "collector_inv c"
  shows "sorted_by qs_RecordedAt (collector_SamplesInRange q lo hi c)"
proof -
  have "sorted_by qs_RecordedAt (filterRange (map_get [] (c_samples c) q) lo hi)"
    using assms buckets_sorted_get by (auto simp: collector_inv_def filterRange_def)
  then show ?thesis by (auto simp: collector_SamplesInRange_def Let_def split: option.splits)
qed

definition in_range :: "gtime \<Rightarrow> gtime \<Rightarrow> query_sample \<Rightarrow> bool" where
  "in_range lo hi s \<longleftrightarrow> lo \<le> qs_RecordedAt s \<and> qs_RecordedAt s \<le> hi"

lemma filterRange_mset: "mset (filterRange ss lo hi) = filter_mset (in_range lo hi) (mset ss)"
proof -
  have "(\<lambda>s. \<not> time_before (qs_RecordedAt s) lo \<and> \<not> time_after (qs_RecordedAt s) hi) = in_range lo hi"
    by (auto simp: fun_eq_iff in_range_def time_simps not_less)
  then show ?thesis by (simp add: filterRange_def)
qed

lemma mset_concat_distinct: "distinct ps \<Longrightarrow> mset (concat (map f ps)) = (\<Sum>p\<in>set ps. mset (f p))"
  by (induction ps) auto

lemma filter_mset_sum: "finite P \<Longrightarrow> filter_mset Q (\<Sum>p\<in>P. f p) = (\<Sum>p\<in>P. filter_mset Q (f p))"
  by (induction P rule: finite_induct) auto

lemma finite_siblings: "finite (siblings_of c q)"
  by (rule finite_subset [OF _ finite_dom_map_of [of "c_queryFingerprint c"]]) (auto simp: siblings_of_def)

lemma siblings_index:
  assumes "collector_inv c" "map_of (c_queryFingerprint c) q = Some fp"
  defines "sib \<equiv> map_get [] (c_fingerprintIndex c) fp"
  shows "set (filter (\<lambda>p. p \<noteq> q) sib) = siblings_of c q" "distinct sib" "q \<in> set sib"
proof -
  have i: "index_ok (map_of (c_queryFingerprint c)) (c_fingerprintIndex c)"
    using assms(1) by (simp add: collector_inv_def collector_pre_def)
  then have "set sib = {p. map_of (c_queryFingerprint c) p = Some fp}" by (simp add: index_ok_def sib_def)
  then show "set (filter (\<lambda>p. p \<noteq> q) sib) = siblings_of c q" "q \<in> set sib" using assms(2) by (auto simp: siblings_of_def)
  show "distinct sib" using i by (auto simp: index_ok_def sib_def map_get_def split: option.splits dest: map_of_SomeD)
qed

lemma merge_or_direct:
  assumes "xs = (if b then d else if length (d @ e) \<le> length d then d else sort_key f (d @ e))" "b \<Longrightarrow> e = []"
  shows "mset xs = mset (d @ e)"
  using assms by (cases e) auto

text \<open>The samples a range query returns, with their multiplicities.\<close>

lemma samples_mset:
  assumes "collector_inv c"
  shows "mset (collector_SamplesInRange q lo hi c) = filter_mset (in_range lo hi)
    (mset (map_get [] (c_samples c) q) +
     (if length (filterRange (map_get [] (c_samples c) q) lo hi) < 5 then \<Sum>p\<in>siblings_of c q. mset (map_get [] (c_samples c) p) else {#}))"
proof (cases "length (filterRange (map_get [] (c_samples c) q) lo hi) < 5")
  case short: True
  let ?b = "\<lambda>p. map_get [] (c_samples c) p" let ?d = "filterRange (?b q) lo hi"
  show ?thesis
  proof (cases "map_of (c_queryFingerprint c) q")
    case None
    then have "siblings_of c q = {}" by (auto simp: siblings_of_def)
    then show ?thesis using None by (simp add: collector_SamplesInRange_def Let_def filterRange_mset)
  next
    case (Some fp)
    let ?sib = "map_get [] (c_fingerprintIndex c) fp"
    let ?extra = "concat (map (\<lambda>p. filterRange (?b p) lo hi) (filter (\<lambda>p. p \<noteq> q) ?sib))"
    note sib = siblings_index [OF assms Some]
    have none: "?extra = []" if "length ?sib \<le> 1"
      using that sib(3) by (cases ?sib) auto
    have "collector_SamplesInRange q lo hi c =
        (if length ?sib \<le> 1 then ?d else if length (?d @ ?extra) \<le> length ?d then ?d else sort_key qs_RecordedAt (?d @ ?extra))"
      using short Some by (simp only: collector_SamplesInRange_def Let_def fingerprintFallbackMinSamples_def option.case not_le [symmetric] if_False)
    then have "mset (collector_SamplesInRange q lo hi c) = mset (?d @ ?extra)"
      using none by (rule merge_or_direct)
    moreover have "mset ?extra = (\<Sum>p\<in>siblings_of c q. mset (filterRange (?b p) lo hi))"
      using mset_concat_distinct [OF distinct_filter [OF sib(2)]] sib(1) by metis
    moreover have "\<dots> = filter_mset (in_range lo hi) (\<Sum>p\<in>siblings_of c q. mset (?b p))"
      by (simp only: filter_mset_sum [OF finite_siblings] filterRange_mset)
    ultimately show ?thesis using short by (simp only: if_True mset_append filterRange_mset filter_union_mset)
  qed
qed (auto simp: collector_SamplesInRange_def Let_def fingerprintFallbackMinSamples_def filterRange_mset)

lemma samples_merged:
  assumes "collector_inv c"
  shows "set (collector_SamplesInRange q lo hi c) =
    {s. lo \<le> qs_RecordedAt s \<and> qs_RecordedAt s \<le> hi \<and>
        (s \<in> set (map_get [] (c_samples c) q) \<or>
         length (filterRange (map_get [] (c_samples c) q) lo hi) < 5 \<and> (\<exists>p\<in>siblings_of c q. s \<in> set (map_get [] (c_samples c) p)))}"
  using arg_cong [OF samples_mset [OF assms, of q lo hi], of set_mset] finite_siblings
  by (auto simp: in_range_def set_mset_sum split: if_splits)

typedef valid_collector = "{c. collector_inv c}"
  using new_collector_inv by blast

interpretation collector_source: sample_source "\<lambda>q lo hi. collector_SamplesInRange q lo hi (Rep_valid_collector v)" for v
proof
  show "sorted_by qs_RecordedAt (collector_SamplesInRange q lo hi (Rep_valid_collector v))" for q lo hi
    using Rep_valid_collector [of v] by (simp add: samples_sorted_collector)
qed (rule samples_between_collector)

interpretation memory_source: sample_source "\<lambda>q lo hi. ms_SamplesInRange q lo hi s" for s
  by unfold_locales (auto simp: ms_SamplesInRange_def time_simps)

section \<open>Plan history\<close>

lemma appendPlanSnapshot_history:
  assumes "map_get [] (c_planHistory c) q = drop (length hs - planHistorySize) hs" "ps_QueryID snap = q"
  shows "map_get [] (c_planHistory (appendPlanSnapshot snap c)) q = drop (length (hs @ [snap]) - planHistorySize) (hs @ [snap])"
proof (cases "planHistorySize \<le> length hs")
  case True
  then have "tl (drop (length hs - planHistorySize) hs) = drop (Suc (length hs) - planHistorySize) hs"
    by (simp add: drop_Suc [symmetric] tl_drop Suc_diff_le)
  moreover have "Suc 0 - planHistorySize = 0" by (simp add: planHistorySize_def)
  ultimately show ?thesis using assms True by (simp add: appendPlanSnapshot_def Let_def)
next
  case False
  then show ?thesis using assms by (simp add: appendPlanSnapshot_def Let_def)
qed

lemma appendPlanSnapshot_other:
  "ps_QueryID snap \<noteq> q \<Longrightarrow> map_get [] (c_planHistory (appendPlanSnapshot snap c)) q = map_get [] (c_planHistory c) q"
  by (simp add: appendPlanSnapshot_def Let_def)

lemma append_all_history:
  assumes "map_get [] (c_planHistory c) q = drop (length hs - planHistorySize) hs"
  shows "map_get [] (c_planHistory (fold appendPlanSnapshot snaps c)) q =
    drop (length (hs @ filter (\<lambda>s. ps_QueryID s = q) snaps) - planHistorySize) (hs @ filter (\<lambda>s. ps_QueryID s = q) snaps)"
  using assms
proof (induction snaps arbitrary: c hs)
  case (Cons snap snaps)
  show ?case
  proof (cases "ps_QueryID snap = q")
    case True
    from Cons.IH [OF appendPlanSnapshot_history [OF Cons.prems True]] show ?thesis using True by simp
  next
    case False
    then show ?thesis using Cons.IH [of "appendPlanSnapshot snap c" hs] Cons.prems by (simp add: appendPlanSnapshot_other)
  qed
qed simp

definition captured :: "(queryid \<Rightarrow> string \<Rightarrow> planner_error + plan_snapshot) \<Rightarrow> (queryid \<times> string) list \<Rightarrow> plan_snapshot list" where
  "captured cap tracked =
     [s. r \<leftarrow> map (\<lambda>(q, t). cap q t) (takeWhile (\<lambda>(q, t). case cap q t of Inl e \<Rightarrow> \<not> is_unsupported_version e | Inr _ \<Rightarrow> True) tracked),
         s \<leftarrow> (case r of Inl _ \<Rightarrow> [] | Inr s \<Rightarrow> [s])]"

lemma capturePlans_captured: "capturePlans cap tracked c = fold appendPlanSnapshot (captured cap tracked) c"
  by (induction cap tracked c rule: capturePlans.induct) (auto simp: captured_def split: sum.splits)

section \<open>Properties\<close>

text \<open>C8: In every state a collector can reach, query ids are unique and have a non-empty history of their
  own samples in time order, the fingerprint index holds exactly the ids whose current fingerprint it
  names (with no empty entry and none for an id without samples), and no plan history exceeds its
  bound.\<close>

theorem collector_reach_invariant:
  assumes "collector_reach cfg t c"
  shows "distinct (collector_AllQueryIDs c) \<and>
    (\<forall>q\<in>set (collector_AllQueryIDs c). map_get [] (c_samples c) q \<noteq> [] \<and> sorted_by qs_RecordedAt (map_get [] (c_samples c) q) \<and>
       qs_QueryID ` set (map_get [] (c_samples c) q) = {q}) \<and>
    (\<forall>fp. set (map_get [] (c_fingerprintIndex c) fp) = {q \<in> set (collector_AllQueryIDs c). map_of (c_queryFingerprint c) q = Some fp}) \<and>
    [] \<notin> snd ` set (c_fingerprintIndex c) \<and>
    (\<forall>q. length (map_get [] (c_planHistory c) q) \<le> planHistorySize)"
proof -
  have inv: "collector_inv c" using collector_reach_inv [OF assms] by simp
  then have b: "buckets_ok (c_samples c)" "buckets_sorted (c_samples c)" "plans_ok (c_planHistory c)"
    and i: "index_ok (map_of (c_queryFingerprint c)) (c_fingerprintIndex c)"
    and d: "dom (map_of (c_queryFingerprint c)) = dom (map_of (c_samples c))"
    by (simp_all add: collector_inv_def collector_pre_def)
  have "map_get [] (c_samples c) q \<noteq> [] \<and> qs_QueryID ` set (map_get [] (c_samples c) q) = {q}" if "q \<in> set (collector_AllQueryIDs c)" for q
  proof -
    have "q \<in> fst ` set (c_samples c)" using that by (simp add: collector_AllQueryIDs_def map_keys_def)
    then obtain ss where "(q, ss) \<in> set (c_samples c)" by auto
    moreover have "map_get [] (c_samples c) q = ss" using calculation b(1) by (auto simp: buckets_ok_def intro: map_get_in)
    ultimately have "map_get [] (c_samples c) q \<noteq> []" using b(1) by (auto simp: buckets_ok_def)
    then show ?thesis using buckets_ok_get [OF b(1)] by (auto simp: image_iff) (metis last_in_set)
  qed
  moreover have "set (map_get [] (c_fingerprintIndex c) fp) = {q \<in> set (collector_AllQueryIDs c). map_of (c_queryFingerprint c) q = Some fp}" for fp
    using i d by (auto simp: index_ok_def collector_AllQueryIDs_def)
  moreover have "[] \<notin> snd ` set (c_fingerprintIndex c)" using index_okD [OF i] by fastforce
  moreover have "distinct (collector_AllQueryIDs c)" using b(1) by (simp add: collector_AllQueryIDs_def map_keys_def buckets_ok_def)
  ultimately show ?thesis using buckets_sorted_get [OF b(2)] plans_ok_get [OF b(3)] by blast
qed

text \<open>C18: Retention by binary search keeps exactly the samples that are not older than the retention
  period, in their order, in every reachable state.\<close>

theorem prune_keeps_retained:
  assumes "collector_reach cfg t c"
  shows "concat (map snd (c_samples (pruneLocked now c))) =
    filter (\<lambda>s. now + dur_neg (cc_RetentionDuration (c_cfg c)) \<le> qs_RecordedAt s) (concat (map snd (c_samples c)))"
  using collector_pruner.prune_items [of c] collector_reach_inv [OF assms]
  by (simp add: pruneLocked_def collector_items_def time_add_def not_less)

text \<open>C19: In every reachable state a range query returns, in time order, exactly the samples of the query
  id in the interval and, if those are fewer than five, also the samples in the interval of every
  other query id with the same current fingerprint; each sample occurs as often as it was recorded.\<close>

theorem samples_in_range_merged:
  assumes "collector_reach cfg t c"
  shows "sorted_by qs_RecordedAt (collector_SamplesInRange q lo hi c) \<and>
    mset (collector_SamplesInRange q lo hi c) = filter_mset (\<lambda>s. lo \<le> qs_RecordedAt s \<and> qs_RecordedAt s \<le> hi)
      (mset (map_get [] (c_samples c) q) +
       (if size (filter_mset (\<lambda>s. lo \<le> qs_RecordedAt s \<and> qs_RecordedAt s \<le> hi) (mset (map_get [] (c_samples c) q))) < 5
        then \<Sum>p\<in>siblings_of c q. mset (map_get [] (c_samples c) p) else {#}))"
proof -
  have inv: "collector_inv c" using collector_reach_inv [OF assms] by simp
  have size: "length (filterRange (map_get [] (c_samples c) q) lo hi) = size (filter_mset (in_range lo hi) (mset (map_get [] (c_samples c) q)))"
    by (metis filterRange_mset size_mset)
  show ?thesis using samples_sorted_collector [OF inv] samples_mset [OF inv, of q lo hi]
    unfolding size in_range_def [abs_def] by simp
qed

text \<open>Plan capture appends the plans captured for the tracked queries up to the first query that
  fails for want of server support, and keeps the last five per query; the queries after that one are
  not tried in this cycle, even where a recorded plan exists for them.\<close>

theorem capture_plans_history:
  "map_get [] (c_planHistory (capturePlans cap tracked (new_collector cfg))) q =
     (let hs = filter (\<lambda>s. ps_QueryID s = q) (captured cap tracked) in drop (length hs - planHistorySize) hs)"
  using append_all_history [of "new_collector cfg" q "[]"]
  by (simp add: capturePlans_captured new_collector_def Let_def)

section \<open>Witnesses\<close>

definition sample_collector_cfg :: collector_config where
  "sample_collector_cfg = \<lparr>cc_ScrapeInterval = 0, cc_ClusterName = ''c'', cc_Namespace = ''ns'', cc_MaxQueryTextLen = 0,
     cc_RetentionDuration = 100, cc_CapturePlans = False\<rparr>"

definition sample_collector :: collector where
  "sample_collector = collector_Backfill 50 [sample_at 1 40, sample_at 2 45] (new_collector sample_collector_cfg)"

lemma sample_collector_reach: "collector_reach sample_collector_cfg 50 sample_collector"
  unfolding sample_collector_def
  by (rule collector_reach.backfill [OF collector_reach.start [of _ 50]]) (simp_all add: sample_at_def)

lemma sample_collector_siblings: "siblings_of sample_collector 1 = {2}"
proof -
  have "c_queryFingerprint sample_collector = [(1, ''f''), (2, ''f'')]" by code_simp
  then show ?thesis by (auto simp: siblings_of_def split: if_splits)
qed

lemma sample_collector_state:
  "c_samples sample_collector = [(1, [sample_at 1 40]), (2, [sample_at 2 45])]"
  "dur_neg (cc_RetentionDuration (c_cfg sample_collector)) = - 100"
  by code_simp+

theorem collector_reach_invariant_witness:
  "distinct (collector_AllQueryIDs sample_collector)"
  using collector_reach_invariant [OF sample_collector_reach] by blast

theorem prune_keeps_retained_witness:
  "concat (map snd (c_samples (pruneLocked 142 sample_collector))) = [sample_at 2 45]"
  using prune_keeps_retained [OF sample_collector_reach, of 142]
  by (simp add: sample_collector_state) (simp add: sample_at_def)

theorem samples_in_range_merged_witness:
  "mset (collector_SamplesInRange 1 0 60 sample_collector) = {#sample_at 1 40, sample_at 2 45#}"
proof -
  have "map_get [] (c_samples sample_collector) 1 = [sample_at 1 40]" "map_get [] (c_samples sample_collector) 2 = [sample_at 2 45]"
    by (simp_all add: sample_collector_state)
  moreover have "qs_RecordedAt (sample_at q t) = t" for q t by (simp add: sample_at_def)
  ultimately show ?thesis
    using samples_in_range_merged [OF sample_collector_reach, of 1 0 60] by (simp add: sample_collector_siblings)
qed

end
