(* ===== verification/Statistics.thy ===== *)
theory Statistics
  imports Api_Types
begin

text \<open>
  The statistical core of the correlation engine (\<open>internal/correlation/engine.go\<close>, second half):
  means and variances, Welch's t-test with the incomplete beta function, and the E-divisive
  change-point search. A \<open>float64\<close> is a real number, so the theorems are about the algorithms in
  exact arithmetic and say nothing about rounding; where the code relies on an infinity or a NaN (the
  t statistic of two constant samples, a comparison with a quotient by zero) the model has that value
  as a case of its own.
\<close>

section \<open>Elementary statistics\<close>

definition mean :: "real list \<Rightarrow> real" where
  "mean vals = (if length vals = 0 then 0 else foldl (+) 0 vals / real (length vals))"

definition variance :: "real list \<Rightarrow> real" where
  "variance vals =
     (if length vals < 2 then 0
      else let m = mean vals
           in foldl (\<lambda>acc v. acc + (v - m) * (v - m)) 0 vals / real (length vals - 1))"

lemma foldl_plus_sum_list: "foldl (\<lambda>acc v. acc + f v) (z::real) xs = z + sum_list (map f xs)"
  by (induction xs arbitrary: z) auto

lemma mean_sum_list: "mean vals = sum_list vals / real (length vals)"
  using foldl_plus_sum_list [of "\<lambda>v. v" 0 vals] by (simp add: mean_def)

lemma variance_sum_list:
  "2 \<le> length vals \<Longrightarrow> variance vals = sum_list (map (\<lambda>v. (v - mean vals)\<^sup>2) vals) / real (length vals - 1)"
  by (simp add: variance_def Let_def foldl_plus_sum_list power2_eq_square)

lemma variance_nonneg: "0 \<le> variance vals"
proof (cases "length vals < 2")
  case False
  then show ?thesis by (auto simp: variance_sum_list intro!: divide_nonneg_nonneg sum_list_nonneg)
qed (simp add: variance_def)

lemma mean_replicate: "0 < n \<Longrightarrow> mean (replicate n x) = x"
  by (simp add: mean_sum_list sum_list_replicate)

lemma variance_replicate: "variance (replicate n x) = 0"
proof (cases "n < 2")
  case False
  then show ?thesis by (simp add: variance_sum_list mean_replicate sum_list_replicate)
qed (simp add: variance_def)

section \<open>Welch's t-test\<close>

text \<open>\<open>math.Lgamma\<close> by Gauss's limit for the logarithm of the Gamma function.\<close>

definition lgamma :: "real \<Rightarrow> real" where
  "lgamma x = lim (\<lambda>n. x * ln (real n) + ln (fact n) - (\<Sum>k\<le>n. ln \<bar>x + real k\<bar>))"

definition logBeta :: "real \<Rightarrow> real \<Rightarrow> real" where
  "logBeta a b = lgamma a + lgamma b - lgamma (a + b)"

definition maxIter :: nat where "maxIter = 200"
definition cf_eps :: real where "cf_eps = 3 / 10 ^ 7"
definition fpMin :: real where "fpMin = 1 / 10 ^ 30"

definition clamp_small :: "real \<Rightarrow> real" where
  "clamp_small d = (if \<bar>d\<bar> < fpMin then fpMin else d)"

text \<open>One half step of an iteration updates \<open>c\<close> and \<open>d\<close> with the coefficient \<open>aa\<close>; an iteration does
  the even and the odd step and multiplies both into \<open>h\<close>, returning also the factor of the odd step.\<close>

definition cf_half :: "real \<Rightarrow> real \<Rightarrow> real \<Rightarrow> real \<times> real" where
  "cf_half aa c d = (clamp_small (1 + aa / c), 1 / clamp_small (1 + aa * d))"

definition even_coeff :: "real \<Rightarrow> real \<Rightarrow> real \<Rightarrow> real \<Rightarrow> real" where
  "even_coeff x a b mf = mf * (b - mf) * x / ((a - 1 + 2 * mf) * (a + 2 * mf))"

definition odd_coeff :: "real \<Rightarrow> real \<Rightarrow> real \<Rightarrow> real \<Rightarrow> real" where
  "odd_coeff x a b mf = - (a + mf) * (a + b + mf) * x / ((a + 2 * mf) * (a + 1 + 2 * mf))"

definition betaCF_iter :: "real \<Rightarrow> real \<Rightarrow> real \<Rightarrow> nat \<Rightarrow> real \<times> real \<times> real \<Rightarrow> (real \<times> real \<times> real) \<times> real" where
  "betaCF_iter x a b m s =
     (case s of (c, d, h) \<Rightarrow>
       (case cf_half (even_coeff x a b (real m)) c d of (c1, d1) \<Rightarrow>
         (case cf_half (odd_coeff x a b (real m)) c1 d1 of (c2, d2) \<Rightarrow>
           ((c2, d2, h * (d1 * c1) * (d2 * c2)), d2 * c2))))"

text \<open>The loop from iteration \<open>m\<close> on, with \<open>k\<close> iterations left.\<close>

fun betaCF_loop :: "real \<Rightarrow> real \<Rightarrow> real \<Rightarrow> nat \<Rightarrow> nat \<Rightarrow> real \<times> real \<times> real \<Rightarrow> real" where
  "betaCF_loop x a b 0 m s = snd (snd s)"
| "betaCF_loop x a b (Suc k) m s =
     (case betaCF_iter x a b m s of (s', delta) \<Rightarrow>
        if \<bar>delta - 1\<bar> < cf_eps then snd (snd s') else betaCF_loop x a b k (m + 1) s')"

definition betaCF :: "real \<Rightarrow> real \<Rightarrow> real \<Rightarrow> real" where
  "betaCF x a b =
     (let d = 1 / clamp_small (1 - (a + b) * x / (a + 1))
      in betaCF_loop x a b maxIter 1 (1, d, d))"

text \<open>\<open>x > num/den\<close> of the code: a quotient by zero is an infinity with the sign of the numerator, or
  NaN, to which no number compares as greater.\<close>

definition exceeds_ratio :: "real \<Rightarrow> real \<Rightarrow> real \<Rightarrow> bool" where
  "exceeds_ratio x num den = (if den = 0 then num < 0 else num / den < x)"

lemma exceeds_ratio_swap:
  assumes "exceeds_ratio x (a + 1) (a + b + 2)"
  shows "\<not> exceeds_ratio (1 - x) (b + 1) (b + a + 2)"
proof (cases "a + b + 2 = 0")
  case True
  then show ?thesis using assms by (simp add: exceeds_ratio_def add.commute)
next
  case False
  have "(b + 1) / (b + a + 2) = 1 - (a + 1) / (a + b + 2)"
    using False by (simp add: field_simps)
  then show ?thesis using assms False by (simp add: exceeds_ratio_def add.commute)
qed

function incompleteBeta :: "real \<Rightarrow> real \<Rightarrow> real \<Rightarrow> real" where
  "incompleteBeta x a b =
     (if x < 0 \<or> 1 < x then 0
      else if x = 0 then 0
      else if x = 1 then 1
      else let lbeta = logBeta a b;
               front = exp (ln x * a + ln (1 - x) * b - lbeta) / a
           in if exceeds_ratio x (a + 1) (a + b + 2) then 1 - incompleteBeta (1 - x) b a
              else front * betaCF x a b)"
  by pat_completeness auto
termination
  by (relation "measure (\<lambda>(x, a, b). if exceeds_ratio x (a + 1) (a + b + 2) then 1 else 0)")
     (auto dest: exceeds_ratio_swap)

declare incompleteBeta.simps [simp del]

definition tDistPValue :: "real \<Rightarrow> real \<Rightarrow> real" where
  "tDistPValue absT df =
     (if df \<le> 0 then 1
      else incompleteBeta (df / (df + absT * absT)) (df / 2) (1 / 2))"

datatype t_stat = PlusInfinity | Finite real

definition welchTTest :: "real list \<Rightarrow> real list \<Rightarrow> t_stat \<times> real" where
  "welchTTest a b =
     (let n1 = real (length a); n2 = real (length b)
      in if n1 < 2 \<or> n2 < 2 then (Finite 0, 1)
         else let v1 = variance a; v2 = variance b; m1 = mean a; m2 = mean b;
                  se = sqrt (v1 / n1 + v2 / n2)
              in if se = 0 then (if m1 \<noteq> m2 then (PlusInfinity, 0) else (Finite 0, 1))
                 else let tStat = (m1 - m2) / se;
                          w1 = v1 / n1; w2 = v2 / n2;
                          num = (w1 + w2) * (w1 + w2);
                          denom = w1 * w1 / (n1 - 1) + w2 * w2 / (n2 - 1);
                          df = num / denom
                      in (Finite tStat, tDistPValue \<bar>tStat\<bar> df))"

text \<open>Two constant samples are decided exactly.\<close>

lemma welch_constant:
  assumes "2 \<le> n" "2 \<le> m"
  shows "snd (welchTTest (replicate n x) (replicate m y)) = (if x = y then 1 else 0)"
  using assms by (simp add: welchTTest_def Let_def variance_replicate mean_replicate)

text \<open>The p-value does not depend on the order of the two samples.\<close>

lemma welch_commute: "snd (welchTTest a b) = snd (welchTTest b a)"
proof -
  let ?w1 = "variance a / real (length a)" and ?w2 = "variance b / real (length b)"
  have sum: "?w1 + ?w2 = ?w2 + ?w1"
    and den: "?w1 * ?w1 / (real (length a) - 1) + ?w2 * ?w2 / (real (length b) - 1) =
      ?w2 * ?w2 / (real (length b) - 1) + ?w1 * ?w1 / (real (length a) - 1)" by simp_all
  have t: "\<bar>(mean a - mean b) / s\<bar> = \<bar>(mean b - mean a) / s\<bar>" for s
    by (simp only: abs_divide abs_minus_commute)
  show ?thesis unfolding welchTTest_def Let_def sum den
    by (simp only: if_distrib [of snd] snd_conv t) (simp only: disj_commute eq_commute [of "mean a"])
qed

lemma incompleteBeta_symmetry:
  assumes "0 < x" "x < 1" "a + b + 2 \<noteq> 0" "x \<noteq> (a + 1) / (a + b + 2)"
  shows "incompleteBeta x a b + incompleteBeta (1 - x) b a = 1"
proof (cases "exceeds_ratio x (a + 1) (a + b + 2)")
  case True
  then show ?thesis using assms(1,2) by (subst incompleteBeta.simps) (simp add: Let_def)
next
  case False
  have "(b + 1) / (b + a + 2) = 1 - (a + 1) / (a + b + 2)" using assms(3) by (simp add: field_simps)
  then have "exceeds_ratio (1 - x) (b + 1) (b + a + 2)"
    using False assms(3,4) by (simp add: exceeds_ratio_def add.commute)
  then show ?thesis using assms(1,2) by (subst (2) incompleteBeta.simps) (simp add: Let_def)
qed

end
