(* ===== verification/Change_Point.thy ===== *)
theory Change_Point
  imports Statistics
begin

text \<open>
  The E-divisive change-point search (\<open>EDivisive\<close> and \<open>bestChangePoint\<close> of
  \<open>internal/correlation/engine.go\<close>). \<open>bestChangePoint\<close> keeps three running sums of absolute
  differences and updates them as the split slides through the series; \<open>energy\<close> is the reference
  definition of the energy statistic of one split, computed from scratch. The theorems show that the
  incremental search is an argmax over the reference definition, and that the greedy search returns
  separated, strictly increasing change points with positive statistics.
\<close>

section \<open>Single change point\<close>

record change_point =
  cp_Index :: nat
  cp_EStatistic :: real

definition absdiff :: "real list \<Rightarrow> nat \<Rightarrow> nat \<Rightarrow> real" where
  "absdiff s i j = \<bar>s ! i - s ! j\<bar>"

definition seed_sums :: "real list \<Rightarrow> nat \<Rightarrow> real \<times> real \<times> real" where
  "seed_sums s m =
     (let n = length s
      in ((\<Sum>i\<leftarrow>[0..<m]. \<Sum>j\<leftarrow>[m..<n]. absdiff s i j),
          (\<Sum>i\<leftarrow>[0..<m]. \<Sum>j\<leftarrow>[i + 1..<m]. absdiff s i j),
          (\<Sum>i\<leftarrow>[m..<n]. \<Sum>j\<leftarrow>[i + 1..<n]. absdiff s i j)))"

definition e_statistic :: "nat \<Rightarrow> nat \<Rightarrow> real \<times> real \<times> real \<Rightarrow> real" where
  "e_statistic n k acc =
     (case acc of (sumAB, sumAA, sumBB) \<Rightarrow>
       (let na = real k; nb = real (n - k);
            ab = sumAB / (na * nb);
            aa = (if na < 2 then 0 else (2 * sumAA) / (na * (na - 1)));
            bb = (if nb < 2 then 0 else (2 * sumBB) / (nb * (nb - 1)))
        in (2 * na * nb / (na + nb)) * (ab - aa / 2 - bb / 2)))"

text \<open>With an empty side (\<open>k = 0\<close> or \<open>k = n\<close>) the code divides zero by zero and compares a NaN, which
  never updates the best split.\<close>

definition evalAndUpdate :: "nat \<Rightarrow> nat \<Rightarrow> real \<times> real \<times> real \<Rightarrow> change_point \<Rightarrow> change_point" where
  "evalAndUpdate n k acc best =
     (if k = 0 \<or> n \<le> k then best
      else let e = e_statistic n k acc
           in if e > cp_EStatistic best then \<lparr>cp_Index = k, cp_EStatistic = e\<rparr> else best)"

definition slide_sums :: "real list \<Rightarrow> nat \<Rightarrow> real \<times> real \<times> real \<Rightarrow> real \<times> real \<times> real" where
  "slide_sums s k acc =
     (case acc of (sumAB, sumAA, sumBB) \<Rightarrow>
       (let n = length s;
            left = (\<Sum>i\<leftarrow>[0..<k - 1]. absdiff s i (k - 1));
            right = (\<Sum>j\<leftarrow>[k..<n]. absdiff s (k - 1) j)
        in (sumAB - left + right, sumAA + left, sumBB - right)))"

definition slide_step :: "real list \<Rightarrow> nat \<Rightarrow> (real \<times> real \<times> real) \<times> change_point \<Rightarrow> (real \<times> real \<times> real) \<times> change_point" where
  "slide_step s k st =
     (let acc = slide_sums s k (fst st) in (acc, evalAndUpdate (length s) k acc (snd st)))"

definition no_change_point :: change_point where
  "no_change_point = \<lparr>cp_Index = 0, cp_EStatistic = -1\<rparr>"

definition bestChangePoint :: "real list \<Rightarrow> nat \<Rightarrow> change_point" where
  "bestChangePoint s m =
     (let n = length s;
          acc = seed_sums s m;
          start = (acc, evalAndUpdate n m acc no_change_point)
      in snd (fold (slide_step s) [m + 1..<n - m + 1] start))"

section \<open>The running sums\<close>

definition split_sums :: "real list \<Rightarrow> nat \<Rightarrow> real \<times> real \<times> real" where
  "split_sums s k =
     ((\<Sum>i = 0..<k. \<Sum>j = k..<length s. absdiff s i j),
      (\<Sum>i = 0..<k. \<Sum>j = Suc i..<k. absdiff s i j),
      (\<Sum>i = k..<length s. \<Sum>j = Suc i..<length s. absdiff s i j))"

lemma seed_sums_split: "seed_sums s m = split_sums s m"
  by (simp add: seed_sums_def split_sums_def interv_sum_list_conv_sum_set_nat Let_def)

lemma slide_sums_split:
  assumes "k < length s"
  shows "slide_sums s (Suc k) (split_sums s k) = split_sums s (Suc k)"
proof -
  let ?n = "length s" and ?d = "absdiff s"
  let ?left = "\<Sum>i = 0..<k. ?d i k" and ?right = "\<Sum>j = Suc k..<?n. ?d k j"
  have tail: "(\<Sum>j = k..<?n. f j) = f k + (\<Sum>j = Suc k..<?n. f j)" for f :: "nat \<Rightarrow> real"
    using assms by (rule sum.atLeast_Suc_lessThan)
  have "(\<Sum>i = 0..<Suc k. \<Sum>j = Suc k..<?n. ?d i j) = (\<Sum>i = 0..<k. \<Sum>j = k..<?n. ?d i j) - ?left + ?right"
    by (simp add: tail [of "?d _"] sum.distrib)
  moreover have "(\<Sum>i = 0..<Suc k. \<Sum>j = Suc i..<Suc k. ?d i j) = (\<Sum>i = 0..<k. \<Sum>j = Suc i..<k. ?d i j) + ?left"
    by (simp add: sum.distrib)
  moreover have "(\<Sum>i = Suc k..<?n. \<Sum>j = Suc i..<?n. ?d i j) = (\<Sum>i = k..<?n. \<Sum>j = Suc i..<?n. ?d i j) - ?right"
    by (simp add: tail)
  ultimately show ?thesis
    by (simp add: slide_sums_def split_sums_def interv_sum_list_conv_sum_set_nat Let_def)
qed

definition direct_step :: "real list \<Rightarrow> nat \<Rightarrow> change_point \<Rightarrow> change_point" where
  "direct_step s k = evalAndUpdate (length s) k (split_sums s k)"

lemma slide_fold:
  assumes "j \<le> length s" "k \<le> j"
  shows "fold (slide_step s) [k + 1..<j + 1] (split_sums s k, b) = (split_sums s j, fold (direct_step s) [k + 1..<j + 1] b)"
  using assms
proof (induction j)
  case (Suc j)
  show ?case
  proof (cases "k = Suc j")
    case False
    then have ih: "fold (slide_step s) [k + 1..<j + 1] (split_sums s k, b) = (split_sums s j, fold (direct_step s) [k + 1..<j + 1] b)"
      using Suc by simp
    have up: "[k + 1..<Suc j + 1] = [k + 1..<j + 1] @ [Suc j]" using Suc.prems(2) False by simp
    show ?thesis unfolding up fold_append comp_apply ih
      using Suc.prems slide_sums_split [of j s] by (simp add: slide_step_def direct_step_def Let_def)
  qed simp
qed simp

lemma bestChangePoint_direct:
  assumes "2 * m \<le> length s"
  shows "bestChangePoint s m = fold (direct_step s) [m..<length s - m + 1] no_change_point"
proof -
  have le: "m \<le> length s - m" using assms by simp
  then have "[m..<length s - m + 1] = m # [m + 1..<length s - m + 1]" by (simp add: upt_conv_Cons)
  then show ?thesis using slide_fold [of "length s - m" s m] le
    by (simp add: bestChangePoint_def Let_def seed_sums_split direct_step_def)
qed

section \<open>Reference definition of the energy statistic\<close>

definition mean_cross :: "real list \<Rightarrow> real list \<Rightarrow> real" where
  "mean_cross a b = (\<Sum>i<length a. \<Sum>j<length b. \<bar>a ! i - b ! j\<bar>) / (real (length a) * real (length b))"

definition mean_within :: "real list \<Rightarrow> real" where
  "mean_within a = (if length a < 2 then 0
     else (\<Sum>i<length a. \<Sum>j<length a. \<bar>a ! i - a ! j\<bar>) / (real (length a) * (real (length a) - 1)))"

definition energy :: "real list \<Rightarrow> nat \<Rightarrow> real" where
  "energy s k =
     (let a = take k s; b = drop k s; na = real (length a); nb = real (length b)
      in 2 * na * nb / (na + nb) * (mean_cross a b - mean_within a / 2 - mean_within b / 2))"

lemma double_sum_triangle:
  assumes "\<And>i j. g i j = g j i" "\<And>i. g i i = (0::real)"
  shows "(\<Sum>i<n. \<Sum>j<n. g i j) = 2 * (\<Sum>i = 0..<n. \<Sum>j = Suc i..<n. g i j)"
proof (induction n)
  case (Suc n)
  have "(\<Sum>i<Suc n. \<Sum>j<Suc n. g i j) = (\<Sum>i<n. \<Sum>j<n. g i j) + 2 * (\<Sum>i<n. g i n)"
    using assms by (simp add: sum.distrib)
  moreover have "(\<Sum>i = 0..<Suc n. \<Sum>j = Suc i..<Suc n. g i j) =
      (\<Sum>i = 0..<n. \<Sum>j = Suc i..<n. g i j) + (\<Sum>i<n. g i n)"
    by (simp add: sum.distrib atLeast0LessThan)
  ultimately show ?case using Suc by simp
qed simp

lemma e_statistic_energy:
  assumes "0 < k" "k < length s"
  shows "e_statistic (length s) k (split_sums s k) = energy s k"
proof -
  let ?n = "length s" let ?b = "drop k s"
  have cross: "mean_cross (take k s) ?b = fst (split_sums s k) / (real k * real (?n - k))"
  proof -
    have "(\<Sum>j<?n - k. \<bar>s ! i - s ! (k + j)\<bar>) = (\<Sum>j = k..<?n. absdiff s i j)" for i
      using sum.atLeastLessThan_shift_bounds [of "absdiff s i" 0 k "?n - k"] assms
      by (simp add: absdiff_def atLeast0LessThan comp_def)
    then show ?thesis using assms by (simp add: mean_cross_def split_sums_def atLeast0LessThan)
  qed
  have left: "mean_within (take k s) = (if real k < 2 then 0 else 2 * fst (snd (split_sums s k)) / (real k * (real k - 1)))"
    using assms double_sum_triangle [of "absdiff s" k]
    by (simp add: mean_within_def split_sums_def absdiff_def abs_minus_commute)
  have right: "mean_within ?b = (if real (?n - k) < 2 then 0
      else 2 * snd (snd (split_sums s k)) / (real (?n - k) * (real (?n - k) - 1)))"
  proof -
    have "(\<Sum>i = 0..<?n - k. \<Sum>j = Suc i..<?n - k. absdiff s (k + i) (k + j)) =
          (\<Sum>i = k..<?n. \<Sum>j = Suc i..<?n. absdiff s i j)"
    proof -
      have "(\<Sum>j = Suc i..<?n - k. absdiff s (k + i) (k + j)) = (\<Sum>j = Suc (k + i)..<?n. absdiff s (k + i) j)" for i
        using sum.atLeastLessThan_shift_bounds [of "absdiff s (k + i)" "Suc i" k "?n - k"] assms
        by (simp add: comp_def add.commute)
      then show ?thesis
        using sum.atLeastLessThan_shift_bounds [of "\<lambda>i. \<Sum>j = Suc i..<?n. absdiff s i j" 0 k "?n - k"] assms
        by (simp add: comp_def)
    qed
    then show ?thesis
      using double_sum_triangle [of "\<lambda>i j. absdiff s (k + i) (k + j)" "?n - k"] assms
      by (simp add: mean_within_def split_sums_def absdiff_def abs_minus_commute)
  qed
  show ?thesis using assms
    by (simp add: energy_def e_statistic_def cross left right Let_def split: prod.splits)
qed

lemma direct_step_energy:
  assumes "0 < k" "k < length s"
  shows "direct_step s k b = (if energy s k > cp_EStatistic b then \<lparr>cp_Index = k, cp_EStatistic = energy s k\<rparr> else b)"
  using assms by (simp add: direct_step_def evalAndUpdate_def e_statistic_energy Let_def)

text \<open>A left-to-right scan that keeps a strictly better value finds the first maximum.\<close>

definition scan_best :: "(nat \<Rightarrow> real) \<Rightarrow> nat list \<Rightarrow> change_point \<Rightarrow> change_point" where
  "scan_best e ks b = fold (\<lambda>k b. if e k > cp_EStatistic b then \<lparr>cp_Index = k, cp_EStatistic = e k\<rparr> else b) ks b"

lemma scan_best_ge: "cp_EStatistic b \<le> cp_EStatistic (scan_best e ks b) \<and> (\<forall>k\<in>set ks. e k \<le> cp_EStatistic (scan_best e ks b))"
  unfolding scan_best_def
proof (induction ks arbitrary: b)
  case (Cons k ks)
  let ?b = "if e k > cp_EStatistic b then \<lparr>cp_Index = k, cp_EStatistic = e k\<rparr> else b"
  have "cp_EStatistic b \<le> cp_EStatistic ?b" "e k \<le> cp_EStatistic ?b" by auto
  with Cons [of ?b] show ?case by (auto intro: order_trans)
qed simp

lemma scan_best_first:
  assumes "sorted_wrt (<) ks"
  shows "scan_best e ks b = b \<or> (cp_Index (scan_best e ks b) \<in> set ks \<and>
     cp_EStatistic (scan_best e ks b) = e (cp_Index (scan_best e ks b)) \<and>
     cp_EStatistic b < cp_EStatistic (scan_best e ks b) \<and>
     (\<forall>k\<in>set ks. k < cp_Index (scan_best e ks b) \<longrightarrow> e k < cp_EStatistic (scan_best e ks b)))"
  using assms
proof (induction ks arbitrary: b)
  case (Cons k ks)
  let ?b = "if e k > cp_EStatistic b then \<lparr>cp_Index = k, cp_EStatistic = e k\<rparr> else b"
  have step: "scan_best e (k # ks) b = scan_best e ks ?b" by (simp add: scan_best_def)
  have later: "\<forall>j\<in>set ks. k < j" using Cons.prems by simp
  from Cons.IH [of ?b] Cons.prems consider (same) "scan_best e ks ?b = ?b"
    | (new) "cp_Index (scan_best e ks ?b) \<in> set ks" "cp_EStatistic (scan_best e ks ?b) = e (cp_Index (scan_best e ks ?b))"
      "cp_EStatistic ?b < cp_EStatistic (scan_best e ks ?b)"
      "\<forall>j\<in>set ks. j < cp_Index (scan_best e ks ?b) \<longrightarrow> e j < cp_EStatistic (scan_best e ks ?b)" by auto
  then show ?case
  proof cases
    case same
    then show ?thesis unfolding step using later by auto
  next
    case new
    have "e k \<le> cp_EStatistic ?b" "cp_EStatistic b \<le> cp_EStatistic ?b" by auto
    with new show ?thesis unfolding step by auto
  qed
qed (simp add: scan_best_def)

lemma bestChangePoint_scan:
  assumes "1 \<le> m" "2 * m \<le> length s"
  shows "bestChangePoint s m = scan_best (energy s) [m..<length s - m + 1] no_change_point"
proof -
  have "fold (direct_step s) ks b =
      fold (\<lambda>k b. if energy s k > cp_EStatistic b then \<lparr>cp_Index = k, cp_EStatistic = energy s k\<rparr> else b) ks b"
    if "\<forall>k\<in>set ks. 0 < k \<and> k < length s" for ks b
    using that by (induction ks arbitrary: b) (simp_all add: direct_step_energy)
  moreover have "\<forall>k\<in>set [m..<length s - m + 1]. 0 < k \<and> k < length s" using assms by auto
  ultimately show ?thesis using bestChangePoint_direct [OF assms(2)] by (simp add: scan_best_def)
qed

lemma bestChangePoint_range:
  assumes "1 \<le> m" "2 * m \<le> length s" "cp_EStatistic (bestChangePoint s m) > -1"
  shows "m \<le> cp_Index (bestChangePoint s m) \<and> cp_Index (bestChangePoint s m) \<le> length s - m"
proof -
  have "bestChangePoint s m \<noteq> no_change_point" using assms(3) by (auto simp: no_change_point_def)
  then have "cp_Index (bestChangePoint s m) \<in> set [m..<length s - m + 1]"
    using scan_best_first [OF sorted_wrt_upt, of "energy s" m "length s - m + 1" no_change_point]
    unfolding bestChangePoint_scan [OF assms(1,2)] by blast
  then show ?thesis using assms(2) by (auto simp del: upt_Suc)
qed

section \<open>Greedy search for several change points\<close>

definition seg_candidate :: "real list \<Rightarrow> nat \<Rightarrow> nat \<times> nat \<Rightarrow> change_point \<times> (nat \<times> nat) option \<Rightarrow> change_point \<times> (nat \<times> nat) option" where
  "seg_candidate series m seg acc =
     (case seg of (l, r) \<Rightarrow>
        if r - l < 2 * m then acc
        else let cp = bestChangePoint (take (r - l) (drop l series)) m
             in if cp_EStatistic cp > cp_EStatistic (fst acc)
                then (\<lparr>cp_Index = l + cp_Index cp, cp_EStatistic = cp_EStatistic cp\<rparr>, Some seg) else acc)"

definition best_segment :: "real list \<Rightarrow> nat \<Rightarrow> (nat \<times> nat) list \<Rightarrow> change_point \<times> (nat \<times> nat) option" where
  "best_segment series m segs = fold (seg_candidate series m) segs (no_change_point, None)"

definition split_segments :: "nat \<times> nat \<Rightarrow> nat \<Rightarrow> (nat \<times> nat) list \<Rightarrow> (nat \<times> nat) list" where
  "split_segments bs i segs = concat (map (\<lambda>seg. if seg = bs then [(fst bs, i), (i, snd bs)] else [seg]) segs)"

function edivisive_loop :: "real list \<Rightarrow> nat \<Rightarrow> nat \<Rightarrow> (nat \<times> nat) list \<Rightarrow> change_point list \<Rightarrow> change_point list" where
  "edivisive_loop series m maxPoints segs found =
     (if length found < maxPoints then
        (case best_segment series m segs of (best, bestSeg) \<Rightarrow>
           if cp_EStatistic best \<le> 0 \<or> bestSeg = None then found
           else edivisive_loop series m maxPoints (split_segments (the bestSeg) (cp_Index best) segs) (found @ [best]))
      else found)"
  by pat_completeness auto
termination by (relation "measure (\<lambda>(s, m, p, segs, found). p - length found)") auto

declare edivisive_loop.simps [simp del]

definition eDivisive :: "real list \<Rightarrow> nat \<Rightarrow> nat \<Rightarrow> change_point list" where
  "eDivisive series m maxPoints =
     (if length series < 2 * m then []
      else sort_key cp_Index (edivisive_loop series m maxPoints [(0, length series)] []))"

subsection \<open>Segments\<close>

text \<open>The segments always cut the series into consecutive pieces of at least the minimum length, and
  the change points found are exactly the inner boundaries.\<close>

fun seg_chain :: "nat \<Rightarrow> nat \<Rightarrow> (nat \<times> nat) list \<Rightarrow> nat \<Rightarrow> bool" where
  "seg_chain m a [] b \<longleftrightarrow> a = b"
| "seg_chain m a ((l, r) # segs) b \<longleftrightarrow> l = a \<and> l + m \<le> r \<and> seg_chain m r segs b"

lemma seg_chain_le: "seg_chain m a segs b \<Longrightarrow> a \<le> b"
  by (induction m a segs b rule: seg_chain.induct) auto

lemma seg_chain_bounds: "seg_chain m a segs b \<Longrightarrow> (l, r) \<in> set segs \<Longrightarrow> a \<le> l \<and> l + m \<le> r \<and> r \<le> b"
proof (induction m a segs b rule: seg_chain.induct)
  case (2 m a l' r' segs b)
  then show ?case using seg_chain_le [of m r' segs b] by auto
qed simp

lemma seg_chain_distinct: "seg_chain m a segs b \<Longrightarrow> 1 \<le> m \<Longrightarrow> distinct segs"
proof (induction m a segs b rule: seg_chain.induct)
  case (2 m a l r segs b)
  then have "(l, r) \<notin> set segs" using seg_chain_bounds [of m r segs b l r] by auto
  with 2 show ?case by simp
qed simp

lemma seg_chain_successive: "seg_chain m a segs b \<Longrightarrow> successively (\<lambda>x y. x + m \<le> y) (map fst segs @ [b])"
proof (induction m a segs b rule: seg_chain.induct)
  case (2 m a l r segs b)
  then show ?case by (cases segs) (auto simp: successively_Cons)
qed simp

lemma split_segments_notin: "bs \<notin> set segs \<Longrightarrow> split_segments bs i segs = segs"
  by (induction segs) (auto simp: split_segments_def)

lemma split_segments_Cons:
  "split_segments bs i (seg # segs) = (if seg = bs then [(fst bs, i), (i, snd bs)] else [seg]) @ split_segments bs i segs"
  by (simp add: split_segments_def)

lemma split_segments_chain:
  assumes "seg_chain m a segs b" "1 \<le> m" "(l, r) \<in> set segs" "l + m \<le> i" "i + m \<le> r"
  shows "seg_chain m a (split_segments (l, r) i segs) b \<and>
    mset (map fst (split_segments (l, r) i segs)) = add_mset i (mset (map fst segs))"
  using assms
proof (induction m a segs b rule: seg_chain.induct)
  case (2 m a l' r' segs b)
  show ?case
  proof (cases "(l', r') = (l, r)")
    case True
    then have "(l, r) \<notin> set segs" using seg_chain_distinct [OF "2.prems"(1,2)] by simp
    then show ?thesis using True "2.prems" by (simp add: split_segments_Cons split_segments_notin)
  next
    case False
    then show ?thesis using 2 by (auto simp: split_segments_Cons)
  qed
qed simp

definition candidate_ok :: "nat \<Rightarrow> (nat \<times> nat) list \<Rightarrow> change_point \<times> (nat \<times> nat) option \<Rightarrow> bool" where
  "candidate_ok m segs acc \<longleftrightarrow> -1 \<le> cp_EStatistic (fst acc) \<and>
     (case snd acc of None \<Rightarrow> True
      | Some (l, r) \<Rightarrow> (l, r) \<in> set segs \<and> l + m \<le> cp_Index (fst acc) \<and> cp_Index (fst acc) + m \<le> r)"

lemma seg_candidate_ok:
  assumes "candidate_ok m segs acc" "(l, r) \<in> set segs" "1 \<le> m" "r \<le> length series"
  shows "candidate_ok m segs (seg_candidate series m (l, r) acc)"
proof (cases "r - l < 2 * m")
  case False
  let ?s = "take (r - l) (drop l series)" let ?cp = "bestChangePoint ?s m"
  have len: "length ?s = r - l" using assms(4) by simp
  show ?thesis
  proof (cases "cp_EStatistic ?cp > cp_EStatistic (fst acc)")
    case True
    then have "-1 < cp_EStatistic ?cp" using assms(1) by (simp add: candidate_ok_def)
    then have "m \<le> cp_Index ?cp \<and> cp_Index ?cp \<le> r - l - m"
      using bestChangePoint_range [of m ?s] False assms(3) len by simp
    then have "l + m \<le> l + cp_Index ?cp \<and> l + cp_Index ?cp + m \<le> r" using False assms(3) by arith
    then show ?thesis using True False assms(2) \<open>-1 < cp_EStatistic ?cp\<close>
      by (auto simp: seg_candidate_def candidate_ok_def Let_def)
  qed (use False assms(1) in \<open>simp add: seg_candidate_def Let_def\<close>)
qed (use assms(1) in \<open>simp add: seg_candidate_def\<close>)

lemma best_segment_ok:
  assumes "seg_chain m a segs b" "b \<le> length series" "1 \<le> m"
  shows "candidate_ok m segs (best_segment series m segs)"
proof -
  have "candidate_ok m segs (fold (seg_candidate series m) xs acc)"
    if "candidate_ok m segs acc" "set xs \<subseteq> set segs" for xs acc
    using that
  proof (induction xs arbitrary: acc)
    case (Cons x xs)
    obtain l r where x: "x = (l, r)" by (cases x)
    have "r \<le> length series" using seg_chain_bounds [OF assms(1), of l r] Cons.prems(2) assms(2) x by auto
    then have "candidate_ok m segs (seg_candidate series m x acc)"
      using seg_candidate_ok [OF Cons.prems(1) _ assms(3), of l r series] Cons.prems(2) by (simp add: x)
    with Cons show ?case by simp
  qed simp
  then show ?thesis by (simp add: best_segment_def candidate_ok_def no_change_point_def)
qed

definition edivisive_inv :: "nat \<Rightarrow> nat \<Rightarrow> (nat \<times> nat) list \<Rightarrow> change_point list \<Rightarrow> bool" where
  "edivisive_inv m n segs found \<longleftrightarrow> seg_chain m 0 segs n \<and>
     mset (map fst segs) = add_mset 0 (mset (map cp_Index found)) \<and> (\<forall>cp\<in>set found. 0 < cp_EStatistic cp)"

lemma edivisive_loop_inv:
  assumes "edivisive_inv m (length series) segs found" "1 \<le> m" "length found \<le> p"
  shows "\<exists>segs'. edivisive_inv m (length series) segs' (edivisive_loop series m p segs found) \<and>
    length (edivisive_loop series m p segs found) \<le> p"
  using assms
proof (induction series m p segs found rule: edivisive_loop.induct)
  case (1 series m p segs found)
  obtain best bs where bseg: "best_segment series m segs = (best, bs)" by (cases "best_segment series m segs")
  show ?case
  proof (cases "length found < p \<and> \<not> (cp_EStatistic best \<le> 0 \<or> bs = None)")
    case True
    then obtain l r where bs: "bs = Some (l, r)" by (cases bs) auto
    have chain: "seg_chain m 0 segs (length series)" using "1.prems"(1) by (simp add: edivisive_inv_def)
    have ok: "(l, r) \<in> set segs" "l + m \<le> cp_Index best" "cp_Index best + m \<le> r"
      using best_segment_ok [OF chain order_refl "1.prems"(2)] by (simp_all add: bseg bs candidate_ok_def)
    have "edivisive_inv m (length series) (split_segments (l, r) (cp_Index best) segs) (found @ [best])"
      using "1.prems"(1) True split_segments_chain [OF chain "1.prems"(2) ok] by (auto simp: edivisive_inv_def)
    with "1.IH" [OF conjunct1 [OF True] bseg [symmetric] conjunct2 [OF True]] show ?thesis
      using True "1.prems"(2) by (subst (1 2) edivisive_loop.simps) (simp add: bseg bs)
  next
    case False
    then show ?thesis using "1.prems" by (subst (1 2) edivisive_loop.simps) (auto simp: bseg)
  qed
qed

lemma successively_gap_sorted: "successively (\<lambda>x y. x + m \<le> y) xs \<Longrightarrow> sorted (xs :: nat list)"
proof (induction xs)
  case (Cons x xs)
  then show ?case by (cases xs) auto
qed simp

lemma edivisive_inv_indices:
  assumes "edivisive_inv m n segs found"
  shows "0 # sort (map cp_Index found) = map fst segs"
proof -
  have "successively (\<lambda>x y. x + m \<le> y) (map fst segs)"
    using seg_chain_successive [of m 0 segs n] assms by (simp add: edivisive_inv_def successively_append_iff)
  then have "sort (map fst segs) = map fst segs" by (simp add: successively_gap_sorted sorted_sort_id)
  moreover have "sort (map fst segs) = sort (0 # map cp_Index found)"
    using assms by (intro sort_cong_mset) (simp add: edivisive_inv_def)
  moreover have "sort (0 # map cp_Index found) = 0 # sort (map cp_Index found)"
    by (rule properties_for_sort) simp_all
  ultimately show ?thesis by simp
qed

lemma map_sort_key: "map k (sort_key k xs) = sort (map k xs)" for k :: "'a \<Rightarrow> nat"
  by (rule properties_for_sort [symmetric]) simp_all

lemma eDivisive_inv:
  assumes "1 \<le> m" "2 * m \<le> length s"
  shows "\<exists>segs. edivisive_inv m (length s) segs (edivisive_loop s m p [(0, length s)] []) \<and>
     length (edivisive_loop s m p [(0, length s)] []) \<le> p"
  using assms by (intro edivisive_loop_inv) (simp_all add: edivisive_inv_def)

lemma eDivisive_separated:
  assumes "1 \<le> m"
  shows "length (eDivisive s m p) \<le> p \<and> (\<forall>cp\<in>set (eDivisive s m p). 0 < cp_EStatistic cp) \<and>
    (eDivisive s m p = [] \<or> successively (\<lambda>x y. x + m \<le> y) (0 # map cp_Index (eDivisive s m p) @ [length s]))"
proof (cases "length s < 2 * m")
  case False
  let ?f = "edivisive_loop s m p [(0, length s)] []"
  obtain segs where inv: "edivisive_inv m (length s) segs ?f" and len: "length ?f \<le> p"
    using eDivisive_inv [OF assms, of s p] False by auto
  have e: "eDivisive s m p = sort_key cp_Index ?f" using False by (simp add: eDivisive_def)
  have "successively (\<lambda>x y. x + m \<le> y) (map fst segs @ [length s])"
    using seg_chain_successive [of m 0 segs "length s"] inv by (simp add: edivisive_inv_def)
  then show ?thesis using len inv edivisive_inv_indices [OF inv, symmetric]
    by (simp add: e map_sort_key) (simp add: edivisive_inv_def)
qed (simp add: eDivisive_def)

lemma eDivisive_one:
  assumes "2 * m \<le> length s"
  shows "eDivisive s m 1 = (if cp_EStatistic (bestChangePoint s m) > 0 then [bestChangePoint s m] else [])"
proof -
  have b: "best_segment s m [(0, length s)] =
      (if cp_EStatistic (bestChangePoint s m) > -1 then (bestChangePoint s m, Some (0, length s)) else (no_change_point, None))"
    using assms by (simp add: best_segment_def seg_candidate_def Let_def no_change_point_def)
  have "edivisive_loop s m 1 segs [x] = [x]" for segs x by (simp add: edivisive_loop.simps)
  then show ?thesis using assms
    by (simp add: eDivisive_def edivisive_loop.simps [of s m "Suc 0" "[(0, length s)]"] b no_change_point_def)
qed

lemma bestChangePoint_first_max:
  assumes "1 \<le> m" "2 * m \<le> length s"
  shows "(\<forall>k\<in>{m..length s - m}. energy s k \<le> cp_EStatistic (bestChangePoint s m)) \<and>
    (bestChangePoint s m = no_change_point \<or>
     (let k = cp_Index (bestChangePoint s m)
      in k \<in> {m..length s - m} \<and> cp_EStatistic (bestChangePoint s m) = energy s k \<and>
         (\<forall>j\<in>{m..<k}. energy s j < energy s k)))"
proof -
  define ks where "ks = [m..<length s - m + 1]"
  have ks: "set ks = {m..length s - m}" "sorted_wrt (<) ks" by (auto simp: ks_def simp del: upt_Suc)
  note sc = bestChangePoint_scan [OF assms, folded ks_def]
  have "\<forall>k\<in>{m..length s - m}. energy s k \<le> cp_EStatistic (bestChangePoint s m)"
    using scan_best_ge [of no_change_point "energy s" ks] unfolding sc ks(1) by blast
  moreover have "\<forall>j\<in>{m..<k}. energy s j < energy s k"
    if "k \<in> {m..length s - m}" "\<forall>j\<in>{m..length s - m}. j < k \<longrightarrow> energy s j < energy s k" for k
    using that by auto
  moreover have "bestChangePoint s m = no_change_point \<or>
     (cp_Index (bestChangePoint s m) \<in> {m..length s - m} \<and>
      cp_EStatistic (bestChangePoint s m) = energy s (cp_Index (bestChangePoint s m)) \<and>
      (\<forall>k\<in>{m..length s - m}. k < cp_Index (bestChangePoint s m) \<longrightarrow> energy s k < energy s (cp_Index (bestChangePoint s m))))"
    using scan_best_first [OF ks(2), of "energy s" no_change_point]
    unfolding sc ks(1) by (elim disjE conjE) simp_all
  ultimately show ?thesis unfolding Let_def by blast
qed

text \<open>The specification of a detected change point: the first split with the largest energy
  statistic, which is positive.\<close>

definition first_max_energy :: "real list \<Rightarrow> nat \<Rightarrow> nat \<Rightarrow> bool" where
  "first_max_energy s m i \<longleftrightarrow> i \<in> {m..length s - m} \<and> 0 < energy s i \<and>
     (\<forall>k\<in>{m..length s - m}. energy s k \<le> energy s i \<and> (k < i \<longrightarrow> energy s k < energy s i))"

lemma first_max_energy_unique: "first_max_energy s m i \<Longrightarrow> first_max_energy s m j \<Longrightarrow> i = j"
  unfolding first_max_energy_def by (metis leD linorder_neqE_nat)

lemma bestChangePoint_first_max_energy:
  assumes "1 \<le> m" "2 * m \<le> length s"
  shows "first_max_energy s m i \<longleftrightarrow> 0 < cp_EStatistic (bestChangePoint s m) \<and> cp_Index (bestChangePoint s m) = i"
proof -
  let ?b = "bestChangePoint s m"
  note fm = bestChangePoint_first_max [OF assms, unfolded Let_def]
  have imp: "first_max_energy s m (cp_Index ?b)" if "0 < cp_EStatistic ?b"
  proof -
    have "?b \<noteq> no_change_point" using that by (auto simp: no_change_point_def)
    then show ?thesis using fm that unfolding first_max_energy_def by (metis atLeastAtMost_iff atLeastLessThan_iff)
  qed
  moreover have "0 < cp_EStatistic ?b" if "first_max_energy s m i"
    using that fm unfolding first_max_energy_def by (meson order_less_le_trans)
  ultimately show ?thesis using first_max_energy_unique by metis
qed

lemma eDivisive_one_spec:
  assumes "1 \<le> m"
  shows "eDivisive s m 1 = (if 2 * m \<le> length s \<and> 0 < cp_EStatistic (bestChangePoint s m) then [bestChangePoint s m] else [])"
  using eDivisive_one [of m s] by (simp add: eDivisive_def)

section \<open>Properties\<close>

text \<open>C2: The incremental search for the best split is an argmax of the energy statistic computed from
  scratch: over all splits that leave at least \<open>m\<close> points on each side, no split has a larger
  statistic than the one reported, the one reported has exactly that statistic, and every earlier
  split has a smaller one; the sentinel \<open>-1\<close> is returned only if no split beats it.\<close>

theorem best_change_point_argmax:
  assumes "1 \<le> m" "2 * m \<le> length s"
  shows "(\<forall>k\<in>{m..length s - m}. energy s k \<le> cp_EStatistic (bestChangePoint s m)) \<and>
    (bestChangePoint s m = no_change_point \<or>
     (let k = cp_Index (bestChangePoint s m)
      in k \<in> {m..length s - m} \<and> cp_EStatistic (bestChangePoint s m) = energy s k \<and>
         (\<forall>j\<in>{m..<k}. energy s j < energy s k)))"
  by (rule bestChangePoint_first_max [OF assms])

text \<open>C26: The greedy search returns at most the requested number of change points, all with a positive
  energy statistic, in strictly increasing order, at least the minimum segment length apart and at
  least that far from both ends of the series.\<close>

theorem edivisive_separated_points:
  assumes "1 \<le> m"
  shows "length (eDivisive s m p) \<le> p \<and> (\<forall>cp\<in>set (eDivisive s m p). 0 < cp_EStatistic cp) \<and>
    (eDivisive s m p = [] \<or> successively (\<lambda>x y. x + m \<le> y) (0 # map cp_Index (eDivisive s m p) @ [length s]))"
  by (rule eDivisive_separated [OF assms])

section \<open>Witnesses\<close>

definition step_series :: "real list" where
  "step_series = [1, 1, 1, 5, 5, 5]"

theorem best_change_point_argmax_witness:
  "energy step_series 3 \<le> cp_EStatistic (bestChangePoint step_series 3)"
  using best_change_point_argmax [of 3 step_series] by (simp add: step_series_def)

theorem edivisive_separated_points_witness:
  "length (eDivisive step_series 1 2) \<le> 2"
  using edivisive_separated_points [of 1 step_series 2] by simp

end
