(* ===== verification/Correlation_Engine.thy ===== *)
theory Correlation_Engine
  imports Change_Point
begin

text \<open>
  The correlation engine (\<open>internal/correlation/engine.go\<close>, first half): configuration and its
  defaults, the two analyses (around a deploy event, and periodic), the enumeration of query ids with
  its fingerprint deduplication, and the three-stage evaluation of one query. The sample source is the
  record of the two methods of \<open>SampleSource\<close>; what the proofs need of it is the locale
  \<open>sample_source\<close>. Each evaluation reads the clock once (for \<open>CreatedAt\<close>): \<open>clock n\<close> is the reading
  of the \<open>n\<close>-th evaluation of the pass.
\<close>

section \<open>Configuration\<close>

record engine_config =
  ec_Namespace :: string
  ec_WindowMinutes :: int
  ec_MinExecutions :: int
  ec_LatencyChangeThreshold :: real
  ec_PValueThreshold :: real
  ec_PeriodicWindowMinutes :: int
  ec_ChangePointTolerance :: duration

definition engine_defaults :: "engine_config \<Rightarrow> engine_config" where
  "engine_defaults c =
     (let c1 = (if ec_WindowMinutes c = 0 then c\<lparr>ec_WindowMinutes := 30\<rparr> else c);
          c2 = (if ec_MinExecutions c1 = 0 then c1\<lparr>ec_MinExecutions := 10\<rparr> else c1);
          c3 = (if ec_LatencyChangeThreshold c2 = 0 then c2\<lparr>ec_LatencyChangeThreshold := 20 / 100\<rparr> else c2);
          c4 = (if ec_PValueThreshold c3 = 0 then c3\<lparr>ec_PValueThreshold := 5 / 100\<rparr> else c3);
          c5 = (if ec_ChangePointTolerance c4 = 0 then
                  (let tol = go_div (dur_mul (ec_WindowMinutes c4) minute_d) 5
                   in c4\<lparr>ec_ChangePointTolerance := (if tol < dur_mul 2 minute_d then dur_mul 2 minute_d else tol)\<rparr>)
                else c4)
      in (if ec_PeriodicWindowMinutes c5 = 0 then c5\<lparr>ec_PeriodicWindowMinutes := 60\<rparr> else c5))"

record sample_src =
  src_SamplesInRange :: "queryid \<Rightarrow> gtime \<Rightarrow> gtime \<Rightarrow> query_sample list"
  src_AllQueryIDs :: "queryid list"

record engine =
  eng_cfg :: engine_config
  eng_src :: sample_src

definition new_engine :: "engine_config \<Rightarrow> sample_src \<Rightarrow> engine" where
  "new_engine cfg src = \<lparr>eng_cfg = engine_defaults cfg, eng_src = src\<rparr>"

definition analysisWindow :: "engine \<Rightarrow> duration" where
  "analysisWindow e = dur_mul (ec_WindowMinutes (eng_cfg e)) minute_d"

definition periodicWindow :: "engine \<Rightarrow> duration" where
  "periodicWindow e = dur_mul (ec_PeriodicWindowMinutes (eng_cfg e)) minute_d"

section \<open>Samples of one query\<close>

fun latest_loop :: "query_sample option \<Rightarrow> query_sample list \<Rightarrow> query_sample option" where
  "latest_loop acc [] = acc"
| "latest_loop acc (s # ss) =
     (case acc of None \<Rightarrow> latest_loop (Some s) ss
      | Some l \<Rightarrow> latest_loop (if time_after (qs_RecordedAt s) (qs_RecordedAt l) then Some s else Some l) ss)"

definition latestSample :: "query_sample list \<Rightarrow> query_sample option" where
  "latestSample ss = latest_loop None ss"

definition latestFingerprint :: "query_sample list \<Rightarrow> string" where
  "latestFingerprint ss = (case latestSample ss of None \<Rightarrow> [] | Some s \<Rightarrow> qs_Fingerprint s)"

definition canonicalQueryID :: "query_sample list \<Rightarrow> queryid \<Rightarrow> queryid" where
  "canonicalQueryID ss fallback = (case latestSample ss of None \<Rightarrow> fallback | Some s \<Rightarrow> qs_QueryID s)"

definition queryText :: "query_sample list \<Rightarrow> query_sample list \<Rightarrow> string" where
  "queryText pre post = (case pre of s # _ \<Rightarrow> qs_QueryText s
     | [] \<Rightarrow> (case post of s # _ \<Rightarrow> qs_QueryText s | [] \<Rightarrow> []))"

definition changePointMinSegLen :: "nat \<Rightarrow> nat" where
  "changePointMinSegLen n = (if n div 10 < 3 then 3 else n div 10)"

definition partitionAt :: "query_sample list \<Rightarrow> gtime \<Rightarrow> query_sample list \<times> query_sample list" where
  "partitionAt ss split =
     (filter (\<lambda>s. \<not> time_after (qs_RecordedAt s) split) ss, filter (\<lambda>s. \<not> time_before (qs_RecordedAt s) split) ss)"

definition extractLatencies :: "query_sample list \<Rightarrow> real list" where
  "extractLatencies ss = map qs_MeanExecTimeMs ss"

section \<open>Evaluation of one query\<close>

record change_stats =
  cs_insufficientData :: bool
  cs_meanPre :: real
  cs_meanPost :: real
  cs_changeFactor :: real
  cs_changePointFound :: bool
  cs_changeAt :: gtime
  cs_pValue :: real
  cs_confidence :: real
  cs_significant :: bool

definition zero_stats :: change_stats where
  "zero_stats = \<lparr>cs_insufficientData = False, cs_meanPre = 0, cs_meanPost = 0, cs_changeFactor = 0,
     cs_changePointFound = False, cs_changeAt = 0, cs_pValue = 0, cs_confidence = 0, cs_significant = False\<rparr>"

definition computeChangeStats :: "engine_config \<Rightarrow> query_sample list \<Rightarrow> query_sample list \<Rightarrow> change_stats" where
  "computeChangeStats cfg pre post =
     (if int (length pre) < ec_MinExecutions cfg \<or> int (length post) < ec_MinExecutions cfg
      then zero_stats\<lparr>cs_insufficientData := True\<rparr>
      else
        let meanPre = mean (extractLatencies pre);
            meanPost = mean (extractLatencies post);
            changeFactor = (if meanPre > 0 then meanPost / meanPre else 0);
            stats = zero_stats\<lparr>cs_meanPre := meanPre, cs_meanPost := meanPost, cs_changeFactor := changeFactor\<rparr>
        in if changeFactor - 1 < ec_LatencyChangeThreshold cfg then stats
           else
             let allSamples = sort_key qs_RecordedAt (pre @ post);
                 series = extractLatencies allSamples;
                 cps = eDivisive series (changePointMinSegLen (length series)) 1
             in (case cps of
                   [] \<Rightarrow> stats
                 | cp # _ \<Rightarrow>
                     (let changeAt = qs_RecordedAt (allSamples ! cp_Index cp);
                          pValue = snd (welchTTest (take (cp_Index cp) series) (drop (cp_Index cp) series));
                          confidence = (if 1 - pValue > 1 then 1 else 1 - pValue)
                      in stats\<lparr>cs_changePointFound := True, cs_changeAt := changeAt, cs_pValue := pValue,
                               cs_confidence := confidence, cs_significant := (pValue \<le> ec_PValueThreshold cfg)\<rparr>)))"

definition base_regression :: "string \<Rightarrow> string \<Rightarrow> string \<Rightarrow> queryid \<Rightarrow> string \<Rightarrow> trigger_type \<Rightarrow> gtime \<Rightarrow> performance_regression" where
  "base_regression name ns evid q txt trig now =
     \<lparr>pr_Name = name, pr_Namespace = ns, pr_DeployEventID = evid, pr_QueryID = q, pr_QueryText = txt,
      pr_Status = StatusNoRegression, pr_ConfidenceScore = 0, pr_MeanLatencyBefore = 0, pr_MeanLatencyAfter = 0,
      pr_LatencyChangeFactor = 0, pr_ExternalCauseSuspected = False, pr_AutoAbortTriggered = False,
      pr_AutoAbortError = [], pr_TriggerType = trig, pr_DetectedChangeAt = 0, pr_PlanDiffSummary = [],
      pr_CreatedAt = now\<rparr>"

definition with_means :: "change_stats \<Rightarrow> performance_regression \<Rightarrow> performance_regression" where
  "with_means st r = r\<lparr>pr_MeanLatencyBefore := cs_meanPre st, pr_MeanLatencyAfter := cs_meanPost st,
     pr_LatencyChangeFactor := cs_changeFactor st\<rparr>"

definition as_detected :: "change_stats \<Rightarrow> performance_regression \<Rightarrow> performance_regression" where
  "as_detected st r = r\<lparr>pr_Status := StatusDetected, pr_ConfidenceScore := cs_confidence st,
     pr_DetectedChangeAt := cs_changeAt st\<rparr>"

definition evaluateQuery :: "engine_config \<Rightarrow> deploy_event \<Rightarrow> queryid \<Rightarrow> query_sample list \<Rightarrow> query_sample list \<Rightarrow> gtime \<Rightarrow> performance_regression" where
  "evaluateQuery cfg ev q pre post now =
     (let base = base_regression (ev_ID ev @ ''-q'' @ format_int q) (ev_Namespace ev) (ev_ID ev) q
                   (queryText pre post) TriggerTypeDeploy now;
          stats = computeChangeStats cfg pre post
      in if cs_insufficientData stats then base\<lparr>pr_Status := StatusInsufficientData\<rparr>
         else
           let b = with_means stats base
           in if \<not> cs_changePointFound stats then b\<lparr>pr_Status := StatusNoRegression\<rparr>
              else
                let d = time_sub (cs_changeAt stats) (ev_Timestamp ev);
                    distance = (if d < 0 then dur_neg d else d)
                in if distance > ec_ChangePointTolerance cfg then b\<lparr>pr_Status := StatusNoRegression\<rparr>
                   else if \<not> cs_significant stats then b\<lparr>pr_Status := StatusNoRegression\<rparr>
                   else as_detected stats b)"

definition evaluatePeriodic :: "engine_config \<Rightarrow> queryid \<Rightarrow> query_sample list \<Rightarrow> query_sample list \<Rightarrow> gtime \<Rightarrow> gtime \<Rightarrow> performance_regression" where
  "evaluatePeriodic cfg q pre post now created =
     (let base = base_regression (''periodic-q'' @ format_int q @ ''-'' @ format_int (unix_seconds now)) (ec_Namespace cfg) [] q
                   (queryText pre post) TriggerTypePeriodic created;
          stats = computeChangeStats cfg pre post
      in if cs_insufficientData stats then base\<lparr>pr_Status := StatusInsufficientData\<rparr>
         else
           let b = with_means stats base
           in if \<not> cs_changePointFound stats \<or> \<not> cs_significant stats then b\<lparr>pr_Status := StatusNoRegression\<rparr>
              else as_detected stats b)"

section \<open>Analysis of a window\<close>

type_synonym eval_fn = "queryid \<Rightarrow> query_sample list \<Rightarrow> query_sample list \<Rightarrow> gtime \<Rightarrow> performance_regression"

definition analyse_step :: "sample_src \<Rightarrow> gtime \<Rightarrow> gtime \<Rightarrow> gtime \<Rightarrow> eval_fn \<Rightarrow> (nat \<Rightarrow> gtime) \<Rightarrow> queryid \<Rightarrow>
    string list \<times> performance_regression list \<Rightarrow> string list \<times> performance_regression list" where
  "analyse_step src before split after evalFn clock qid st =
     (case st of (seen, results) \<Rightarrow>
       (let allSamples = src_SamplesInRange src qid before after;
            fp = latestFingerprint allSamples
        in if fp \<noteq> [] \<and> fp \<in> set seen then (seen, results)
           else
             let seen' = (if fp \<noteq> [] then set_add fp seen else seen);
                 reportQID = canonicalQueryID allSamples qid;
                 (pre, post) = partitionAt allSamples split
             in (seen', results @ [evalFn reportQID pre post (clock (length results))])))"

definition analyseWindow :: "sample_src \<Rightarrow> gtime \<Rightarrow> gtime \<Rightarrow> gtime \<Rightarrow> eval_fn \<Rightarrow> (nat \<Rightarrow> gtime) \<Rightarrow> performance_regression list" where
  "analyseWindow src before split after evalFn clock =
     sort_key pr_QueryID
       (snd (fold (analyse_step src before split after evalFn clock) (sort (src_AllQueryIDs src)) ([], [])))"

definition analyse :: "engine \<Rightarrow> (nat \<Rightarrow> gtime) \<Rightarrow> deploy_event \<Rightarrow> performance_regression list" where
  "analyse e clock ev =
     (let window = dur_mul (ec_WindowMinutes (eng_cfg e)) minute_d;
          before = time_add (ev_Timestamp ev) (dur_neg window);
          after = time_add (ev_Timestamp ev) window
      in analyseWindow (eng_src e) before (ev_Timestamp ev) after (evaluateQuery (eng_cfg e) ev) clock)"

definition analysePeriodic :: "engine \<Rightarrow> (nat \<Rightarrow> gtime) \<Rightarrow> gtime \<Rightarrow> performance_regression list" where
  "analysePeriodic e clock now =
     (let window = dur_mul (ec_PeriodicWindowMinutes (eng_cfg e)) minute_d;
          before = time_add now (dur_mul (- 2) window);
          split = time_add now (dur_neg window)
      in analyseWindow (eng_src e) before split now
           (\<lambda>q pre post created. evaluatePeriodic (eng_cfg e) q pre post now created) clock)"

section \<open>Specification of a regression\<close>

abbreviation combined :: "query_sample list \<Rightarrow> query_sample list \<Rightarrow> query_sample list" where
  "combined pre post \<equiv> sort_key qs_RecordedAt (pre @ post)"

definition enough_data :: "engine_config \<Rightarrow> query_sample list \<Rightarrow> query_sample list \<Rightarrow> bool" where
  "enough_data cfg pre post \<longleftrightarrow> ec_MinExecutions cfg \<le> int (length pre) \<and> ec_MinExecutions cfg \<le> int (length post)"

definition latency_factor :: "query_sample list \<Rightarrow> query_sample list \<Rightarrow> real" where
  "latency_factor pre post =
     (if 0 < mean (extractLatencies pre) then mean (extractLatencies post) / mean (extractLatencies pre) else 0)"

text \<open>The latencies around the split differ by the threshold, the combined series has a change point at
  index \<open>i\<close>, and Welch's test on the two segments it defines is significant.\<close>

definition significant_shift :: "engine_config \<Rightarrow> query_sample list \<Rightarrow> query_sample list \<Rightarrow> nat \<Rightarrow> bool" where
  "significant_shift cfg pre post i \<longleftrightarrow>
     (let series = extractLatencies (combined pre post); m = max 3 (length series div 10)
      in ec_LatencyChangeThreshold cfg \<le> latency_factor pre post - 1 \<and>
         2 * m \<le> length series \<and> first_max_energy series m i \<and>
         snd (welchTTest (take i series) (drop i series)) \<le> ec_PValueThreshold cfg)"

definition deploy_distance :: "gtime \<Rightarrow> gtime \<Rightarrow> duration" where
  "deploy_distance t u = (let d = time_sub t u in if d < 0 then dur_neg d else d)"

definition change_time :: "query_sample list \<Rightarrow> query_sample list \<Rightarrow> nat \<Rightarrow> gtime" where
  "change_time pre post i = qs_RecordedAt (combined pre post ! i)"

definition seg_p :: "query_sample list \<Rightarrow> query_sample list \<Rightarrow> nat \<Rightarrow> real" where
  "seg_p pre post i = (let series = extractLatencies (combined pre post) in snd (welchTTest (take i series) (drop i series)))"

lemma minSegLen_max: "changePointMinSegLen n = max 3 (n div 10)"
  by (simp add: changePointMinSegLen_def)

text \<open>The change point that stage 1 hands to stage 2, if any.\<close>

definition found_at :: "engine_config \<Rightarrow> query_sample list \<Rightarrow> query_sample list \<Rightarrow> nat \<Rightarrow> bool" where
  "found_at cfg pre post i \<longleftrightarrow>
     (let series = extractLatencies (combined pre post); m = max 3 (length series div 10)
      in ec_LatencyChangeThreshold cfg \<le> latency_factor pre post - 1 \<and> 2 * m \<le> length series \<and> first_max_energy series m i)"

lemma found_at_unique: "found_at cfg pre post i \<Longrightarrow> found_at cfg pre post j \<Longrightarrow> i = j"
  unfolding found_at_def Let_def using first_max_energy_unique by blast

lemma significant_shift_found:
  "significant_shift cfg pre post i \<longleftrightarrow> found_at cfg pre post i \<and> seg_p pre post i \<le> ec_PValueThreshold cfg"
  by (auto simp: significant_shift_def found_at_def seg_p_def Let_def)

lemma computeChangeStats_insufficient:
  "cs_insufficientData (computeChangeStats cfg pre post) \<longleftrightarrow> \<not> enough_data cfg pre post"
  by (auto simp: computeChangeStats_def enough_data_def zero_stats_def Let_def not_less split: list.splits)

lemma computeChangeStats_found:
  assumes "enough_data cfg pre post" "found_at cfg pre post i"
  shows "computeChangeStats cfg pre post =
    \<lparr>cs_insufficientData = False, cs_meanPre = mean (extractLatencies pre), cs_meanPost = mean (extractLatencies post),
     cs_changeFactor = latency_factor pre post, cs_changePointFound = True, cs_changeAt = change_time pre post i,
     cs_pValue = seg_p pre post i, cs_confidence = min 1 (1 - seg_p pre post i),
     cs_significant = (seg_p pre post i \<le> ec_PValueThreshold cfg)\<rparr>"
proof -
  let ?s = "extractLatencies (combined pre post)" let ?m = "max 3 (length ?s div 10)"
  have thr: "ec_LatencyChangeThreshold cfg \<le> latency_factor pre post - 1" and m: "2 * ?m \<le> length ?s"
    and fm: "first_max_energy ?s ?m i" using assms(2) by (simp_all add: found_at_def Let_def)
  have "1 \<le> ?m" by simp
  from eDivisive_one_spec [OF this, of ?s] bestChangePoint_first_max_energy [OF this m, of i] m fm
  have "eDivisive ?s ?m 1 = [bestChangePoint ?s ?m]" "cp_Index (bestChangePoint ?s ?m) = i" by simp_all
  then show ?thesis using assms(1) thr
    unfolding computeChangeStats_def enough_data_def latency_factor_def [symmetric] minSegLen_max Let_def
    by (simp add: zero_stats_def change_time_def seg_p_def Let_def min_def not_less)
qed

lemma computeChangeStats_not_found:
  assumes "enough_data cfg pre post" "\<forall>i. \<not> found_at cfg pre post i"
  shows "computeChangeStats cfg pre post =
    zero_stats\<lparr>cs_meanPre := mean (extractLatencies pre), cs_meanPost := mean (extractLatencies post),
       cs_changeFactor := latency_factor pre post\<rparr>"
proof -
  let ?s = "extractLatencies (combined pre post)" let ?m = "max 3 (length ?s div 10)"
  have "1 \<le> ?m" by simp
  have "latency_factor pre post - 1 < ec_LatencyChangeThreshold cfg \<or> eDivisive ?s ?m 1 = []"
  proof (rule ccontr)
    assume "\<not> ?thesis"
    then have "ec_LatencyChangeThreshold cfg \<le> latency_factor pre post - 1" "2 * ?m \<le> length ?s"
      "0 < cp_EStatistic (bestChangePoint ?s ?m)"
      using eDivisive_one_spec [OF \<open>1 \<le> ?m\<close>, of ?s] by (auto split: if_splits)
    then have "found_at cfg pre post (cp_Index (bestChangePoint ?s ?m))"
      using bestChangePoint_first_max_energy [OF \<open>1 \<le> ?m\<close>, of ?s] by (simp add: found_at_def Let_def)
    with assms(2) show False by blast
  qed
  then show ?thesis using assms(1)
    unfolding computeChangeStats_def enough_data_def latency_factor_def [symmetric] minSegLen_max Let_def
    by auto
qed

lemma evaluateQuery_detected:
  assumes "enough_data cfg pre post" "significant_shift cfg pre post i"
    "deploy_distance (change_time pre post i) (ev_Timestamp ev) \<le> ec_ChangePointTolerance cfg"
  shows "pr_Status (evaluateQuery cfg ev q pre post now) = StatusDetected \<and>
    pr_ConfidenceScore (evaluateQuery cfg ev q pre post now) = min 1 (1 - seg_p pre post i) \<and>
    pr_DetectedChangeAt (evaluateQuery cfg ev q pre post now) = change_time pre post i"
  using assms computeChangeStats_found [OF assms(1), of i]
  by (simp add: significant_shift_found evaluateQuery_def Let_def deploy_distance_def as_detected_def)

lemma evaluateQuery_rejected:
  assumes "enough_data cfg pre post"
    "\<not> (\<exists>i. significant_shift cfg pre post i \<and>
          deploy_distance (change_time pre post i) (ev_Timestamp ev) \<le> ec_ChangePointTolerance cfg)"
  shows "pr_Status (evaluateQuery cfg ev q pre post now) = StatusNoRegression \<and>
    pr_ConfidenceScore (evaluateQuery cfg ev q pre post now) = 0 \<and>
    pr_DetectedChangeAt (evaluateQuery cfg ev q pre post now) = 0"
proof (cases "\<exists>i. found_at cfg pre post i")
  case True
  then obtain i where i: "found_at cfg pre post i" by blast
  then have "\<not> (seg_p pre post i \<le> ec_PValueThreshold cfg \<and>
      deploy_distance (change_time pre post i) (ev_Timestamp ev) \<le> ec_ChangePointTolerance cfg)"
    using assms(2) by (auto simp: significant_shift_found)
  then show ?thesis using computeChangeStats_found [OF assms(1) i]
    by (auto simp: evaluateQuery_def Let_def deploy_distance_def with_means_def base_regression_def)
next
  case False
  then show ?thesis using computeChangeStats_not_found [OF assms(1)]
    by (simp add: evaluateQuery_def Let_def zero_stats_def with_means_def base_regression_def)
qed

lemma evaluateQuery_insufficient:
  assumes "\<not> enough_data cfg pre post"
  shows "pr_Status (evaluateQuery cfg ev q pre post now) = StatusInsufficientData \<and>
    pr_ConfidenceScore (evaluateQuery cfg ev q pre post now) = 0 \<and>
    pr_DetectedChangeAt (evaluateQuery cfg ev q pre post now) = 0"
  using assms by (simp add: evaluateQuery_def computeChangeStats_insufficient Let_def base_regression_def)

lemma evaluateQuery_fields:
  "pr_QueryID (evaluateQuery cfg ev q pre post now) = q"
  "pr_DeployEventID (evaluateQuery cfg ev q pre post now) = ev_ID ev"
  "pr_TriggerType (evaluateQuery cfg ev q pre post now) = TriggerTypeDeploy"
  "pr_Namespace (evaluateQuery cfg ev q pre post now) = ev_Namespace ev"
  by (simp_all add: evaluateQuery_def Let_def base_regression_def with_means_def as_detected_def)

lemma evaluateQuery_factor:
  "pr_LatencyChangeFactor (evaluateQuery cfg ev q pre post now) =
     (if enough_data cfg pre post then latency_factor pre post else 0)"
proof (cases "enough_data cfg pre post")
  case True
  then have "cs_changeFactor (computeChangeStats cfg pre post) = latency_factor pre post"
    using computeChangeStats_found [OF True] computeChangeStats_not_found [OF True] by (cases "\<exists>i. found_at cfg pre post i") auto
  then show ?thesis using True computeChangeStats_insufficient [of cfg pre post]
    by (simp add: evaluateQuery_def Let_def with_means_def as_detected_def)
next
  case False
  then show ?thesis by (simp add: evaluateQuery_def Let_def computeChangeStats_insufficient base_regression_def)
qed

lemma evaluatePeriodic_status:
  "pr_Status (evaluatePeriodic cfg q pre post now created) =
     (if \<not> enough_data cfg pre post then StatusInsufficientData
      else if \<exists>i. significant_shift cfg pre post i then StatusDetected else StatusNoRegression)"
proof (cases "enough_data cfg pre post")
  case en: True
  show ?thesis
  proof (cases "\<exists>i. found_at cfg pre post i")
    case True
    then obtain i where i: "found_at cfg pre post i" by blast
    then have "(\<exists>i. significant_shift cfg pre post i) \<longleftrightarrow> seg_p pre post i \<le> ec_PValueThreshold cfg"
      unfolding significant_shift_found by (metis found_at_unique)
    then show ?thesis using en computeChangeStats_found [OF en i]
      by (simp add: evaluatePeriodic_def Let_def as_detected_def)
  next
    case False
    then show ?thesis using en computeChangeStats_not_found [OF en]
      by (simp add: evaluatePeriodic_def Let_def zero_stats_def significant_shift_found)
  qed
next
  case False
  then show ?thesis by (simp add: evaluatePeriodic_def Let_def computeChangeStats_insufficient)
qed

section \<open>Enumeration of the queries\<close>

lemma latest_loop_Some:
  "latest_loop (Some l) ss = Some x \<Longrightarrow> x \<in> insert l (set ss) \<and> (\<forall>s\<in>insert l (set ss). qs_RecordedAt s \<le> qs_RecordedAt x)"
proof (induction ss arbitrary: l)
  case (Cons s ss)
  let ?l = "if time_after (qs_RecordedAt s) (qs_RecordedAt l) then s else l"
  have "latest_loop (Some ?l) ss = Some x" using Cons.prems by (auto split: if_splits)
  from Cons.IH [OF this] show ?case by (auto simp: time_simps split: if_splits)
qed simp

lemma latest_loop_some: "\<exists>x. latest_loop (Some l) ss = Some x"
  by (induction ss arbitrary: l) auto

lemma latestSample_latest:
  assumes "ss \<noteq> []"
  obtains x where "latestSample ss = Some x" "x \<in> set ss" "\<forall>s\<in>set ss. qs_RecordedAt s \<le> qs_RecordedAt x"
proof -
  obtain s ss' where ss: "ss = s # ss'" using assms by (cases ss) auto
  obtain x where "latest_loop (Some s) ss' = Some x" using latest_loop_some by blast
  then show ?thesis using that latest_loop_Some [of s ss' x] by (auto simp: latestSample_def ss)
qed

lemma canonicalQueryID_member: "ss \<noteq> [] \<Longrightarrow> canonicalQueryID ss q \<in> qs_QueryID ` set ss"
  by (rule latestSample_latest [of ss]) (auto simp: canonicalQueryID_def)

text \<open>The query ids that are evaluated: each id, in increasing order, whose samples carry a fingerprint
  that no smaller id has shown (or no fingerprint at all).\<close>

fun winners :: "(queryid \<Rightarrow> string) \<Rightarrow> string list \<Rightarrow> queryid list \<Rightarrow> queryid list" where
  "winners fp seen [] = []"
| "winners fp seen (q # qs) =
     (if fp q \<noteq> [] \<and> fp q \<in> set seen then winners fp seen qs
      else q # winners fp (if fp q \<noteq> [] then set_add (fp q) seen else seen) qs)"

fun evaluations :: "(queryid \<Rightarrow> gtime \<Rightarrow> performance_regression) \<Rightarrow> (nat \<Rightarrow> gtime) \<Rightarrow> nat \<Rightarrow> queryid list \<Rightarrow> performance_regression list" where
  "evaluations ev clock n [] = []"
| "evaluations ev clock n (q # qs) = ev q (clock n) # evaluations ev clock (Suc n) qs"

definition window_fp :: "sample_src \<Rightarrow> gtime \<Rightarrow> gtime \<Rightarrow> queryid \<Rightarrow> string" where
  "window_fp src before after q = latestFingerprint (src_SamplesInRange src q before after)"

definition window_eval :: "sample_src \<Rightarrow> gtime \<Rightarrow> gtime \<Rightarrow> gtime \<Rightarrow> eval_fn \<Rightarrow> queryid \<Rightarrow> gtime \<Rightarrow> performance_regression" where
  "window_eval src before split after evalFn q t =
     (let ss = src_SamplesInRange src q before after
      in evalFn (canonicalQueryID ss q) (fst (partitionAt ss split)) (snd (partitionAt ss split)) t)"

lemma analyse_fold:
  "snd (fold (analyse_step src before split after evalFn clock) qs (seen, results)) =
     results @ evaluations (window_eval src before split after evalFn) clock (length results)
                 (winners (window_fp src before after) seen qs)"
proof (induction qs arbitrary: seen results)
  case (Cons q qs)
  let ?fp = "window_fp src before after q"
  show ?case
  proof (cases "?fp \<noteq> [] \<and> ?fp \<in> set seen")
    case True
    then have "analyse_step src before split after evalFn clock q (seen, results) = (seen, results)"
      by (simp add: analyse_step_def window_fp_def Let_def)
    then show ?thesis using True Cons [of seen results] by simp
  next
    case False
    let ?r = "window_eval src before split after evalFn q (clock (length results))"
    let ?seen = "if ?fp \<noteq> [] then set_add ?fp seen else seen"
    have st: "analyse_step src before split after evalFn clock q (seen, results) = (?seen, results @ [?r])"
      using False by (simp add: analyse_step_def window_fp_def window_eval_def Let_def split: prod.splits)
    have "winners (window_fp src before after) seen (q # qs) = q # winners (window_fp src before after) ?seen qs"
      using False by auto
    then show ?thesis using Cons [of ?seen "results @ [?r]"] by (simp only: fold_simps st) simp
  qed
qed simp

lemma analyseWindow_winners:
  "analyseWindow src before split after evalFn clock =
     sort_key pr_QueryID (evaluations (window_eval src before split after evalFn) clock 0
       (winners (window_fp src before after) [] (sort (src_AllQueryIDs src))))"
  by (simp add: analyseWindow_def analyse_fold)

lemma set_evaluations: "r \<in> set (evaluations ev clock n qs) \<Longrightarrow> \<exists>q\<in>set qs. \<exists>t. r = ev q t"
  by (induction qs arbitrary: n) auto

lemma winners_subset: "set (winners fp seen qs) \<subseteq> set qs"
  by (induction qs arbitrary: seen) auto

text \<open>Without the bookkeeping: an id is evaluated if it has no fingerprint, or if no smaller id has the same.\<close>

lemma winners_filter:
  assumes "sorted qs" "distinct qs"
  shows "winners fp seen qs = filter (\<lambda>q. fp q = [] \<or> fp q \<notin> set seen \<and> (\<forall>p\<in>set qs. p < q \<longrightarrow> fp p \<noteq> fp q)) qs"
  using assms
proof (induction qs arbitrary: seen)
  case (Cons q qs)
  have less: "\<forall>p\<in>set qs. q < p" using Cons.prems by (auto simp: less_le)
  have IH: "winners fp sn qs = filter (\<lambda>x. fp x = [] \<or> fp x \<notin> set sn \<and> (\<forall>p\<in>set qs. p < x \<longrightarrow> fp p \<noteq> fp x)) qs" for sn
    using Cons by simp
  show ?case
  proof (cases "fp q \<noteq> [] \<and> fp q \<in> set seen")
    case True
    then show ?thesis using less by (auto simp: IH intro!: filter_cong)
  next
    case False
    then have "winners fp seen (q # qs) = q # winners fp (if fp q \<noteq> [] then set_add (fp q) seen else seen) qs" by auto
    moreover have "winners fp (if fp q \<noteq> [] then set_add (fp q) seen else seen) qs =
        filter (\<lambda>x. fp x = [] \<or> fp x \<notin> set seen \<and> (\<forall>p\<in>set (q # qs). p < x \<longrightarrow> fp p \<noteq> fp x)) qs"
      unfolding IH using less by (auto intro!: filter_cong)
    moreover have "fp q = [] \<or> fp q \<notin> set seen \<and> (\<forall>p\<in>set (q # qs). p < q \<longrightarrow> fp p \<noteq> fp q)"
      using False less by auto
    ultimately show ?thesis by simp
  qed
qed simp

text \<open>An id whose fingerprint a smaller id shows in the window has no part in the result.\<close>

lemma analyseWindow_skips:
  assumes "distinct (src_AllQueryIDs src)" "p \<in> set (src_AllQueryIDs src)" "p < q"
    and "window_fp src before after p = window_fp src before after q" "window_fp src before after q \<noteq> []"
  shows "analyseWindow (src\<lparr>src_AllQueryIDs := filter (\<lambda>x. x \<noteq> q) (src_AllQueryIDs src)\<rparr>) before split after evalFn clock =
    analyseWindow src before split after evalFn clock"
proof -
  let ?fp = "window_fp src before after" let ?ids = "src_AllQueryIDs src"
  let ?src = "src\<lparr>src_AllQueryIDs := filter (\<lambda>x. x \<noteq> q) ?ids\<rparr>"
  have same: "window_fp ?src before after = ?fp" "window_eval ?src before split after evalFn = window_eval src before split after evalFn"
    by (simp_all add: fun_eq_iff window_fp_def window_eval_def)
  have "(x \<noteq> q \<and> (?fp x = [] \<or> (\<forall>y\<in>{y \<in> set ?ids. y \<noteq> q}. y < x \<longrightarrow> ?fp y \<noteq> ?fp x))) \<longleftrightarrow>
      (?fp x = [] \<or> (\<forall>y\<in>set ?ids. y < x \<longrightarrow> ?fp y \<noteq> ?fp x))" for x
  proof (cases "x = q")
    case True
    then show ?thesis using assms(2-5) by auto
  next
    case False
    have "?fp p = ?fp x \<and> p < x" if "q < x" "?fp q = ?fp x" using that assms(3,4) by simp
    then show ?thesis using False assms(2,3) by (metis (mono_tags, lifting) less_irrefl mem_Collect_eq)
  qed
  then have "winners ?fp [] (sort (filter (\<lambda>x. x \<noteq> q) ?ids)) = winners ?fp [] (sort ?ids)"
    using assms(1) by (simp add: winners_filter) (simp add: filter_sort [symmetric] conj_commute)
  then show ?thesis by (simp add: analyseWindow_winners same)
qed

lemma analyseWindow_result:
  assumes "r \<in> set (analyseWindow src before split after evalFn clock)"
  obtains q t where "q \<in> set (src_AllQueryIDs src)" "r = window_eval src before split after evalFn q t"
proof -
  have "r \<in> set (evaluations (window_eval src before split after evalFn) clock 0
       (winners (window_fp src before after) [] (sort (src_AllQueryIDs src))))"
    using assms by (simp add: analyseWindow_winners)
  from set_evaluations [OF this] obtain q t where
    "q \<in> set (winners (window_fp src before after) [] (sort (src_AllQueryIDs src)))"
    "r = window_eval src before split after evalFn q t" by blast
  then show ?thesis using that winners_subset by fastforce
qed

section \<open>Attribution to a deploy\<close>

lemma deploy_distance_abs: "\<bar>t - u\<bar> \<le> max_duration \<Longrightarrow> deploy_distance t u = \<bar>t - u\<bar>"
  by (auto simp: deploy_distance_def time_sub_def max_duration_def min_duration_def dur_neg_def Let_def wrap64_id)

lemma change_time_member:
  assumes "significant_shift cfg pre post i"
  shows "\<exists>s\<in>set pre \<union> set post. change_time pre post i = qs_RecordedAt s"
proof -
  have "i < length (combined pre post)"
    using assms by (auto simp: significant_shift_def first_max_energy_def Let_def extractLatencies_def)
  then have "combined pre post ! i \<in> set (combined pre post)" by (rule nth_mem)
  then show ?thesis unfolding change_time_def by auto
qed

context sample_source
begin

lemma detected_attributed:
  assumes r: "r \<in> set (analyse \<lparr>eng_cfg = cfg, eng_src = \<lparr>src_SamplesInRange = samples_in_range, src_AllQueryIDs = ids\<rparr>\<rparr> clock ev)"
    and det: "pr_Status r = StatusDetected"
    and w: "w = dur_mul (ec_WindowMinutes cfg) minute_d" "0 \<le> w"
  shows "\<bar>pr_DetectedChangeAt r - ev_Timestamp ev\<bar> \<le> min w (ec_ChangePointTolerance cfg) \<and>
    min 1 (1 - ec_PValueThreshold cfg) \<le> pr_ConfidenceScore r \<and> pr_ConfidenceScore r \<le> 1 \<and>
    ec_LatencyChangeThreshold cfg \<le> pr_LatencyChangeFactor r - 1 \<and> pr_DeployEventID r = ev_ID ev"
proof -
  let ?ts = "ev_Timestamp ev"
  have wb: "w \<le> max_duration" "dur_neg w = - w"
    using wrap64_bounds [of "ec_WindowMinutes cfg * minute_d"] w
    by (simp_all add: dur_mul_def max_duration_def dur_neg_def wrap64_id)
  from r obtain q t where e: "r = window_eval \<lparr>src_SamplesInRange = samples_in_range, src_AllQueryIDs = ids\<rparr>
      (?ts - w) ?ts (?ts + w) (evaluateQuery cfg ev) q t"
    unfolding analyse_def Let_def using wb(2) w(1) by (auto simp: time_add_def elim: analyseWindow_result)
  define ss where "ss = samples_in_range q (?ts - w) (?ts + w)"
  define pre where "pre = fst (partitionAt ss ?ts)"
  define post where "post = snd (partitionAt ss ?ts)"
  have re: "r = evaluateQuery cfg ev (canonicalQueryID ss q) pre post t"
    by (simp add: e window_eval_def Let_def ss_def pre_def post_def)
  have en: "enough_data cfg pre post" using det evaluateQuery_insufficient re by (metis regression_status.distinct(3))
  obtain i where i: "significant_shift cfg pre post i" "deploy_distance (change_time pre post i) ?ts \<le> ec_ChangePointTolerance cfg"
    using det evaluateQuery_rejected [OF en] re by (metis regression_status.distinct(1))
  note d = evaluateQuery_detected [OF en i(1), of ev, OF i(2), folded re]
  obtain s where s: "s \<in> set ss" "change_time pre post i = qs_RecordedAt s"
    using change_time_member [OF i(1)] by (auto simp: pre_def post_def partitionAt_def)
  have "\<bar>change_time pre post i - ?ts\<bar> \<le> w" using samples_between [OF s(1) [unfolded ss_def]] s(2) by linarith
  then have "\<bar>change_time pre post i - ?ts\<bar> \<le> min w (ec_ChangePointTolerance cfg)"
    using i(2) wb(1) deploy_distance_abs by simp
  moreover have "seg_p pre post i \<le> ec_PValueThreshold cfg" "ec_LatencyChangeThreshold cfg \<le> latency_factor pre post - 1"
    using i(1) by (simp_all add: significant_shift_found found_at_def Let_def)
  ultimately show ?thesis
    using d en evaluateQuery_factor [of cfg ev _ pre post] evaluateQuery_fields(2) by (auto simp: re)
qed

end

section \<open>Properties\<close>

text \<open>C1: The verdict on a query around a deploy is exactly the specified one: insufficient data if and
  only if a side has fewer samples than required; otherwise detected if and only if the mean latency
  rose by the threshold, the first maximum of the energy statistic over the combined series is
  positive, its time is within the tolerance of the deploy, and Welch's test on the two segments it
  defines is significant; otherwise no regression.\<close>

theorem evaluate_query_verdict:
  "pr_Status (evaluateQuery cfg ev q pre post now) =
     (if \<not> enough_data cfg pre post then StatusInsufficientData
      else if \<exists>i. significant_shift cfg pre post i \<and>
                  deploy_distance (change_time pre post i) (ev_Timestamp ev) \<le> ec_ChangePointTolerance cfg
      then StatusDetected else StatusNoRegression)"
  using evaluateQuery_insufficient evaluateQuery_detected evaluateQuery_rejected by (auto split: if_splits)

text \<open>A periodic analysis reaches the same verdict as the deploy analysis without the tolerance
  condition: detected if and only if there is enough data and a significant shift.\<close>

theorem evaluate_periodic_verdict:
  "pr_Status (evaluatePeriodic cfg q pre post now created) =
     (if \<not> enough_data cfg pre post then StatusInsufficientData
      else if \<exists>i. significant_shift cfg pre post i then StatusDetected else StatusNoRegression)"
  by (rule evaluatePeriodic_status)

text \<open>C16: The results of a window do not depend on the order in which the source lists its ids, and are exactly one
  evaluation for each known id that has no fingerprint in the window, or whose fingerprint no smaller id has there:
  the evaluation of all samples of the id in the window, split at the given time, under the id of the
  latest sample. The results are in the order of the query ids they are reported under.\<close>

theorem analyse_window_dedup:
  assumes "mset (src_AllQueryIDs src') = mset (src_AllQueryIDs src)" "src_SamplesInRange src' = src_SamplesInRange src"
    and "distinct (src_AllQueryIDs src)"
  shows "analyseWindow src' before split after evalFn clock = analyseWindow src before split after evalFn clock \<and>
    analyseWindow src before split after evalFn clock =
      sort_key pr_QueryID (evaluations (window_eval src before split after evalFn) clock 0
        (filter (\<lambda>q. window_fp src before after q = [] \<or>
             (\<forall>p\<in>set (src_AllQueryIDs src). p < q \<longrightarrow> window_fp src before after p \<noteq> window_fp src before after q))
           (sort (src_AllQueryIDs src))))"
proof -
  have "window_fp src' before after = window_fp src before after" "window_eval src' before split after evalFn = window_eval src before split after evalFn"
    by (simp_all add: fun_eq_iff window_fp_def window_eval_def assms(2))
  then have "analyseWindow src' before split after evalFn clock = analyseWindow src before split after evalFn clock"
    using sort_cong_mset [OF assms(1)] by (simp add: analyseWindow_winners)
  moreover have "sorted (sort (src_AllQueryIDs src))" "distinct (sort (src_AllQueryIDs src))" using assms(3) by simp_all
  ultimately show ?thesis by (simp add: analyseWindow_winners winners_filter)
qed

section \<open>Witness\<close>

text \<open>Four queries: 1 and 3 share a fingerprint, 2 and 4 have none.\<close>

definition rotated_sample :: "queryid \<Rightarrow> gtime \<Rightarrow> string \<Rightarrow> query_sample" where
  "rotated_sample q t f = \<lparr>qs_QueryID = q, qs_QueryText = [], qs_Calls = 1, qs_TotalExecTimeMs = 1, qs_MeanExecTimeMs = 1,
     qs_RecordedAt = t, qs_Fingerprint = f\<rparr>"

definition rotated_ids :: "queryid list \<Rightarrow> sample_src" where
  "rotated_ids ids = \<lparr>src_SamplesInRange = (\<lambda>q lo hi. [rotated_sample q 4 (if q = 1 \<or> q = 3 then ''f'' else [])]), src_AllQueryIDs = ids\<rparr>"

definition zero_eval :: eval_fn where
  "zero_eval q pre post now = base_regression [] [] [] q [] TriggerTypeDeploy now"

theorem analyse_window_dedup_witness:
  "map pr_QueryID (analyseWindow (rotated_ids [3, 2, 4, 1]) 0 5 10 zero_eval (\<lambda>_. 7)) = [1, 2, 4]"
proof -
  have s: "src_SamplesInRange (rotated_ids ids) q lo hi = [rotated_sample q 4 (if q = 1 \<or> q = 3 then ''f'' else [])]"
    "src_AllQueryIDs (rotated_ids ids) = ids" for ids q lo hi
    by (simp_all add: rotated_ids_def)
  have l: "latestFingerprint [rotated_sample q t f] = f" "canonicalQueryID [rotated_sample q t f] p = q" for q t f p
    by (simp_all add: rotated_sample_def latestFingerprint_def canonicalQueryID_def latestSample_def)
  have "src_SamplesInRange (rotated_ids [3, 2, 4, 1]) = src_SamplesInRange (rotated_ids [1, 2, 3, 4])" by (simp add: rotated_ids_def)
  then show ?thesis
    using analyse_window_dedup [of "rotated_ids [3, 2, 4, 1]" "rotated_ids [1, 2, 3, 4]" 0 5 10 zero_eval "\<lambda>_. 7"]
    by (simp add: s l window_fp_def window_eval_def zero_eval_def base_regression_def Let_def)
qed

end
