(* ===== verification/Trackers.thy ===== *)
theory Trackers
  imports Correlation_Engine
begin

text \<open>
  Who is told about a regression, and when: the retry set of deploy events
  (\<open>internal/correlation/pending.go\<close>) and the re-arm suppression of periodic analysis
  (\<open>internal/correlation/periodic.go\<close>). Both wrap the engine; what they need of an analysis is the
  locale \<open>event_analyser\<close>, interpreted on \<open>analyse\<close>. An execution is a list of steps, and the
  samples may change between steps, so each tick carries the analysis it sees.
\<close>

section \<open>Pending deploy events\<close>

record pending_event =
  pe_ev :: deploy_event
  pe_deadline :: gtime
  pe_notified :: "queryid list"

record tick_result =
  tr_Event :: deploy_event
  tr_Regression :: performance_regression

definition pending_Add :: "engine \<Rightarrow> deploy_event \<Rightarrow> pending_event list \<Rightarrow> pending_event list" where
  "pending_Add e ev ps =
     ps @ [\<lparr>pe_ev = ev, pe_deadline = time_add (ev_Timestamp ev) (analysisWindow e), pe_notified = []\<rparr>]"

fun notify_loop :: "deploy_event \<Rightarrow> performance_regression list \<Rightarrow> queryid list \<Rightarrow> tick_result list \<Rightarrow> queryid list \<times> tick_result list" where
  "notify_loop ev [] notified out = (notified, out)"
| "notify_loop ev (r # rs) notified out =
     (if pr_Status r \<noteq> StatusDetected then notify_loop ev rs notified out
      else if pr_QueryID r \<in> set notified then notify_loop ev rs notified out
      else notify_loop ev rs (set_add (pr_QueryID r) notified) (out @ [\<lparr>tr_Event = ev, tr_Regression = r\<rparr>]))"

fun tick_loop :: "(deploy_event \<Rightarrow> performance_regression list) \<Rightarrow> gtime \<Rightarrow> pending_event list \<Rightarrow>
    pending_event list \<Rightarrow> tick_result list \<Rightarrow> pending_event list \<times> tick_result list" where
  "tick_loop an now [] live out = (live, out)"
| "tick_loop an now (pe # pes) live out =
     (let (notified, out') = notify_loop (pe_ev pe) (an (pe_ev pe)) (pe_notified pe) out;
          pe' = pe\<lparr>pe_notified := notified\<rparr>
      in if time_before now (pe_deadline pe) then tick_loop an now pes (live @ [pe']) out'
         else tick_loop an now pes live out')"

definition tick_with :: "(deploy_event \<Rightarrow> performance_regression list) \<Rightarrow> gtime \<Rightarrow> pending_event list \<Rightarrow> pending_event list \<times> tick_result list" where
  "tick_with an now ps = tick_loop an now ps [] []"

definition pending_Tick :: "engine \<Rightarrow> (deploy_event \<Rightarrow> nat \<Rightarrow> gtime) \<Rightarrow> gtime \<Rightarrow> pending_event list \<Rightarrow> pending_event list \<times> tick_result list" where
  "pending_Tick e clock now ps = tick_with (\<lambda>ev. analyse e (clock ev) ev) now ps"

definition pending_Len :: "pending_event list \<Rightarrow> nat" where
  "pending_Len ps = length ps"

subsection \<open>One tick\<close>

definition newly :: "queryid list \<Rightarrow> performance_regression list \<Rightarrow> performance_regression list" where
  "newly notified rs = [r \<leftarrow> rs. pr_Status r = StatusDetected \<and> pr_QueryID r \<notin> set notified]"

definition tr_query :: "tick_result \<Rightarrow> queryid" where
  "tr_query t = pr_QueryID (tr_Regression t)"

lemma tr_query_make [simp]: "tr_query \<lparr>tr_Event = ev, tr_Regression = r\<rparr> = pr_QueryID r"
  by (simp add: tr_query_def)

lemma notify_loop_out:
  "\<exists>new. notify_loop ev rs notified out = (notified @ map tr_query new, out @ new) \<and>
     (\<forall>t\<in>set new. tr_Event t = ev \<and> tr_Regression t \<in> set rs \<and> pr_Status (tr_Regression t) = StatusDetected) \<and>
     distinct (map tr_query new) \<and>
     set (map tr_query new) = pr_QueryID ` set (newly notified rs)"
proof (induction rs arbitrary: notified out)
  case (Cons r rs)
  show ?case
  proof (cases "pr_Status r = StatusDetected \<and> pr_QueryID r \<notin> set notified")
    case True
    let ?t = "\<lparr>tr_Event = ev, tr_Regression = r\<rparr>"
    obtain new where new: "notify_loop ev rs (notified @ [pr_QueryID r]) (out @ [?t]) =
        ((notified @ [pr_QueryID r]) @ map tr_query new, (out @ [?t]) @ new)"
      "\<forall>t\<in>set new. tr_Event t = ev \<and> tr_Regression t \<in> set rs \<and> pr_Status (tr_Regression t) = StatusDetected"
      "distinct (map tr_query new)"
      "set (map tr_query new) = pr_QueryID ` set (newly (notified @ [pr_QueryID r]) rs)"
      using Cons by blast
    have "pr_QueryID ` set (newly notified (r # rs)) =
        insert (pr_QueryID r) (pr_QueryID ` set (newly (notified @ [pr_QueryID r]) rs))"
      using True by (auto simp: newly_def)
    moreover have "pr_QueryID r \<notin> pr_QueryID ` set (newly (notified @ [pr_QueryID r]) rs)" by (auto simp: newly_def)
    ultimately show ?thesis using True new
      by (intro exI [of _ "?t # new"]) (auto simp: set_add_def simp del: set_map)
  next
    case False
    then have "notify_loop ev (r # rs) notified out = notify_loop ev rs notified out"
      "newly notified (r # rs) = newly notified rs" by (auto simp: newly_def)
    then show ?thesis using Cons [of notified out] by auto
  qed
qed (auto simp: newly_def)

definition news :: "(deploy_event \<Rightarrow> performance_regression list) \<Rightarrow> pending_event \<Rightarrow> tick_result list" where
  "news an pe = snd (notify_loop (pe_ev pe) (an (pe_ev pe)) (pe_notified pe) [])"

definition tr_key :: "tick_result \<Rightarrow> string \<times> queryid" where
  "tr_key t = (ev_ID (tr_Event t), tr_query t)"

lemma notify_loop_append:
  "notify_loop ev rs notified out = (fst (notify_loop ev rs notified []), out @ snd (notify_loop ev rs notified []))"
proof (induction rs arbitrary: notified out)
  case (Cons r rs)
  let ?n = "set_add (pr_QueryID r) notified" and ?t = "\<lparr>tr_Event = ev, tr_Regression = r\<rparr>"
  show ?case using Cons [of notified out] Cons [of ?n "out @ [?t]"] Cons [of ?n "[?t]"] by simp
qed simp

lemma news_props:
  shows "\<forall>t\<in>set (news an pe). tr_Event t = pe_ev pe \<and> tr_Regression t \<in> set (an (pe_ev pe)) \<and> pr_Status (tr_Regression t) = StatusDetected"
    and "distinct (map tr_query (news an pe))"
    and "tr_query ` set (news an pe) = {pr_QueryID r | r. r \<in> set (an (pe_ev pe)) \<and> pr_Status r = StatusDetected} - set (pe_notified pe)"
    and "fst (notify_loop (pe_ev pe) (an (pe_ev pe)) (pe_notified pe) []) = pe_notified pe @ map tr_query (news an pe)"
proof -
  obtain new where new: "notify_loop (pe_ev pe) (an (pe_ev pe)) (pe_notified pe) [] = (pe_notified pe @ map tr_query new, new)"
    "\<forall>t\<in>set new. tr_Event t = pe_ev pe \<and> tr_Regression t \<in> set (an (pe_ev pe)) \<and> pr_Status (tr_Regression t) = StatusDetected"
    "distinct (map tr_query new)"
    "set (map tr_query new) = pr_QueryID ` set (newly (pe_notified pe) (an (pe_ev pe)))"
    using notify_loop_out [of "pe_ev pe" "an (pe_ev pe)" "pe_notified pe" "[]"] by auto
  have n: "news an pe = new" by (simp add: news_def new(1))
  show "\<forall>t\<in>set (news an pe). tr_Event t = pe_ev pe \<and> tr_Regression t \<in> set (an (pe_ev pe)) \<and> pr_Status (tr_Regression t) = StatusDetected"
    and "distinct (map tr_query (news an pe))" using new by (simp_all add: n)
  show "tr_query ` set (news an pe) = {pr_QueryID r | r. r \<in> set (an (pe_ev pe)) \<and> pr_Status r = StatusDetected} - set (pe_notified pe)"
    using new(4) by (auto simp: n newly_def)
  show "fst (notify_loop (pe_ev pe) (an (pe_ev pe)) (pe_notified pe) []) = pe_notified pe @ map tr_query (news an pe)"
    by (simp add: n new(1))
qed

definition ticked :: "(deploy_event \<Rightarrow> performance_regression list) \<Rightarrow> pending_event \<Rightarrow> pending_event" where
  "ticked an pe = pe\<lparr>pe_notified := pe_notified pe @ map tr_query (news an pe)\<rparr>"

lemma ticked_simps [simp]: "pe_ev (ticked an pe) = pe_ev pe" "pe_deadline (ticked an pe) = pe_deadline pe"
  by (simp_all add: ticked_def)

lemma tick_loop_eq:
  "tick_loop an now ps live out =
     (live @ map (ticked an) (filter (\<lambda>pe. now < pe_deadline pe) ps), out @ concat (map (news an) ps))"
proof (induction ps arbitrary: live out)
  case (Cons pe ps)
  have "notify_loop (pe_ev pe) (an (pe_ev pe)) (pe_notified pe) out = (pe_notified pe @ map tr_query (news an pe), out @ news an pe)"
    by (subst notify_loop_append) (simp add: news_props(4) news_def [symmetric])
  then show ?case using Cons by (simp add: time_simps ticked_def)
qed simp

lemma tick_with_eq:
  "tick_with an now ps =
     (map (ticked an) (filter (\<lambda>pe. now < pe_deadline pe) ps), concat (map (news an) ps))"
  by (simp add: tick_with_def tick_loop_eq)

subsection \<open>Executions\<close>

datatype pending_op = PAdd deploy_event | PTick "deploy_event \<Rightarrow> performance_regression list" gtime

type_synonym pending_run = "pending_event list \<times> tick_result list"

fun pending_step :: "engine \<Rightarrow> pending_op \<Rightarrow> pending_run \<Rightarrow> pending_run" where
  "pending_step e (PAdd ev) (ps, rep) = (pending_Add e ev ps, rep)"
| "pending_step e (PTick an now) (ps, rep) = (case tick_with an now ps of (ps', new) \<Rightarrow> (ps', rep @ new))"

fun added :: "pending_op list \<Rightarrow> deploy_event list" where
  "added [] = []"
| "added (PAdd ev # ops) = ev # added ops"
| "added (PTick an now # ops) = added ops"

definition pending_inv :: "string set \<Rightarrow> pending_run \<Rightarrow> bool" where
  "pending_inv ids r = (case r of (ps, rep) \<Rightarrow>
     distinct (map (\<lambda>pe. ev_ID (pe_ev pe)) ps) \<and> (\<forall>pe\<in>set ps. ev_ID (pe_ev pe) \<in> ids) \<and>
     (\<forall>t\<in>set rep. ev_ID (tr_Event t) \<in> ids \<and> pr_Status (tr_Regression t) = StatusDetected) \<and>
     distinct (map tr_key rep) \<and>
     (\<forall>pe\<in>set ps. set (pe_notified pe) = tr_query ` {t \<in> set rep. ev_ID (tr_Event t) = ev_ID (pe_ev pe)}))"

lemma pending_inv_add:
  assumes "pending_inv ids (ps, rep)" "ev_ID ev \<notin> ids"
  shows "pending_inv (insert (ev_ID ev) ids) (pending_Add e ev ps, rep)"
  using assms by (auto simp: pending_inv_def pending_Add_def image_iff)

lemma distinct_concat_news:
  assumes "distinct (map (\<lambda>pe. ev_ID (pe_ev pe)) ps)"
  shows "distinct (map tr_key (concat (map (news an) ps)))"
  using assms
proof (induction ps)
  case (Cons pe ps)
  have key: "fst (tr_key t) = ev_ID (pe_ev p)" if "t \<in> set (news an p)" for t p
    using news_props(1) [of an p] that by (simp add: tr_key_def)
  have "distinct (map tr_key (news an pe))"
    using news_props(2) [of an pe] by (auto simp: distinct_map tr_key_def inj_on_def)
  moreover have "set (map tr_key (news an pe)) \<inter> set (map tr_key (concat (map (news an) ps))) = {}"
  proof -
    have "tr_key t \<noteq> tr_key u" if "t \<in> set (news an pe)" "p \<in> set ps" "u \<in> set (news an p)" for t p u
    proof -
      have "ev_ID (pe_ev p) \<noteq> ev_ID (pe_ev pe)" using Cons.prems that(2) by (simp add: image_iff) metis
      then show ?thesis using key [OF that(1)] key [OF that(3)] by metis
    qed
    then show ?thesis by fastforce
  qed
  ultimately show ?case using Cons by simp
qed simp

lemma pending_inv_tick:
  assumes "pending_inv ids (ps, rep)"
  shows "pending_inv ids (pending_step e (PTick an now) (ps, rep))"
proof -
  let ?new = "concat (map (news an) ps)"
  have new: "tr_Event t = pe_ev pe \<and> pr_Status (tr_Regression t) = StatusDetected \<and> tr_query t \<notin> set (pe_notified pe)"
    if "pe \<in> set ps" "t \<in> set (news an pe)" for pe t
    using news_props(1) [of an pe] news_props(3) [of an pe] that by blast
  have inj: "pe = pe'" if "pe \<in> set ps" "pe' \<in> set ps" "ev_ID (pe_ev pe) = ev_ID (pe_ev pe')" for pe pe'
    using assms that by (auto simp: pending_inv_def distinct_map inj_on_def)
  have notd: "set (pe_notified pe) = tr_query ` {t \<in> set rep. ev_ID (tr_Event t) = ev_ID (pe_ev pe)}" if "pe \<in> set ps" for pe
    using assms that by (simp add: pending_inv_def)
  have "set (map tr_key rep) \<inter> set (map tr_key ?new) = {}"
  proof -
    have False if "t \<in> set rep" "pe \<in> set ps" "u \<in> set (news an pe)" "tr_key t = tr_key u" for t pe u
    proof -
      have "t \<in> {t \<in> set rep. ev_ID (tr_Event t) = ev_ID (pe_ev pe)}" "tr_query u = tr_query t"
        using new [OF that(2,3)] that(1,4) by (simp_all add: tr_key_def)
      then have "tr_query u \<in> set (pe_notified pe)" unfolding notd [OF that(2)] by (metis imageI)
      then show False using new [OF that(2,3)] by blast
    qed
    then have "tr_key t \<noteq> tr_key u" if "t \<in> set rep" "u \<in> set ?new" for t u using that by auto
    then show ?thesis by fastforce
  qed
  then have "distinct (map tr_key (rep @ ?new))"
    using assms distinct_concat_news [of ps an] by (simp add: pending_inv_def)
  moreover have "set (pe_notified (ticked an pe)) = tr_query ` {t \<in> set (rep @ ?new). ev_ID (tr_Event t) = ev_ID (pe_ev pe)}"
    if "pe \<in> set ps" for pe
  proof -
    have "{t \<in> set ?new. ev_ID (tr_Event t) = ev_ID (pe_ev pe)} = set (news an pe)"
      using new inj that by fastforce
    then have "{t \<in> set (rep @ ?new). ev_ID (tr_Event t) = ev_ID (pe_ev pe)} =
        {t \<in> set rep. ev_ID (tr_Event t) = ev_ID (pe_ev pe)} \<union> set (news an pe)" by auto
    then show ?thesis using notd [OF that] by (simp add: ticked_def image_Un)
  qed
  moreover have "distinct (map (\<lambda>pe. ev_ID (pe_ev pe)) (map (ticked an) (filter (\<lambda>pe. now < pe_deadline pe) ps)))"
    using assms by (simp add: pending_inv_def comp_def distinct_map_filter)
  moreover have "\<forall>t\<in>set (rep @ ?new). ev_ID (tr_Event t) \<in> ids \<and> pr_Status (tr_Regression t) = StatusDetected"
    using assms new by (fastforce simp: pending_inv_def)
  ultimately show ?thesis using assms by (simp add: pending_inv_def tick_with_eq)
qed

lemma pending_run_inv:
  assumes "pending_inv ids r" "distinct (map ev_ID (added ops))" "ids \<inter> ev_ID ` set (added ops) = {}"
  shows "pending_inv (ids \<union> ev_ID ` set (added ops)) (fold (pending_step e) ops r)"
  using assms
proof (induction ops arbitrary: ids r)
  case (Cons op ops)
  obtain ps rep where r: "r = (ps, rep)" by (cases r)
  show ?case
  proof (cases op)
    case (PAdd ev)
    have "pending_inv (insert (ev_ID ev) ids) (pending_step e op r)"
      using pending_inv_add [of ids ps rep ev] Cons.prems by (simp add: PAdd r)
    from Cons.IH [OF this] show ?thesis using Cons.prems(2,3) by (simp add: PAdd)
  next
    case (PTick an now)
    have "pending_inv ids (pending_step e op r)"
      using pending_inv_tick [of ids ps rep e an now] Cons.prems(1) unfolding PTick r by blast
    from Cons.IH [OF this] show ?thesis using Cons.prems(2,3) by (simp add: PTick)
  qed
qed simp

lemma pending_inv_init: "pending_inv {} ([], [])"
  by (simp add: pending_inv_def)

section \<open>Periodic analysis\<close>

text \<open>The map \<open>inRegression\<close> only ever holds the value true, so it is the list of its keys.\<close>

type_synonym periodic_tracker = "queryid list"

definition newPeriodicTracker :: periodic_tracker where "newPeriodicTracker = []"

definition periodic_result :: "performance_regression \<Rightarrow> periodic_tracker \<times> performance_regression list \<Rightarrow> periodic_tracker \<times> performance_regression list" where
  "periodic_result r st =
     (case st of (inRegression, newlyDetected) \<Rightarrow>
        if pr_Status r = StatusDetected then
          (if pr_QueryID r \<notin> set inRegression
           then (set_add (pr_QueryID r) inRegression, newlyDetected @ [r]) else (inRegression, newlyDetected))
        else if pr_QueryID r \<in> set inRegression then (set_remove (pr_QueryID r) inRegression, newlyDetected)
        else (inRegression, newlyDetected))"

definition periodic_with :: "performance_regression list \<Rightarrow> periodic_tracker \<Rightarrow> periodic_tracker \<times> performance_regression list" where
  "periodic_with rs p = fold periodic_result rs (p, [])"

definition periodic_Tick :: "engine \<Rightarrow> (nat \<Rightarrow> gtime) \<Rightarrow> gtime \<Rightarrow> periodic_tracker \<Rightarrow> periodic_tracker \<times> performance_regression list" where
  "periodic_Tick e clock now p = periodic_with (analysePeriodic e clock now) p"

definition periodic_Len :: "periodic_tracker \<Rightarrow> nat" where
  "periodic_Len p = length p"

fun periodic_run :: "performance_regression list list \<Rightarrow> periodic_tracker \<Rightarrow> periodic_tracker \<times> performance_regression list" where
  "periodic_run [] p = (p, [])"
| "periodic_run (rs # rss) p =
     (let (p', new) = periodic_with rs p; (p'', later) = periodic_run rss p' in (p'', new @ later))"

text \<open>Specification: walk through everything the ticks have seen, remembering the last status of each
  query; report a detection whose query was not detected the last time it was seen.\<close>

definition mark :: "performance_regression \<Rightarrow> (queryid \<Rightarrow> bool) \<Rightarrow> queryid \<Rightarrow> bool" where
  "mark r f = f(pr_QueryID r := (pr_Status r = StatusDetected))"

fun transitions :: "(queryid \<Rightarrow> bool) \<Rightarrow> performance_regression list \<Rightarrow> performance_regression list" where
  "transitions detected [] = []"
| "transitions detected (r # rs) =
     (let d = (pr_Status r = StatusDetected)
      in (if d \<and> \<not> detected (pr_QueryID r) then [r] else []) @ transitions (mark r detected) rs)"

definition last_detected :: "performance_regression list \<Rightarrow> queryid \<Rightarrow> bool" where
  "last_detected rs q = (case List.find (\<lambda>r. pr_QueryID r = q) (rev rs) of None \<Rightarrow> False | Some r \<Rightarrow> pr_Status r = StatusDetected)"

lemma periodic_fold:
  "\<exists>p'. fold periodic_result rs (p, out) = (p', out @ transitions (\<lambda>q. q \<in> set p) rs) \<and>
    (\<lambda>q. q \<in> set p') = fold mark rs (\<lambda>q. q \<in> set p)"
proof (induction rs arbitrary: p out)
  case (Cons r rs)
  define p1 where "p1 = fst (periodic_result r (p, out))"
  define o1 where "o1 = snd (periodic_result r (p, out))"
  have st: "periodic_result r (p, out) = (p1, o1)" by (simp add: p1_def o1_def)
  have p1: "(\<lambda>q. q \<in> set p1) = mark r (\<lambda>q. q \<in> set p)"
    by (auto simp: p1_def periodic_result_def mark_def fun_eq_iff)
  have o1: "o1 = out @ (if pr_Status r = StatusDetected \<and> pr_QueryID r \<notin> set p then [r] else [])"
    by (auto simp: o1_def periodic_result_def)
  from Cons [of p1 o1] obtain p' where "fold periodic_result rs (p1, o1) = (p', o1 @ transitions (\<lambda>q. q \<in> set p1) rs)"
    "(\<lambda>q. q \<in> set p') = fold mark rs (\<lambda>q. q \<in> set p1)" by blast
  then show ?case using p1 o1 by (simp add: st Let_def)
qed simp

lemma transitions_append:
  "transitions f (rs @ ss) = transitions f rs @ transitions (fold mark rs f) ss"
  by (induction rs arbitrary: f) (auto simp: Let_def)

lemma periodic_run_transitions:
  "\<exists>p'. periodic_run rss p = (p', transitions (\<lambda>q. q \<in> set p) (concat rss)) \<and>
    (\<lambda>q. q \<in> set p') = fold mark (concat rss) (\<lambda>q. q \<in> set p)"
proof (induction rss arbitrary: p)
  case (Cons rs rss)
  obtain p1 where p1: "periodic_with rs p = (p1, transitions (\<lambda>q. q \<in> set p) rs)"
    "(\<lambda>q. q \<in> set p1) = fold mark rs (\<lambda>q. q \<in> set p)"
    using periodic_fold [of rs p "[]"] by (auto simp: periodic_with_def)
  from Cons [of p1] show ?case using p1 by (auto simp: transitions_append)
qed simp

lemma fold_status_last_detected:
  "fold mark rs (\<lambda>q. False) = last_detected rs"
proof (induction rs rule: rev_induct)
  case (snoc r rs)
  then show ?case by (auto simp: last_detected_def mark_def fun_eq_iff)
qed (simp add: last_detected_def fun_eq_iff)

section \<open>Contract of the analysis\<close>

locale event_analyser =
  fixes an :: "deploy_event \<Rightarrow> performance_regression list"
  assumes an_event: "r \<in> set (an ev) \<Longrightarrow> pr_DeployEventID r = ev_ID ev \<and> pr_TriggerType r = TriggerTypeDeploy"
begin

lemma tick_result_event:
  assumes "t \<in> set (snd (tick_with an now ps))"
  shows "pr_DeployEventID (tr_Regression t) = ev_ID (tr_Event t) \<and> pr_TriggerType (tr_Regression t) = TriggerTypeDeploy"
proof -
  obtain pe where "pe \<in> set ps" "t \<in> set (news an pe)" using assms by (auto simp: tick_with_eq)
  then show ?thesis using news_props(1) [of an pe] an_event by auto
qed

end

lemma analyse_event:
  assumes "r \<in> set (analyse e clock ev)"
  shows "pr_DeployEventID r = ev_ID ev \<and> pr_TriggerType r = TriggerTypeDeploy"
proof -
  from assms obtain before split after q t where "r = window_eval (eng_src e) before split after (evaluateQuery (eng_cfg e) ev) q t"
    unfolding analyse_def Let_def by (elim analyseWindow_result) blast
  then show ?thesis by (simp add: window_eval_def Let_def evaluateQuery_fields)
qed

interpretation engine_analyser: event_analyser "\<lambda>ev. analyse e (clock ev) ev" for e clock
  by unfold_locales (rule analyse_event)

lemma pending_run_reports_once:
  assumes "distinct (map ev_ID (added ops))" "fold (pending_step e) ops ([], []) = (ps, reported)"
  shows "distinct (map (\<lambda>t. (ev_ID (tr_Event t), pr_QueryID (tr_Regression t))) reported) \<and>
    list_all (\<lambda>t. pr_Status (tr_Regression t) = StatusDetected \<and> ev_ID (tr_Event t) \<in> ev_ID ` set (added ops)) reported"
proof -
  have "pending_inv (ev_ID ` set (added ops)) (ps, reported)"
    using pending_run_inv [OF pending_inv_init assms(1), of e] assms(2) by simp
  moreover have "tr_key = (\<lambda>t. (ev_ID (tr_Event t), pr_QueryID (tr_Regression t)))"
    by (simp add: fun_eq_iff tr_key_def tr_query_def)
  ultimately show ?thesis by (simp add: pending_inv_def list_all_iff)
qed

section \<open>Properties\<close>

text \<open>No detection is lost before the deadline: while a deploy event is pending, a tick (the one
  that retires it included) leaves every query that its analysis detects reported for that event, and
  keeps the event pending exactly if its post-deploy window has not elapsed.\<close>

theorem pending_tick_complete:
  assumes "distinct (map ev_ID (added ops))" "fold (pending_step e) ops ([], []) = (ps, reported)"
    and "fold (pending_step e) (ops @ [PTick an now]) ([], []) = (ps', reported')" "pe \<in> set ps"
  shows "pr_QueryID ` {r \<in> set (an (pe_ev pe)). pr_Status r = StatusDetected} \<subseteq>
         tr_query ` {t \<in> set reported'. ev_ID (tr_Event t) = ev_ID (pe_ev pe)} \<and>
    (pe_ev pe \<in> pe_ev ` set ps') = (now < pe_deadline pe)"
proof -
  have inv: "pending_inv (ev_ID ` set (added ops)) (ps, reported)"
    using pending_run_inv [OF pending_inv_init assms(1), of e] assms(2) by simp
  have run: "ps' = map (ticked an) (filter (\<lambda>pe. now < pe_deadline pe) ps)" "reported' = reported @ concat (map (news an) ps)"
    using assms(2,3) by (simp_all add: tick_with_eq)
  have "set (pe_notified pe) \<subseteq> tr_query ` {t \<in> set reported'. ev_ID (tr_Event t) = ev_ID (pe_ev pe)}"
    using inv assms(4) by (auto simp: pending_inv_def run(2))
  moreover have "set (news an pe) \<subseteq> {t \<in> set reported'. ev_ID (tr_Event t) = ev_ID (pe_ev pe)}"
    using assms(4) news_props(1) [of an pe] by (auto simp: run(2))
  then have "tr_query ` set (news an pe) \<subseteq> tr_query ` {t \<in> set reported'. ev_ID (tr_Event t) = ev_ID (pe_ev pe)}"
    by (rule image_mono)
  moreover have "pr_QueryID ` {r \<in> set (an (pe_ev pe)). pr_Status r = StatusDetected} \<subseteq>
      set (pe_notified pe) \<union> tr_query ` set (news an pe)"
    using news_props(3) [of an pe] by auto
  moreover have "(pe_ev pe \<in> pe_ev ` set ps') = (now < pe_deadline pe)"
  proof -
    have "inj_on (\<lambda>pe. ev_ID (pe_ev pe)) (set ps)" using inv by (simp add: pending_inv_def distinct_map)
    then have "p = pe" if "p \<in> set ps" "pe_ev p = pe_ev pe" for p
      using that assms(4) by (auto simp: inj_on_def)
    then show ?thesis using assms(4) by (auto simp: run(1) image_iff)
  qed
  ultimately show ?thesis by blast
qed

text \<open>C13: Over any sequence of periodic ticks, what is reported is exactly the detections whose query was
  not detected when it was last seen; a query is suppressed exactly while the last result seen for it
  was a detection, so one that disappears from the results stays suppressed.\<close>

theorem periodic_reports_transitions:
  "snd (periodic_run rss newPeriodicTracker) = transitions (\<lambda>q. False) (concat rss) \<and>
   (\<lambda>q. q \<in> set (fst (periodic_run rss newPeriodicTracker))) = last_detected (concat rss)"
  using periodic_run_transitions [of rss newPeriodicTracker]
  by (auto simp: newPeriodicTracker_def fold_status_last_detected)

section \<open>Witnesses\<close>

definition sample_event :: "string \<Rightarrow> gtime \<Rightarrow> deploy_event" where
  "sample_event i t = \<lparr>ev_ID = i, ev_Source = ''src'', ev_App = ''app'', ev_Cluster = ''c'', ev_Namespace = ''ns'',
     ev_Revision = ''r'', ev_ImageTag = [], ev_Timestamp = t\<rparr>"

definition sample_engine :: engine where
  "sample_engine = new_engine \<lparr>ec_Namespace = ''ns'', ec_WindowMinutes = 30, ec_MinExecutions = 1,
     ec_LatencyChangeThreshold = 1 / 5, ec_PValueThreshold = 1 / 20, ec_PeriodicWindowMinutes = 60, ec_ChangePointTolerance = 0\<rparr>
     \<lparr>src_SamplesInRange = (\<lambda>q lo hi. []), src_AllQueryIDs = []\<rparr>"

definition detected_now :: "deploy_event \<Rightarrow> performance_regression list" where
  "detected_now ev = [as_detected zero_stats (base_regression ''n'' ''ns'' (ev_ID ev) 7 [] TriggerTypeDeploy 0)]"

theorem pending_tick_complete_witness:
  "pr_QueryID ` {r \<in> set (detected_now (sample_event ''a'' 0)). pr_Status r = StatusDetected} \<subseteq>
   tr_query ` {t \<in> set (snd (fold (pending_step sample_engine) ([PAdd (sample_event ''a'' 0)] @ [PTick detected_now 1]) ([], []))).
     ev_ID (tr_Event t) = ''a''}"
proof -
  let ?pe = "\<lparr>pe_ev = sample_event ''a'' 0, pe_deadline = time_add 0 (analysisWindow sample_engine), pe_notified = []\<rparr>"
  have "fold (pending_step sample_engine) [PAdd (sample_event ''a'' 0)] ([], []) = ([?pe], [])"
    by (simp add: pending_Add_def sample_event_def)
  from pending_tick_complete [OF _ this surjective_pairing, of ?pe detected_now 1]
  show ?thesis by (simp add: sample_event_def)
qed

end
