(* ===== verification/Go_Net.thy ===== *)
theory Go_Net
  imports Go_Strings
begin

text \<open>
  The part of Go's \<open>net\<close> package that the destination checks use: \<open>net.ParseIP\<close> and \<open>net.ParseCIDR\<close>
  as executable functions (through \<open>netip.ParseAddr\<close>), the classification methods of \<open>net.IP\<close>, and
  \<open>IPNet.Contains\<close>. An address is a list of bytes, of length 16 as \<open>ParseIP\<close> returns it.
\<close>

unbundle bit_operations_syntax

type_synonym ip = "8 word list"

section \<open>Parsing\<close>

definition dec_octet :: "string \<Rightarrow> 8 word option" where
  "dec_octet s =
     (if s = [] \<or> \<not> list_all is_digit s \<or> (hd s = CHR ''0'' \<and> length s \<noteq> 1) \<or> 255 < parse_digits 10 s then None
      else Some (word_of_nat (parse_digits 10 s)))"

definition parse_v4 :: "string \<Rightarrow> ip option" where
  "parse_v4 s =
     (case map dec_octet (split_on CHR ''.'' s) of
        [Some a, Some b, Some c, Some d] \<Rightarrow> Some [a, b, c, d]
      | _ \<Rightarrow> None)"

definition is_hex :: "char \<Rightarrow> bool" where
  "is_hex c \<longleftrightarrow> is_digit c \<or> char_in CHR ''a'' CHR ''f'' c \<or> char_in CHR ''A'' CHR ''F'' c"

definition hex_group :: "string \<Rightarrow> 16 word" where
  "hex_group s = foldl (\<lambda>a c. push_bit 4 a + word_of_nat (digit_value c)) 0 (to_lower s)"

fun v6_groups :: "nat \<Rightarrow> string \<Rightarrow> ip \<Rightarrow> nat option \<Rightarrow> (ip \<times> nat option \<times> string) option" where
  "v6_groups 0 s acc ell = Some (acc, ell, s)"
| "v6_groups (Suc k) s acc ell =
     (let hex = takeWhile is_hex s; rest = dropWhile is_hex s; v = hex_group hex
      in if hex = [] \<or> 4 < length hex then None
         else (case rest of
                 [] \<Rightarrow> Some (acc @ [ucast (drop_bit 8 v), ucast v], ell, [])
               | c # s1 \<Rightarrow>
                   if c = CHR ''.'' then
                     (if (ell = None \<and> length acc \<noteq> 12) \<or> 16 < length acc + 4 then None
                      else map_option (\<lambda>b. (acc @ b, ell, [])) (parse_v4 s))
                   else if c \<noteq> CHR '':'' then None
                   else
                     (let acc' = acc @ [ucast (drop_bit 8 v), ucast v]
                      in (case s1 of
                            [] \<Rightarrow> None
                          | d # s2 \<Rightarrow>
                              if d \<noteq> CHR '':'' then v6_groups k s1 acc' ell
                              else if ell \<noteq> None then None
                              else if s2 = [] then Some (acc', Some (length acc'), [])
                              else v6_groups k s2 acc' (Some (length acc'))))))"

definition v6_expand :: "(ip \<times> nat option \<times> string) option \<Rightarrow> ip option" where
  "v6_expand r =
     (case r of None \<Rightarrow> None
      | Some (acc, ell, s) \<Rightarrow>
          if s \<noteq> [] then None
          else if length acc < 16 then
            (case ell of None \<Rightarrow> None | Some e \<Rightarrow> Some (take e acc @ replicate (16 - length acc) 0 @ drop e acc))
          else if ell \<noteq> None then None else Some acc)"

definition parse_v6 :: "string \<Rightarrow> ip option" where
  "parse_v6 s =
     (if CHR ''%'' \<in> set s then None
      else if has_prefix s ''::'' then
        (if drop 2 s = [] then Some (replicate 16 0) else v6_expand (v6_groups 8 (drop 2 s) [] (Some 0)))
      else v6_expand (v6_groups 8 s [] None))"

datatype addr = V4 ip | V6 ip

definition parse_addr :: "string \<Rightarrow> addr option" where
  "parse_addr s =
     (case List.find (\<lambda>c. c = CHR ''.'' \<or> c = CHR '':'' \<or> c = CHR ''%'') s of
        None \<Rightarrow> None
      | Some c \<Rightarrow>
          if c = CHR ''.'' then map_option V4 (parse_v4 s)
          else if c = CHR '':'' then map_option V6 (parse_v6 s) else None)"

definition v4_prefix :: ip where "v4_prefix = replicate 10 0 @ [255, 255]"

definition as16 :: "addr \<Rightarrow> ip" where
  "as16 a = (case a of V4 b \<Rightarrow> v4_prefix @ b | V6 b \<Rightarrow> b)"

definition parse_ip :: "string \<Rightarrow> ip option" where
  "parse_ip s = map_option as16 (parse_addr s)"

section \<open>Methods of addresses and networks\<close>

definition to4 :: "ip \<Rightarrow> ip option" where
  "to4 a = (if length a = 4 then Some a else if length a = 16 \<and> take 12 a = v4_prefix then Some (drop 12 a) else None)"

definition ip_equal :: "ip \<Rightarrow> ip \<Rightarrow> bool" where
  "ip_equal a b \<longleftrightarrow> a = b \<or> (to4 a \<noteq> None \<and> to4 a = to4 b)"

definition isLoopback :: "ip \<Rightarrow> bool" where
  "isLoopback a = (case to4 a of Some b \<Rightarrow> b ! 0 = 127 | None \<Rightarrow> a = replicate 15 0 @ [1])"

definition isLinkLocalUnicast :: "ip \<Rightarrow> bool" where
  "isLinkLocalUnicast a = (case to4 a of Some b \<Rightarrow> b ! 0 = 169 \<and> b ! 1 = 254
     | None \<Rightarrow> length a = 16 \<and> a ! 0 = 0xFE \<and> (a ! 1) AND 0xC0 = 0x80)"

definition isLinkLocalMulticast :: "ip \<Rightarrow> bool" where
  "isLinkLocalMulticast a = (case to4 a of Some b \<Rightarrow> b ! 0 = 224 \<and> b ! 1 = 0 \<and> b ! 2 = 0
     | None \<Rightarrow> length a = 16 \<and> a ! 0 = 0xFF \<and> (a ! 1) AND 0x0F = 0x02)"

definition isUnspecified :: "ip \<Rightarrow> bool" where
  "isUnspecified a \<longleftrightarrow> ip_equal a (v4_prefix @ [0, 0, 0, 0]) \<or> ip_equal a (replicate 16 0)"

definition mask_byte :: "nat \<Rightarrow> 8 word" where
  "mask_byte n = (if 8 \<le> n then 255 else NOT (drop_bit n 255))"

definition cidr_mask :: "nat \<Rightarrow> nat \<Rightarrow> ip" where
  "cidr_mask n len = map (\<lambda>i. mask_byte (n - 8 * i)) [0..<len]"

definition ip_mask :: "ip \<Rightarrow> ip \<Rightarrow> ip" where
  "ip_mask a m = map2 (AND) a m"

record ip_net =
  net_IP :: ip
  net_Mask :: ip

definition parse_cidr :: "string \<Rightarrow> ip_net option" where
  "parse_cidr s =
     (let a = takeWhile (\<lambda>c. c \<noteq> CHR ''/'') s; m = drop (Suc (length a)) s
      in if CHR ''/'' \<notin> set s then None
         else (case parse_addr a of
                 None \<Rightarrow> None
               | Some ad \<Rightarrow>
                   (let b = (case ad of V4 b \<Rightarrow> b | V6 b \<Rightarrow> b)
                    in if m = [] \<or> \<not> list_all is_digit m \<or> 8 * length b < parse_digits 10 m then None
                       else Some \<lparr>net_IP = ip_mask b (cidr_mask (parse_digits 10 m) (length b)),
                                  net_Mask = cidr_mask (parse_digits 10 m) (length b)\<rparr>)))"

text \<open>\<open>networkNumberAndMask\<close>: a network given as a 16-byte IPv4 address is reduced to 4 bytes.\<close>

definition net_contains :: "ip_net \<Rightarrow> ip \<Rightarrow> bool" where
  "net_contains n a =
     (let nn = (case to4 (net_IP n) of Some b \<Rightarrow> b | None \<Rightarrow> net_IP n);
          m = (if length (net_Mask n) = 16 \<and> length nn = 4 then drop 12 (net_Mask n) else net_Mask n);
          x = (case to4 a of Some b \<Rightarrow> b | None \<Rightarrow> a)
      in length x = length nn \<and> length m = length nn \<and> ip_mask nn m = ip_mask x m)"


end
