(* ===== verification/Alerting.thy ===== *)
theory Alerting
  imports Planner Go_Net
begin

text \<open>
  Alert delivery (\<open>internal/alerting\<close>): the destination policies and the checks on a webhook URL, the
  choice of a formatter, the four payload layouts, and delivery with its counters. \<open>url.Parse\<close>,
  \<open>text/template\<close> and the HTTP client are arguments (records of functions); \<open>net.ParseIP\<close> and the
  other address functions are those of \<open>Go_Net\<close>. A payload is the JSON value that \<open>json.Marshal\<close>
  encodes; marshalling these values cannot fail.
\<close>

section \<open>Configuration\<close>

definition permissive_policy :: string where "permissive_policy = ''permissive''"
definition allowlist_policy :: string where "allowlist_policy = ''allowlist''"
definition relay_only_policy :: string where "relay_only_policy = ''relay-only''"

record build_config =
  bc_Format :: string
  bc_URL :: string
  bc_PagerDutyRoutingKey :: string
  bc_CustomTemplate :: string
  bc_CustomContentType :: string
  bc_AllowedDestinations :: "string list"
  bc_DestinationPolicy :: string
  bc_RelayURL :: string
  bc_ClusterName :: string
  bc_Timeout :: duration

text \<open>The URL library answers with an error or the scheme and \<open>Hostname()\<close>.\<close>

type_synonym url_parser = "string \<Rightarrow> string + (string \<times> string)"

definition resolveDestinationURL :: "build_config \<Rightarrow> string + string" where
  "resolveDestinationURL cfg =
     (let p = bc_DestinationPolicy cfg
      in if p = relay_only_policy then
           (if bc_RelayURL cfg = [] then Inl (''alerting: destination policy '' @ go_quote p @ '' requires --alerting-destination-policy-relay-url to be set'')
            else Inr (bc_RelayURL cfg))
         else if p = allowlist_policy then
           (if bc_AllowedDestinations cfg = [] then Inl (''alerting: destination policy '' @ go_quote p @ '' requires --alerting-allowed-destinations to be non-empty'')
            else Inr (bc_URL cfg))
         else if p = permissive_policy \<or> p = [] then Inr (bc_URL cfg)
         else Inl (''alerting: unknown destination policy '' @ go_quote p @ '' (want permissive, allowlist, or relay-only)''))"

definition validateDestinationPolicy :: "string \<Rightarrow> string \<Rightarrow> string option" where
  "validateDestinationPolicy p relayUrl =
     (if p = relay_only_policy then
        (if relayUrl = [] then Some (''alerting: destination policy '' @ go_quote p @ '' requires --alerting-destination-policy-relay-url to be set'') else None)
      else if p = allowlist_policy \<or> p = permissive_policy \<or> p = [] then None
      else Some (''alerting: unknown destination policy '' @ go_quote p @ '' (want permissive, allowlist, or relay-only)''))"

section \<open>Destinations\<close>

definition blockedAlertDestinationHosts :: "string list" where
  "blockedAlertDestinationHosts = [''metadata.google.internal'', ''metadata.internal'', ''metadata.azure.com'', ''localhost'']"

definition isBlockedAlertDestinationHost :: "string \<Rightarrow> bool" where
  "isBlockedAlertDestinationHost host =
     (let h = to_lower host in h \<in> set blockedAlertDestinationHosts \<or> has_suffix h ''.localhost'')"

definition valid_label :: "string \<Rightarrow> bool" where
  "valid_label l \<longleftrightarrow> l \<noteq> [] \<and> length l \<le> 63 \<and> hd l \<noteq> CHR ''-'' \<and> last l \<noteq> CHR ''-'' \<and>
     list_all (\<lambda>c. is_lower c \<or> is_upper c \<or> is_digit c \<or> c = CHR ''-'') l"

definition isValidAllowedHostname :: "string \<Rightarrow> bool" where
  "isValidAllowedHostname host =
     (if host = [] \<or> str_contains host ''://'' \<or> list_ex (\<lambda>c. c \<in> set ''/[]'') host then False
      else list_all valid_label (split_on CHR ''.'' host))"

text \<open>An allowlist entry, in the order in which both functions below try the readings.\<close>

datatype destination = Blank | Network ip_net | Address ip | HostName string

definition classify_destination :: "string \<Rightarrow> destination" where
  "classify_destination raw =
     (let entry = trim_space raw
      in if entry = [] then Blank
         else (case parse_cidr entry of Some n \<Rightarrow> Network n
               | None \<Rightarrow> (case parse_ip entry of Some a \<Rightarrow> Address a | None \<Rightarrow> HostName entry)))"

fun validateAllowedDestinations :: "string list \<Rightarrow> string option" where
  "validateAllowedDestinations [] = None"
| "validateAllowedDestinations (raw # raws) =
     (case classify_destination raw of
        HostName entry \<Rightarrow>
          if isValidAllowedHostname entry then validateAllowedDestinations raws
          else Some (''alerting: invalid allowed destination '' @ go_quote raw @ '' (want an exact hostname, IP, or CIDR)'')
      | _ \<Rightarrow> validateAllowedDestinations raws)"

definition trim_brackets :: "string \<Rightarrow> string" where
  "trim_brackets s = (let br = (\<lambda>c. c = CHR 0x5B \<or> c = CHR 0x5D) in rev (dropWhile br (rev (dropWhile br s))))"

fun matchesAllowedDestination :: "string \<Rightarrow> string list \<Rightarrow> bool" where
  "matchesAllowedDestination host [] = False"
| "matchesAllowedDestination host (raw # raws) =
     (let hostIP = parse_ip (trim_brackets host)
      in (case classify_destination raw of
            Blank \<Rightarrow> matchesAllowedDestination host raws
          | Network n \<Rightarrow> (case hostIP of Some a \<Rightarrow> net_contains n a | None \<Rightarrow> False) \<or> matchesAllowedDestination host raws
          | Address b \<Rightarrow> (case hostIP of Some a \<Rightarrow> ip_equal a b | None \<Rightarrow> False) \<or> matchesAllowedDestination host raws
          | HostName entry \<Rightarrow> to_lower host = to_lower entry \<or> matchesAllowedDestination host raws))"

definition internal_address :: "ip \<Rightarrow> bool" where
  "internal_address a \<longleftrightarrow> isLoopback a \<or> isLinkLocalUnicast a \<or> isLinkLocalMulticast a \<or> isUnspecified a"

definition validateWebhookURL :: "url_parser \<Rightarrow> string \<Rightarrow> string list \<Rightarrow> string option" where
  "validateWebhookURL parse rawURL allowed =
     (if rawURL = [] then Some ''alerting: webhook url is empty''
      else (case parse rawURL of
              Inl err \<Rightarrow> Some (''alerting: invalid webhook url '' @ go_quote rawURL @ '': '' @ err)
            | Inr (scheme, host) \<Rightarrow>
                if scheme \<noteq> ''http'' \<and> scheme \<noteq> ''https'' then
                  Some (''alerting: webhook url '' @ go_quote rawURL @ '' uses scheme '' @ go_quote scheme @ ''; only http and https are allowed'')
                else if host = [] then Some (''alerting: webhook url '' @ go_quote rawURL @ '' has no host'')
                else if isBlockedAlertDestinationHost host then
                  Some (''alerting: webhook url '' @ go_quote rawURL @ '' targets a blocked metadata or loopback hostname, which is never a valid alert destination'')
                else if (case parse_ip (trim_brackets host) of Some a \<Rightarrow> internal_address a | None \<Rightarrow> False) then
                  Some (''alerting: webhook url '' @ go_quote rawURL @ '' targets a loopback or link-local address (this includes the 169.254.169.254 cloud metadata address), which is never a valid alert destination'')
                else if allowed \<noteq> [] \<and> \<not> matchesAllowedDestination host allowed then
                  Some (''alerting: webhook url '' @ go_quote rawURL @ '' host '' @ go_quote host @ '' is not in the configured alerting destination allowlist'')
                else None))"

section \<open>Payloads\<close>

text \<open>\<open>Time.Format(time.RFC3339)\<close> of a UTC time: the proleptic Gregorian date of a day number counted
  from 1 March of year 0.\<close>

definition civil_date :: "int \<Rightarrow> int \<times> int \<times> int" where
  "civil_date z =
     (let era = z div 146097; doe = z mod 146097;
          yoe = (doe - doe div 1460 + doe div 36524 - doe div 146096) div 365;
          doy = doe - (365 * yoe + yoe div 4 - yoe div 100);
          mp = (5 * doy + 2) div 153;
          d = doy - (153 * mp + 2) div 5 + 1;
          m = (if mp < 10 then mp + 3 else mp - 9);
          y = yoe + era * 400
      in (if m \<le> 2 then y + 1 else y, m, d))"

definition pad_int :: "nat \<Rightarrow> int \<Rightarrow> string" where
  "pad_int n x = pad_left n (format_uint 10 (nat x))"

definition format_rfc3339 :: "gtime \<Rightarrow> string" where
  "format_rfc3339 t =
     (let secs = t div 1000000000; tod = secs mod 86400;
          (y, m, d) = civil_date (secs div 86400 + 306)
      in pad_int 4 y @ ''-'' @ pad_int 2 m @ ''-'' @ pad_int 2 d @ ''T'' @
         pad_int 2 (tod div 3600) @ '':'' @ pad_int 2 (tod div 60 mod 60) @ '':'' @ pad_int 2 (tod mod 60) @ ''Z'')"

datatype alert_body = JsonBody json | TextBody string

definition percent :: "real \<Rightarrow> string" where "percent x = format_fixed 0 (x * 100) @ ''%''"

definition warning_note :: string where
  "warning_note = [CHR 0xE2, CHR 0x9A, CHR 0xA0, CHR 0xEF, CHR 0xB8, CHR 0x8F] @ '' Note''"

record slack_field =
  sf_Title :: string
  sf_Value :: string
  sf_Short :: bool

definition slack_fields :: "performance_regression \<Rightarrow> slack_field list" where
  "slack_fields r =
     [\<lparr>sf_Title = ''Deploy Event'', sf_Value = pr_DeployEventID r, sf_Short = True\<rparr>,
      \<lparr>sf_Title = ''Query ID'', sf_Value = format_int (pr_QueryID r), sf_Short = True\<rparr>,
      \<lparr>sf_Title = ''Query (excerpt)'', sf_Value = pr_QueryText r, sf_Short = False\<rparr>,
      \<lparr>sf_Title = ''Latency Before'', sf_Value = format_fixed 2 (pr_MeanLatencyBefore r) @ '' ms'', sf_Short = True\<rparr>,
      \<lparr>sf_Title = ''Latency After'', sf_Value = format_fixed 2 (pr_MeanLatencyAfter r) @ '' ms'', sf_Short = True\<rparr>,
      \<lparr>sf_Title = ''Change Factor'', sf_Value = format_fixed 2 (pr_LatencyChangeFactor r) @ ''x'', sf_Short = True\<rparr>,
      \<lparr>sf_Title = ''Confidence'', sf_Value = percent (pr_ConfidenceScore r), sf_Short = True\<rparr>,
      \<lparr>sf_Title = ''Change Point'', sf_Value = format_rfc3339 (pr_DetectedChangeAt r), sf_Short = True\<rparr>] @
     (if pr_ExternalCauseSuspected r
      then [\<lparr>sf_Title = warning_note, sf_Value = ''External cause suspected (CPU/IO also changed).'', sf_Short = False\<rparr>] else []) @
     (if pr_PlanDiffSummary r \<noteq> []
      then [\<lparr>sf_Title = ''Plan Diff'', sf_Value = pr_PlanDiffSummary r, sf_Short = False\<rparr>] else [])"

definition slack_Format :: "performance_regression \<Rightarrow> string \<Rightarrow> alert_body \<times> string" where
  "slack_Format r cluster =
     (JsonBody (JObj
        [(''text'', JStr ('':rotating_light: *pg-regression-radar* '' @ em_dash @ '' performance regression detected on cluster *'' @ cluster @ ''*'')),
         (''attachments'', JArr [JObj
            [(''color'', JStr (if pr_ExternalCauseSuspected r then ''warning'' else ''danger'')),
             (''fields'', JArr (map (\<lambda>f. JObj [(''title'', JStr (sf_Title f)), (''value'', JStr (sf_Value f)), (''short'', JBool (sf_Short f))])
                (slack_fields r)))]])]),
      ''application/json'')"

record teams_fact =
  tf_Name :: string
  tf_Value :: string

definition teams_facts :: "performance_regression \<Rightarrow> teams_fact list" where
  "teams_facts r =
     [\<lparr>tf_Name = ''Deploy Event'', tf_Value = pr_DeployEventID r\<rparr>,
      \<lparr>tf_Name = ''Query ID'', tf_Value = format_int (pr_QueryID r)\<rparr>,
      \<lparr>tf_Name = ''Query (excerpt)'', tf_Value = pr_QueryText r\<rparr>,
      \<lparr>tf_Name = ''Latency Before'', tf_Value = format_fixed 2 (pr_MeanLatencyBefore r) @ '' ms''\<rparr>,
      \<lparr>tf_Name = ''Latency After'', tf_Value = format_fixed 2 (pr_MeanLatencyAfter r) @ '' ms''\<rparr>,
      \<lparr>tf_Name = ''Change Factor'', tf_Value = format_fixed 2 (pr_LatencyChangeFactor r) @ ''x''\<rparr>,
      \<lparr>tf_Name = ''Confidence'', tf_Value = percent (pr_ConfidenceScore r)\<rparr>,
      \<lparr>tf_Name = ''Change Point'', tf_Value = format_rfc3339 (pr_DetectedChangeAt r)\<rparr>] @
     (if pr_ExternalCauseSuspected r
      then [\<lparr>tf_Name = warning_note, tf_Value = ''External cause suspected (CPU/IO also changed).''\<rparr>] else []) @
     (if pr_PlanDiffSummary r \<noteq> [] then [\<lparr>tf_Name = ''Plan Diff'', tf_Value = pr_PlanDiffSummary r\<rparr>] else [])"

definition siren :: string where "siren = [CHR 0xF0, CHR 0x9F, CHR 0x9A, CHR 0xA8]"

definition teams_Format :: "performance_regression \<Rightarrow> string \<Rightarrow> alert_body \<times> string" where
  "teams_Format r cluster =
     (JsonBody (JObj
        [(''@type'', JStr ''MessageCard''), (''@context'', JStr ''http://schema.org/extensions''),
         (''themeColor'', JStr (if pr_ExternalCauseSuspected r then ''E8A33D'' else ''D93F3F'')),
         (''summary'', JStr (''pg-regression-radar '' @ em_dash @ '' performance regression detected on cluster '' @ cluster)),
         (''sections'', JArr [JObj
            [(''activityTitle'', JStr (siren @ '' **pg-regression-radar** '' @ em_dash @ '' performance regression detected on cluster **'' @ cluster @ ''**'')),
             (''facts'', JArr (map (\<lambda>f. JObj [(''name'', JStr (tf_Name f)), (''value'', JStr (tf_Value f))]) (teams_facts r))),
             (''markdown'', JBool True)]])]),
      ''application/json'')"

definition pagerDutyEventsURL :: string where "pagerDutyEventsURL = ''https://events.pagerduty.com/v2/enqueue''"

definition dedup_key :: "performance_regression \<Rightarrow> string" where
  "dedup_key r = pr_DeployEventID r @ ''-q'' @ format_int (pr_QueryID r)"

text \<open>The details are a Go map, which \<open>json.Marshal\<close> writes in the order of its keys.\<close>

definition pagerduty_details :: "performance_regression \<Rightarrow> json" where
  "pagerduty_details r = JObj (
     [(''change_point'', JStr (format_rfc3339 (pr_DetectedChangeAt r))),
      (''confidence'', JStr (percent (pr_ConfidenceScore r))),
      (''external_cause_note'', JBool (pr_ExternalCauseSuspected r)),
      (''latency_after_ms'', JStr (format_fixed 2 (pr_MeanLatencyAfter r))),
      (''latency_before_ms'', JStr (format_fixed 2 (pr_MeanLatencyBefore r))),
      (''latency_change'', JStr (format_fixed 2 (pr_LatencyChangeFactor r) @ ''x''))] @
     (if pr_PlanDiffSummary r \<noteq> [] then [(''plan_diff'', JStr (pr_PlanDiffSummary r))] else []) @
     [(''query_id'', JNum (of_int (pr_QueryID r))), (''query_text'', JStr (pr_QueryText r))])"

definition pagerduty_Format :: "string \<Rightarrow> performance_regression \<Rightarrow> string \<Rightarrow> alert_body \<times> string" where
  "pagerduty_Format key r cluster =
     (JsonBody (JObj
        [(''routing_key'', JStr key), (''event_action'', JStr ''trigger''), (''dedup_key'', JStr (dedup_key r)),
         (''payload'', JObj
            [(''summary'', JStr (''pg-regression-radar: query '' @ format_int (pr_QueryID r) @ '' latency changed '' @
                format_fixed 2 (pr_LatencyChangeFactor r) @ ''x on cluster '' @ cluster)),
             (''source'', JStr cluster),
             (''severity'', JStr (if pr_ExternalCauseSuspected r then ''warning'' else ''critical'')),
             (''timestamp'', JStr (format_rfc3339 (pr_DetectedChangeAt r))),
             (''custom_details'', pagerduty_details r)])]),
      ''application/json'')"

record custom_data =
  cd_ClusterName :: string
  cd_DeployEventID :: string
  cd_QueryID :: queryid
  cd_QueryText :: string
  cd_ConfidenceScore :: real
  cd_ConfidencePercent :: string
  cd_MeanLatencyBeforeMs :: string
  cd_MeanLatencyAfterMs :: string
  cd_LatencyChangeFactor :: string
  cd_ChangePointRFC3339 :: string
  cd_ExternalCauseSuspected :: bool
  cd_PlanDiffSummary :: string

type_synonym tmpl = "custom_data \<Rightarrow> string + string"

definition custom_template_data :: "performance_regression \<Rightarrow> string \<Rightarrow> custom_data" where
  "custom_template_data r cluster =
     \<lparr>cd_ClusterName = cluster, cd_DeployEventID = pr_DeployEventID r, cd_QueryID = pr_QueryID r, cd_QueryText = pr_QueryText r,
      cd_ConfidenceScore = pr_ConfidenceScore r, cd_ConfidencePercent = percent (pr_ConfidenceScore r),
      cd_MeanLatencyBeforeMs = format_fixed 2 (pr_MeanLatencyBefore r), cd_MeanLatencyAfterMs = format_fixed 2 (pr_MeanLatencyAfter r),
      cd_LatencyChangeFactor = format_fixed 2 (pr_LatencyChangeFactor r) @ ''x'', cd_ChangePointRFC3339 = format_rfc3339 (pr_DetectedChangeAt r),
      cd_ExternalCauseSuspected = pr_ExternalCauseSuspected r, cd_PlanDiffSummary = pr_PlanDiffSummary r\<rparr>"

datatype formatter = SlackFormatter | TeamsFormatter | PagerDutyFormatter string | CustomFormatter tmpl string | NoopFormatter

definition newCustomFormatter :: "(string \<Rightarrow> string + tmpl) \<Rightarrow> string \<Rightarrow> string \<Rightarrow> string + formatter" where
  "newCustomFormatter parse src contentType =
     (case parse src of
        Inl err \<Rightarrow> Inl (''alerting: parse custom template: '' @ err)
      | Inr t \<Rightarrow> Inr (CustomFormatter t (if contentType = [] then ''application/json'' else contentType)))"

definition formatter_Format :: "formatter \<Rightarrow> performance_regression \<Rightarrow> string \<Rightarrow> string + (alert_body \<times> string)" where
  "formatter_Format f r cluster =
     (case f of
        SlackFormatter \<Rightarrow> Inr (slack_Format r cluster)
      | TeamsFormatter \<Rightarrow> Inr (teams_Format r cluster)
      | PagerDutyFormatter key \<Rightarrow> Inr (pagerduty_Format key r cluster)
      | CustomFormatter t ct \<Rightarrow>
          (case t (custom_template_data r cluster) of
             Inl err \<Rightarrow> Inl (''alerting: execute custom template: '' @ err) | Inr b \<Rightarrow> Inr (TextBody b, ct))
      | NoopFormatter \<Rightarrow> Inr (JsonBody (JObj []), ''application/json''))"

section \<open>Notifier\<close>

text \<open>The two counter vectors are part of the state: their values by label.\<close>

record notifier =
  wn_URL :: string
  wn_Timeout :: duration
  wn_ClusterName :: string
  wn_Formatter :: formatter
  wn_notificationsTotal :: "(string \<times> string, nat) gomap"
  wn_regressionsDetectedTotal :: "(string \<times> string, nat) gomap"

definition newWebhookNotifier :: "string \<Rightarrow> duration \<Rightarrow> string \<Rightarrow> formatter option \<Rightarrow> notifier" where
  "newWebhookNotifier url timeout cluster f =
     \<lparr>wn_URL = url, wn_Timeout = (if timeout = 0 then 10 * second_d else timeout), wn_ClusterName = cluster,
      wn_Formatter = (case f of None \<Rightarrow> SlackFormatter | Some g \<Rightarrow> g),
      wn_notificationsTotal = [], wn_regressionsDetectedTotal = []\<rparr>"

definition unknown_format :: "string \<Rightarrow> string" where
  "unknown_format f = ''alerting: unknown format '' @ go_quote f @ '' (want slack, teams, pagerduty, or custom)''"

definition choose_formatter :: "(string \<Rightarrow> string + tmpl) \<Rightarrow> build_config \<Rightarrow> string \<Rightarrow> string \<Rightarrow> string + (formatter \<times> string)" where
  "choose_formatter parseT cfg fmt url =
     (if fmt = ''slack'' then Inr (SlackFormatter, url)
      else if fmt = ''teams'' then Inr (TeamsFormatter, url)
      else if fmt = ''pagerduty'' then
        (if bc_PagerDutyRoutingKey cfg = [] then
           Inl ''alerting: format=pagerduty requires a routing key (--pagerduty-routing-key, or spec.alerting.pagerDutyRoutingKey)''
         else Inr (PagerDutyFormatter (bc_PagerDutyRoutingKey cfg), pagerDutyEventsURL))
      else if fmt = ''custom'' then
        (if bc_CustomTemplate cfg = [] then
           Inl ''alerting: format=custom requires a template (--alert-template-file, or spec.alerting.customTemplate)''
         else (case newCustomFormatter parseT (bc_CustomTemplate cfg) (bc_CustomContentType cfg) of
                 Inl err \<Rightarrow> Inl err | Inr f \<Rightarrow> Inr (f, url)))
      else Inl (unknown_format fmt))"

definition buildNotifier :: "url_parser \<Rightarrow> (string \<Rightarrow> string + tmpl) \<Rightarrow> build_config \<Rightarrow> string + notifier" where
  "buildNotifier parse parseT cfg =
     (case validateAllowedDestinations (bc_AllowedDestinations cfg) of
        Some err \<Rightarrow> Inl err
      | None \<Rightarrow>
          (case resolveDestinationURL cfg of
             Inl err \<Rightarrow> Inl err
           | Inr url \<Rightarrow>
               (let fmt = (if bc_Format cfg = [] then ''slack'' else bc_Format cfg)
                in if fmt \<noteq> ''pagerduty'' \<and> url = [] then
                     (if fmt = ''slack'' \<or> fmt = ''teams'' \<or> fmt = ''custom''
                      then Inr (newWebhookNotifier [] (bc_Timeout cfg) (bc_ClusterName cfg) (Some NoopFormatter))
                      else Inl (unknown_format fmt))
                   else
                     (case choose_formatter parseT cfg fmt url of
                        Inl err \<Rightarrow> Inl err
                      | Inr (f, url') \<Rightarrow>
                          (case (if fmt \<noteq> ''pagerduty'' then validateWebhookURL parse url' (bc_AllowedDestinations cfg) else None) of
                             Some err \<Rightarrow> Inl err
                           | None \<Rightarrow> Inr (newWebhookNotifier url' (bc_Timeout cfg) (bc_ClusterName cfg) (Some f)))))))"

section \<open>Delivery\<close>

text \<open>A trigger type is one of its two constants; the branch for other strings is not reached.\<close>

definition triggerLabel :: "trigger_type \<Rightarrow> string" where
  "triggerLabel t = (case t of TriggerTypePeriodic \<Rightarrow> ''periodic'' | _ \<Rightarrow> ''deploy'')"

definition formatLabel :: "formatter \<Rightarrow> string" where
  "formatLabel f = (case f of SlackFormatter \<Rightarrow> ''slack'' | TeamsFormatter \<Rightarrow> ''teams'' | PagerDutyFormatter _ \<Rightarrow> ''pagerduty''
     | CustomFormatter _ _ \<Rightarrow> ''custom'' | NoopFormatter \<Rightarrow> ''unknown'')"

definition bump :: "string \<times> string \<Rightarrow> (string \<times> string, nat) gomap \<Rightarrow> (string \<times> string, nat) gomap" where
  "bump l m = AList.update l (map_get 0 m l + 1) m"

definition observeDetectedRegression :: "performance_regression \<Rightarrow> notifier \<Rightarrow> notifier" where
  "observeDetectedRegression r n =
     (if pr_Status r \<noteq> StatusDetected then n
      else n\<lparr>wn_regressionsDetectedTotal := bump (triggerLabel (pr_TriggerType r), wn_ClusterName n) (wn_regressionsDetectedTotal n)\<rparr>)"

text \<open>The HTTP client: building the request may fail, the exchange may fail, or there is a response (a
  redirect is not followed, so it is a response too).\<close>

datatype http_result = RequestError string | SendError string | Response int

record post =
  post_URL :: string
  post_ContentType :: string
  post_Body :: alert_body

definition count_notification :: "string \<Rightarrow> notifier \<Rightarrow> notifier" where
  "count_notification status n =
     n\<lparr>wn_notificationsTotal := bump (status, formatLabel (wn_Formatter n)) (wn_notificationsTotal n)\<rparr>"

definition notify :: "(post \<Rightarrow> http_result) \<Rightarrow> performance_regression \<Rightarrow> notifier \<Rightarrow> string option \<times> notifier \<times> post list" where
  "notify http r n =
     (if pr_Status r \<noteq> StatusDetected then (None, n, [])
      else if wn_URL n = [] then (None, n, [])
      else (case formatter_Format (wn_Formatter n) r (wn_ClusterName n) of
              Inl err \<Rightarrow> (Some (''alerting: format payload: '' @ err), count_notification ''error'' n, [])
            | Inr (body, contentType) \<Rightarrow>
                (let p = \<lparr>post_URL = wn_URL n, post_ContentType = contentType, post_Body = body\<rparr>
                 in (case http p of
                       RequestError err \<Rightarrow> (Some (''alerting: create request: '' @ err), count_notification ''error'' n, [])
                     | SendError err \<Rightarrow> (Some (''alerting: send webhook: '' @ err), count_notification ''error'' n, [p])
                     | Response code \<Rightarrow>
                         if 300 \<le> code
                         then (Some (''alerting: webhook returned status '' @ format_int code), count_notification ''error'' n, [p])
                         else (None, count_notification ''success'' n, [p])))))"

section \<open>Destination checks\<close>

text \<open>Specification of one allowlist entry.\<close>

definition allows :: "string \<Rightarrow> string \<Rightarrow> bool" where
  "allows host raw =
     (case classify_destination raw of
        Blank \<Rightarrow> False
      | Network n \<Rightarrow> (\<exists>a. parse_ip (trim_brackets host) = Some a \<and> net_contains n a)
      | Address b \<Rightarrow> (\<exists>a. parse_ip (trim_brackets host) = Some a \<and> ip_equal a b)
      | HostName entry \<Rightarrow> to_lower host = to_lower entry)"

lemma matchesAllowedDestination_allows: "matchesAllowedDestination host allowed = list_ex (allows host) allowed"
  by (induction allowed) (auto simp: allows_def Let_def split: destination.splits option.splits)

definition safe_destination :: "url_parser \<Rightarrow> string list \<Rightarrow> string \<Rightarrow> bool" where
  "safe_destination parse allowed url \<longleftrightarrow>
     (\<exists>scheme host. parse url = Inr (scheme, host) \<and> scheme \<in> {''http'', ''https''} \<and> host \<noteq> [] \<and>
        \<not> isBlockedAlertDestinationHost host \<and> (\<forall>a. parse_ip (trim_brackets host) = Some a \<longrightarrow> \<not> internal_address a) \<and>
        (allowed = [] \<or> list_ex (allows host) allowed))"

lemma validateWebhookURL_safe:
  "validateWebhookURL parse url allowed = None \<longleftrightarrow> url \<noteq> [] \<and> safe_destination parse allowed url"
  by (auto simp: validateWebhookURL_def safe_destination_def matchesAllowedDestination_allows
      split: sum.splits prod.splits if_splits option.splits)

definition effective_url :: "build_config \<Rightarrow> string" where
  "effective_url cfg = (if bc_DestinationPolicy cfg = relay_only_policy then bc_RelayURL cfg else bc_URL cfg)"

lemma resolveDestinationURL_effective:
  "resolveDestinationURL cfg = Inr url \<Longrightarrow> url = effective_url cfg"
  by (auto simp: resolveDestinationURL_def effective_url_def Let_def relay_only_policy_def allowlist_policy_def permissive_policy_def split: if_splits)

lemma resolveDestinationURL_allowlist:
  "resolveDestinationURL cfg = Inr url \<Longrightarrow> bc_DestinationPolicy cfg = allowlist_policy \<Longrightarrow> bc_AllowedDestinations cfg \<noteq> []"
  by (auto simp: resolveDestinationURL_def Let_def relay_only_policy_def allowlist_policy_def split: if_splits)

lemma choose_formatter_url:
  "choose_formatter parseT cfg fmt url = Inr (f, url') \<Longrightarrow> url' = (if fmt = ''pagerduty'' then pagerDutyEventsURL else url)"
  by (auto simp: choose_formatter_def split: if_splits sum.splits)

lemma newWebhookNotifier_URL [simp]: "wn_URL (newWebhookNotifier url timeout cluster f) = url"
  by (simp add: newWebhookNotifier_def)

lemma buildNotifier_url:
  assumes "buildNotifier parse parseT cfg = Inr n" "wn_URL n \<noteq> []"
  shows "resolveDestinationURL cfg = Inr (effective_url cfg)"
    and "wn_URL n = (if bc_Format cfg = ''pagerduty'' then pagerDutyEventsURL else effective_url cfg)"
    and "bc_Format cfg = ''pagerduty'' \<or> validateWebhookURL parse (effective_url cfg) (bc_AllowedDestinations cfg) = None"
proof -
  let ?fmt = "if bc_Format cfg = [] then ''slack'' else bc_Format cfg"
  from assms(1) obtain url where res: "resolveDestinationURL cfg = Inr url"
    by (auto simp: buildNotifier_def Let_def split: option.splits sum.splits)
  note eff = resolveDestinationURL_effective [OF res]
  show "resolveDestinationURL cfg = Inr (effective_url cfg)" using res eff by simp
  have pd: "?fmt = ''pagerduty'' \<longleftrightarrow> bc_Format cfg = ''pagerduty''" by simp
  from assms res obtain f url' where f: "choose_formatter parseT cfg ?fmt url = Inr (f, url')"
    and v: "?fmt = ''pagerduty'' \<or> validateWebhookURL parse url' (bc_AllowedDestinations cfg) = None"
    and n: "wn_URL n = url'"
    unfolding buildNotifier_def Let_def by (auto split: option.splits sum.splits if_splits prod.splits)
  note u = choose_formatter_url [OF f]
  show "wn_URL n = (if bc_Format cfg = ''pagerduty'' then pagerDutyEventsURL else effective_url cfg)"
    using n u eff pd by simp
  show "bc_Format cfg = ''pagerduty'' \<or> validateWebhookURL parse (effective_url cfg) (bc_AllowedDestinations cfg) = None"
    using v u eff pd by auto
qed

section \<open>Delivery\<close>

lemma map_get_bump: "map_get 0 (bump l m) k = map_get 0 m k + (if k = l then 1 else 0)"
  by (auto simp: bump_def map_get_def update_conv)

lemma teams_mirrors_slack:
  "map (\<lambda>f. (tf_Name f, tf_Value f)) (teams_facts r) = map (\<lambda>f. (sf_Title f, sf_Value f)) (slack_fields r)"
  by (simp add: teams_facts_def slack_fields_def)

lemma q_notin_format_int: "CHR ''q'' \<notin> set (format_int x)"
  using format_uint_digits [of "nat x"] format_uint_digits [of "nat (- x)"]
  by (auto simp: format_int_def list_all_iff is_digit_def char_in_def byte_def)

lemma dedup_key_inj:
  "(dedup_key r = dedup_key r') = (pr_DeployEventID r = pr_DeployEventID r' \<and> pr_QueryID r = pr_QueryID r')"
proof -
  have "format_int (pr_QueryID r) = format_int (pr_QueryID r') \<and> pr_DeployEventID r = pr_DeployEventID r'"
    if "dedup_key r = dedup_key r'"
    using that append_sep_unique [OF q_notin_format_int q_notin_format_int, of "pr_DeployEventID r @ ''-''" _ "pr_DeployEventID r' @ ''-''"]
    by (simp add: dedup_key_def)
  then show ?thesis using format_int_inj by (auto simp: dedup_key_def)
qed

section \<open>Properties\<close>

text \<open>C11: A notifier that can send at all sends to a checked destination: PagerDuty's fixed endpoint for
  that format, otherwise the relay under the relay-only policy and the configured URL under every
  other, and that URL is http or https, names a host that is neither blocked nor a loopback,
  link-local or unspecified address, and is covered by the allowlist if there is one; under the
  allowlist policy there is one.\<close>

theorem build_notifier_destination:
  assumes "buildNotifier parse parseT cfg = Inr n" "wn_URL n \<noteq> []"
  shows "wn_URL n = (if bc_Format cfg = ''pagerduty'' then pagerDutyEventsURL else effective_url cfg) \<and>
    (bc_Format cfg = ''pagerduty'' \<or> safe_destination parse (bc_AllowedDestinations cfg) (wn_URL n)) \<and>
    (bc_DestinationPolicy cfg = allowlist_policy \<longrightarrow> bc_AllowedDestinations cfg \<noteq> [])"
  using buildNotifier_url [OF assms] resolveDestinationURL_allowlist [of cfg] by (auto simp: validateWebhookURL_safe)

text \<open>The relay-only policy does not bind the PagerDuty format: with a relay configured, a PagerDuty
  notifier is still built for PagerDuty's own endpoint, whatever the relay is.\<close>

theorem pagerduty_bypasses_relay:
  assumes "validateAllowedDestinations (bc_AllowedDestinations cfg) = None" "bc_RelayURL cfg \<noteq> []" "bc_PagerDutyRoutingKey cfg \<noteq> []"
  shows "\<exists>n. buildNotifier parse parseT (cfg\<lparr>bc_DestinationPolicy := relay_only_policy, bc_Format := ''pagerduty''\<rparr>) = Inr n \<and>
    wn_URL n = pagerDutyEventsURL"
  using assms by (auto simp: buildNotifier_def resolveDestinationURL_def choose_formatter_def Let_def)

text \<open>C37: The host blocklist compares whole names, so a blocked host is accepted when it is written as a
  fully qualified name with a trailing dot.\<close>

theorem blocked_host_trailing_dot:
  assumes "h \<in> set blockedAlertDestinationHosts" "raw \<noteq> []" "parse raw = Inr (''https'', h @ ''.'')"
  shows "isBlockedAlertDestinationHost h \<and> validateWebhookURL parse raw [] = None"
proof -
  have all: "list_all (\<lambda>h. isBlockedAlertDestinationHost h \<and> \<not> isBlockedAlertDestinationHost (h @ ''.'') \<and>
      parse_ip (trim_brackets (h @ ''.'')) = None) blockedAlertDestinationHosts" by code_simp
  then show ?thesis using assms by (auto simp: list_all_iff validateWebhookURL_def)
qed

text \<open>Delivery is counted once and goes nowhere else: a call makes at most one request, to the
  configured URL; it adds one to exactly one counter, that of the outcome it returns, if the
  regression is detected and a URL is configured, and changes no counter otherwise.\<close>

theorem notify_counted_once:
  "case notify http r n of (err, n', posts) \<Rightarrow>
     length posts \<le> 1 \<and> post_URL ` set posts \<subseteq> {wn_URL n} \<and>
     map_get 0 (wn_notificationsTotal n') l = map_get 0 (wn_notificationsTotal n) l +
       (if pr_Status r = StatusDetected \<and> wn_URL n \<noteq> [] \<and>
           l = (if err = None then ''success'' else ''error'', formatLabel (wn_Formatter n)) then 1 else 0)"
  by (auto simp: notify_def count_notification_def map_get_bump Let_def split: sum.splits http_result.splits)

text \<open>Two PagerDuty notifications fall into one incident exactly if they carry the same deploy event id
  and the same query id; as a periodic regression has no deploy event, all periodic alerts of a query
  id share one incident, whatever the cluster and the episode.\<close>

theorem dedup_key_exact:
  "(dedup_key r = dedup_key r') = (pr_DeployEventID r = pr_DeployEventID r' \<and> pr_QueryID r = pr_QueryID r')"
  by (rule dedup_key_inj)

section \<open>Witnesses\<close>

definition sample_build :: build_config where
  "sample_build = \<lparr>bc_Format = [], bc_URL = ''https://hooks.example.com/x'', bc_PagerDutyRoutingKey = ''k'', bc_CustomTemplate = [],
     bc_CustomContentType = [], bc_AllowedDestinations = [''10.0.0.0/8'', ''hooks.example.com''], bc_DestinationPolicy = ''allowlist'',
     bc_RelayURL = ''https://relay/x'', bc_ClusterName = ''c'', bc_Timeout = 0\<rparr>"

definition sample_url :: url_parser where
  "sample_url u = (if u = ''https://hooks.example.com/x'' then Inr (''https'', ''hooks.example.com'') else Inr (''https'', ''localhost.''))"

definition no_template :: "string \<Rightarrow> string + tmpl" where "no_template s = Inl ''no template''"

theorem build_notifier_destination_witness:
  "safe_destination sample_url [''10.0.0.0/8'', ''hooks.example.com''] ''https://hooks.example.com/x''"
proof -
  have "\<exists>n. buildNotifier sample_url no_template sample_build = Inr n \<and> wn_URL n = ''https://hooks.example.com/x''"
  proof -
    have "(case buildNotifier sample_url no_template sample_build of Inl _ \<Rightarrow> [] | Inr n \<Rightarrow> wn_URL n) = ''https://hooks.example.com/x''"
      by code_simp
    then show ?thesis by (auto split: sum.splits)
  qed
  then obtain n where n: "buildNotifier sample_url no_template sample_build = Inr n" "wn_URL n = ''https://hooks.example.com/x''"
    by blast
  from build_notifier_destination [OF n(1)] show ?thesis by (simp add: n(2)) (simp add: sample_build_def)
qed

theorem pagerduty_bypasses_relay_witness:
  "\<exists>n. buildNotifier sample_url no_template (sample_build\<lparr>bc_DestinationPolicy := relay_only_policy, bc_Format := ''pagerduty''\<rparr>) = Inr n \<and>
    wn_URL n = pagerDutyEventsURL"
proof -
  have "validateAllowedDestinations (bc_AllowedDestinations sample_build) = None" by code_simp
  then show ?thesis using pagerduty_bypasses_relay [of sample_build] by (simp add: sample_build_def)
qed

theorem blocked_host_trailing_dot_witness:
  "validateWebhookURL sample_url ''https://localhost./'' [] = None"
  using blocked_host_trailing_dot [of "''localhost''" "''https://localhost./''" sample_url]
  by (simp add: sample_url_def blockedAlertDestinationHosts_def)

end
