(* ===== verification/Prom_Source.thy ===== *)
theory Prom_Source
  imports Fingerprint Correlation_Engine Alerting
begin

text \<open>
  The Prometheus-backed sample source (\<open>internal/telemetry/promsource/promsource.go\<close>): its
  configuration, the two API requests with their encoding, and the mapping of the answers to samples
  and query ids. The HTTP exchange, the decoding of the response envelope by \<open>encoding/json\<close> and
  \<open>strconv.ParseFloat\<close> are arguments.
\<close>

section \<open>Durations, times and query strings\<close>

fun drop_zeros :: "string \<Rightarrow> string" where
  "drop_zeros [] = []"
| "drop_zeros (c # cs) = (if c = CHR ''0'' then drop_zeros cs else c # cs)"

text \<open>A fraction with trailing zeros removed, and nothing for zero.\<close>

definition fmt_frac :: "nat \<Rightarrow> int \<Rightarrow> string" where
  "fmt_frac prec v =
     (let ds = rev (drop_zeros (rev (pad_int prec (v mod 10 ^ prec)))) in if ds = [] then [] else CHR ''.'' # ds)"

definition micro_sign :: string where "micro_sign = [CHR 0xC2, CHR 0xB5]"

definition duration_String :: "duration \<Rightarrow> string" where
  "duration_String d =
     (let u = \<bar>d\<bar>; sg = (if d < 0 then ''-'' else [])
      in if d = 0 then ''0s''
         else if u < 1000 then sg @ format_int u @ ''ns''
         else if u < 1000000 then sg @ format_int (u div 1000) @ fmt_frac 3 u @ micro_sign @ ''s''
         else if u < 1000000000 then sg @ format_int (u div 1000000) @ fmt_frac 6 u @ ''ms''
         else
           (let s = u div 1000000000; m = s div 60; h = m div 60
            in sg @ (if 0 < h then format_int h @ ''h'' else []) @ (if 0 < m then format_int (m mod 60) @ ''m'' else []) @
               format_int (s mod 60) @ fmt_frac 9 u @ ''s''))"

definition formatTimestamp :: "gtime \<Rightarrow> string" where
  "formatTimestamp t = butlast (format_rfc3339 t) @ fmt_frac 9 t @ ''Z''"

definition unreserved :: "char \<Rightarrow> bool" where
  "unreserved c \<longleftrightarrow> is_lower c \<or> is_upper c \<or> is_digit c \<or> c \<in> set ''-_.~''"

definition hex_upper :: "nat \<Rightarrow> char" where
  "hex_upper d = (if d < 10 then char_of (48 + d) else char_of (55 + d))"

definition query_escape :: "string \<Rightarrow> string" where
  "query_escape s = concat (map (\<lambda>c. if unreserved c then [c] else if c = CHR '' '' then ''+''
     else [CHR ''%'', hex_upper (byte c div 16), hex_upper (byte c mod 16)]) s)"

definition values_encode :: "(string \<times> string) list \<Rightarrow> string" where
  "values_encode q = join_with ''&'' (map (\<lambda>(k, v). query_escape k @ ''='' @ query_escape v) (sort_key fst q))"

section \<open>Configuration\<close>

definition prom_defaultTimeout :: duration where "prom_defaultTimeout = 10 * second_d"
definition prom_defaultStep :: duration where "prom_defaultStep = 15 * second_d"
definition allQueryIDsLookback :: duration where "allQueryIDsLookback = 10 * minute_d"

record prom_config =
  pm_BaseURL :: string
  pm_MetricName :: string
  pm_QueryIDLabel :: string
  pm_QueryTextLabel :: string
  pm_Step :: duration
  pm_Timeout :: duration

definition prom_New :: "url_parser \<Rightarrow> prom_config \<Rightarrow> string + prom_config" where
  "prom_New parse cfg =
     (if pm_BaseURL cfg = [] then Inl ''promsource: BaseURL is required''
      else if pm_MetricName cfg = [] then Inl ''promsource: MetricName is required (see package doc comment for why there is no default)''
      else (case parse (pm_BaseURL cfg) of
              Inl err \<Rightarrow> Inl (''promsource: invalid BaseURL: '' @ err)
            | Inr _ \<Rightarrow>
                Inr (cfg\<lparr>pm_QueryIDLabel := (if pm_QueryIDLabel cfg = [] then ''queryid'' else pm_QueryIDLabel cfg),
                         pm_QueryTextLabel := (if pm_QueryTextLabel cfg = [] then ''query'' else pm_QueryTextLabel cfg),
                         pm_Step := (if pm_Step cfg \<le> 0 then prom_defaultStep else pm_Step cfg),
                         pm_Timeout := (if pm_Timeout cfg \<le> 0 then prom_defaultTimeout else pm_Timeout cfg)\<rparr>)))"

section \<open>Responses\<close>

record prom_sample =
  psm_Timestamp :: real
  psm_Value :: string

record prom_series =
  psr_Metric :: "(string, string) gomap"
  psr_Value :: prom_sample
  psr_Values :: "prom_sample list"

record prom_data =
  pdt_ResultType :: string
  pdt_Result :: "prom_series list"

record prom_response =
  prs_Status :: string
  prs_Data :: prom_data
  prs_ErrorType :: string
  prs_Error :: string

text \<open>\<open>promSample.UnmarshalJSON\<close>: the first two elements of an array; a null leaves the zero value, a
  missing element is an error.\<close>

definition unmarshal_sample :: "json \<Rightarrow> string + prom_sample" where
  "unmarshal_sample j =
     (case j of
        JArr (a # b # _) \<Rightarrow>
          (case (case a of JNum x \<Rightarrow> Some x | JNull \<Rightarrow> Some 0 | _ \<Rightarrow> None) of
             None \<Rightarrow> Inl (''promsource: parsing sample timestamp: json: cannot unmarshal '' @ json_kind a @ '' into Go value of type float64'')
           | Some x \<Rightarrow>
               (case (case b of JStr v \<Rightarrow> Some v | JNull \<Rightarrow> Some [] | _ \<Rightarrow> None) of
                  None \<Rightarrow> Inl (''promsource: parsing sample value: json: cannot unmarshal '' @ json_kind b @ '' into Go value of type string'')
                | Some v \<Rightarrow> Inr \<lparr>psm_Timestamp = x, psm_Value = v\<rparr>))
      | JArr [JNum x] \<Rightarrow> Inl ''promsource: parsing sample value: unexpected end of JSON input''
      | JArr [JNull] \<Rightarrow> Inl ''promsource: parsing sample value: unexpected end of JSON input''
      | JArr [a] \<Rightarrow> Inl (''promsource: parsing sample timestamp: json: cannot unmarshal '' @ json_kind a @ '' into Go value of type float64'')
      | JArr [] \<Rightarrow> Inl ''promsource: parsing sample timestamp: unexpected end of JSON input''
      | JNull \<Rightarrow> Inl ''promsource: parsing sample timestamp: unexpected end of JSON input''
      | _ \<Rightarrow> Inl (''json: cannot unmarshal '' @ json_kind j @ '' into Go value of type [2]json.RawMessage''))"

datatype prom_reply = PromBuildError string | PromSendError string | PromReadError string | PromReply int string

type_synonym prom_http = "string \<Rightarrow> prom_reply"
type_synonym prom_decode = "string \<Rightarrow> string + prom_response"

definition limit_reader :: "int \<Rightarrow> string \<Rightarrow> string" where
  "limit_reader n s = (if int (length s) \<le> n then s else take (nat n) s)"

definition prom_do :: "prom_http \<Rightarrow> prom_decode \<Rightarrow> prom_config \<Rightarrow> string \<Rightarrow> (string \<times> string) list \<Rightarrow> string + prom_data" where
  "prom_do http decode cfg path q =
     (case http (pm_BaseURL cfg @ path @ ''?'' @ values_encode q) of
        PromBuildError err \<Rightarrow> Inl (''promsource: building request: '' @ err)
      | PromSendError err \<Rightarrow> Inl (''promsource: request to '' @ path @ '' failed: '' @ err)
      | PromReadError err \<Rightarrow> Inl (''promsource: reading response body: '' @ err)
      | PromReply code body \<Rightarrow>
          (case decode (limit_reader 33554432 body) of
             Inl err \<Rightarrow> Inl (''promsource: decoding response (status '' @ format_int code @ ''): '' @ err)
           | Inr parsed \<Rightarrow>
               if prs_Status parsed \<noteq> ''success''
               then Inl (''promsource: prometheus returned status '' @ go_quote (prs_Status parsed) @ '': '' @ prs_ErrorType parsed @ '': '' @ prs_Error parsed)
               else Inr (prs_Data parsed)))"

definition queryRange :: "prom_http \<Rightarrow> prom_decode \<Rightarrow> prom_config \<Rightarrow> string \<Rightarrow> gtime \<Rightarrow> gtime \<Rightarrow> string + prom_series list" where
  "queryRange http decode cfg query lo hi =
     (case prom_do http decode cfg ''/api/v1/query_range''
             [(''query'', query), (''start'', formatTimestamp lo), (''end'', formatTimestamp hi), (''step'', duration_String (pm_Step cfg))] of
        Inl err \<Rightarrow> Inl err
      | Inr d \<Rightarrow> if pdt_ResultType d \<noteq> ''matrix''
                 then Inl (''promsource: query_range returned resultType '' @ go_quote (pdt_ResultType d) @ '', want \"matrix\"'')
                 else Inr (pdt_Result d))"

definition queryInstant :: "prom_http \<Rightarrow> prom_decode \<Rightarrow> prom_config \<Rightarrow> string \<Rightarrow> gtime \<Rightarrow> string + prom_series list" where
  "queryInstant http decode cfg query t =
     (case prom_do http decode cfg ''/api/v1/query'' [(''query'', query), (''time'', formatTimestamp t)] of
        Inl err \<Rightarrow> Inl err
      | Inr d \<Rightarrow> if pdt_ResultType d \<noteq> ''vector''
                 then Inl (''promsource: query returned resultType '' @ go_quote (pdt_ResultType d) @ '', want \"vector\"'')
                 else Inr (pdt_Result d))"

section \<open>The sample source\<close>

definition truncate_real :: "real \<Rightarrow> int" where
  "truncate_real x = (if x < 0 then \<lceil>x\<rceil> else \<lfloor>x\<rfloor>)"

definition prom_time :: "real \<Rightarrow> gtime" where
  "prom_time ts = unix_epoch_seconds * nanosecond_per_second + truncate_real (ts * 1000000000)"

text \<open>What \<open>strconv.ParseFloat\<close> returns without an error; the value of a number that is not finite is not specified.\<close>

datatype go_float = Finite real | FloatNaN | FloatInf

primrec finite_value :: "go_float \<Rightarrow> real" where
  "finite_value (Finite x) = x"

definition series_samples :: "(string \<Rightarrow> go_float option) \<Rightarrow> prom_config \<Rightarrow> queryid \<Rightarrow> prom_series \<Rightarrow> query_sample list" where
  "series_samples pf cfg q ser =
     (let txt = (if pm_QueryTextLabel cfg \<noteq> ''-'' then map_get [] (psr_Metric ser) (pm_QueryTextLabel cfg) else []);
          fp = (if txt \<noteq> [] then fingerprintQuery txt else [])
      in List.map_filter (\<lambda>pt. case pf (psm_Value pt) of
             None \<Rightarrow> None
           | Some v \<Rightarrow> if v = FloatNaN \<or> v = FloatInf then None
                        else Some \<lparr>qs_QueryID = q, qs_QueryText = txt, qs_Calls = 0, qs_TotalExecTimeMs = 0, qs_MeanExecTimeMs = finite_value v,
                               qs_RecordedAt = prom_time (psm_Timestamp pt), qs_Fingerprint = fp\<rparr>) (psr_Values ser))"

definition prom_selector :: "prom_config \<Rightarrow> queryid \<Rightarrow> string" where
  "prom_selector cfg q = pm_MetricName cfg @ ''{'' @ pm_QueryIDLabel cfg @ ''='' @ go_quote (format_int q) @ ''}''"

definition prom_SamplesInRange :: "prom_http \<Rightarrow> prom_decode \<Rightarrow> (string \<Rightarrow> go_float option) \<Rightarrow> prom_config \<Rightarrow> queryid \<Rightarrow> gtime \<Rightarrow> gtime \<Rightarrow> query_sample list" where
  "prom_SamplesInRange http decode pf cfg q lo hi =
     (case queryRange http decode cfg (prom_selector cfg q) lo hi of
        Inl err \<Rightarrow> []
      | Inr series \<Rightarrow> sort_key qs_RecordedAt (concat (map (series_samples pf cfg q) series)))"

fun collect_ids :: "prom_config \<Rightarrow> prom_series list \<Rightarrow> queryid list \<Rightarrow> queryid list" where
  "collect_ids cfg [] ids = ids"
| "collect_ids cfg (ser # sers) ids =
     (case map_of (psr_Metric ser) (pm_QueryIDLabel cfg) of
        None \<Rightarrow> collect_ids cfg sers ids
      | Some raw \<Rightarrow>
          (case parse_int raw of
             None \<Rightarrow> collect_ids cfg sers ids
           | Some i \<Rightarrow> if i \<in> set ids then collect_ids cfg sers ids else collect_ids cfg sers (ids @ [i])))"

definition prom_AllQueryIDs :: "prom_http \<Rightarrow> prom_decode \<Rightarrow> gtime \<Rightarrow> prom_config \<Rightarrow> queryid list" where
  "prom_AllQueryIDs http decode now cfg =
     (case queryInstant http decode cfg
             (''count by ('' @ pm_QueryIDLabel cfg @ '') (max_over_time('' @ pm_MetricName cfg @ ''['' @ duration_String allQueryIDsLookback @ '']))'') now of
        Inl err \<Rightarrow> [] | Inr series \<Rightarrow> sort (collect_ids cfg series []))"

section \<open>Contract\<close>

text \<open>What the engine needs of a server: the points of a range query lie in the range it was asked for, in nanoseconds. Prometheus documents
  this for \<open>start\<close> and \<open>end\<close> at its resolution of milliseconds, so the contract is exact for windows at whole milliseconds.\<close>

definition answer_in_range :: "prom_http \<Rightarrow> prom_decode \<Rightarrow> prom_config \<Rightarrow> queryid \<Rightarrow> gtime \<Rightarrow> gtime \<Rightarrow> bool" where
  "answer_in_range http decode cfg q lo hi =
     (case queryRange http decode cfg (prom_selector cfg q) lo hi of
        Inl err \<Rightarrow> True
      | Inr series \<Rightarrow> list_all (\<lambda>ser. list_all (\<lambda>pt. lo \<le> prom_time (psm_Timestamp pt) \<and> prom_time (psm_Timestamp pt) \<le> hi) (psr_Values ser)) series)"

definition prom_in_range :: "prom_http \<Rightarrow> prom_decode \<Rightarrow> prom_config \<Rightarrow> bool" where
  "prom_in_range http decode cfg \<longleftrightarrow> (\<forall>q lo hi. answer_in_range http decode cfg q lo hi)"

lemma map_filter_in: "y \<in> set (List.map_filter f xs) \<Longrightarrow> \<exists>x\<in>set xs. f x = Some y"
  by (auto simp: map_filter_def)

lemma series_samples_in:
  "s \<in> set (series_samples pf cfg q ser) \<Longrightarrow>
     qs_QueryID s = q \<and> (\<exists>pt\<in>set (psr_Values ser). qs_RecordedAt s = prom_time (psm_Timestamp pt))"
  by (auto simp: series_samples_def Let_def split: if_splits option.splits dest!: map_filter_in) blast+

lemma prom_SamplesInRange_in:
  assumes "s \<in> set (prom_SamplesInRange http decode pf cfg q lo hi)"
  shows "\<exists>series. queryRange http decode cfg (prom_selector cfg q) lo hi = Inr series \<and> (\<exists>ser\<in>set series. s \<in> set (series_samples pf cfg q ser))"
  using assms by (cases "queryRange http decode cfg (prom_selector cfg q) lo hi") (auto simp: prom_SamplesInRange_def)

lemma prom_SamplesInRange_between:
  assumes "answer_in_range http decode cfg q lo hi" and "s \<in> set (prom_SamplesInRange http decode pf cfg q lo hi)"
  shows "lo \<le> qs_RecordedAt s \<and> qs_RecordedAt s \<le> hi"
proof -
  obtain series ser where "queryRange http decode cfg (prom_selector cfg q) lo hi = Inr series" "ser \<in> set series"
    "s \<in> set (series_samples pf cfg q ser)" using prom_SamplesInRange_in [OF assms(2)] by blast
  with series_samples_in [OF this(3)] assms(1) show ?thesis by (force simp: answer_in_range_def list_all_iff)
qed

lemma prom_SamplesInRange_sorted: "sorted_by qs_RecordedAt (prom_SamplesInRange http decode pf cfg q lo hi)"
  by (simp add: prom_SamplesInRange_def split: sum.splits)

lemma prom_sample_source:
  assumes "prom_in_range http decode cfg"
  shows "sample_source (prom_SamplesInRange http decode pf cfg)"
proof
  fix q lo hi s
  assume "s \<in> set (prom_SamplesInRange http decode pf cfg q lo hi)"
  then show "lo \<le> qs_RecordedAt s \<and> qs_RecordedAt s \<le> hi"
    using assms prom_SamplesInRange_between unfolding prom_in_range_def by blast
qed (rule prom_SamplesInRange_sorted)

typedef prom_server = "{p :: prom_http \<times> prom_decode \<times> prom_config. case p of (http, decode, cfg) \<Rightarrow> prom_in_range http decode cfg}"
  by (rule exI [of _ "(\<lambda>u. PromSendError [], \<lambda>b. Inl [], undefined)"])
     (simp add: prom_in_range_def answer_in_range_def queryRange_def prom_do_def)

definition server_samples :: "prom_server \<Rightarrow> (string \<Rightarrow> go_float option) \<Rightarrow> queryid \<Rightarrow> gtime \<Rightarrow> gtime \<Rightarrow> query_sample list" where
  "server_samples v pf = (case Rep_prom_server v of (http, decode, cfg) \<Rightarrow> prom_SamplesInRange http decode pf cfg)"

interpretation prom_source: sample_source "server_samples v pf" for v pf
  using Rep_prom_server [of v] by (auto simp: server_samples_def intro: prom_sample_source split: prod.splits)

section \<open>Query ids\<close>

lemma collect_ids_spec:
  "set (collect_ids cfg sers ids) = set ids \<union>
     {i. \<exists>ser\<in>set sers. \<exists>raw. map_of (psr_Metric ser) (pm_QueryIDLabel cfg) = Some raw \<and> parse_int raw = Some i}"
  by (induction cfg sers ids rule: collect_ids.induct) (auto split: option.splits)

lemma collect_ids_distinct: "distinct ids \<Longrightarrow> distinct (collect_ids cfg sers ids)"
  by (induction cfg sers ids rule: collect_ids.induct) (auto split: option.splits)

section \<open>Properties\<close>

text \<open>C33: Query ids survive the trip through label values. If the server lists series labelled with the
  decimal rendering of 64-bit ids, the source returns exactly these ids, each once and in increasing
  order; and the request for the samples of each of them selects the label value of a series that was listed.\<close>

theorem query_ids_round_trip:
  assumes "queryInstant http decode cfg
      (''count by ('' @ pm_QueryIDLabel cfg @ '') (max_over_time('' @ pm_MetricName cfg @ ''[10m0s]))'') now = Inr series"
    and "map (\<lambda>ser. map_of (psr_Metric ser) (pm_QueryIDLabel cfg)) series = map (\<lambda>q. Some (format_int q)) qs"
    and "list_all (\<lambda>q. - (2 ^ 63) \<le> q \<and> q < 2 ^ 63) qs"
  shows "prom_AllQueryIDs http decode now cfg = sorted_list_of_set (set qs) \<and>
    (\<forall>q\<in>set (prom_AllQueryIDs http decode now cfg). \<exists>ser raw. ser \<in> set series \<and> map_of (psr_Metric ser) (pm_QueryIDLabel cfg) = Some raw \<and>
       prom_SamplesInRange http decode pf cfg q lo hi =
         (case queryRange http decode cfg (pm_MetricName cfg @ ''{'' @ pm_QueryIDLabel cfg @ ''='' @ go_quote raw @ ''}'') lo hi of
            Inl err \<Rightarrow> [] | Inr found \<Rightarrow> sort_key qs_RecordedAt (concat (map (series_samples pf cfg q) found))))"
proof -
  have s: "duration_String allQueryIDsLookback = ''10m0s''" by code_simp
  let ?ids = "collect_ids cfg series []" let ?label = "\<lambda>ser. map_of (psr_Metric ser) (pm_QueryIDLabel cfg)"
  have "set ?ids = {i. \<exists>ser\<in>set series. \<exists>raw. ?label ser = Some raw \<and> parse_int raw = Some i}"
    by (simp add: collect_ids_spec)
  also have "\<dots> = {i. \<exists>raw. Some raw \<in> set (map ?label series) \<and> parse_int raw = Some i}"
    by (auto simp: image_iff) (metis, metis)
  also have "\<dots> = set qs" using assms(3) parse_format_int unfolding assms(2) by (auto simp: list_all_iff image_iff)
  finally have "sort ?ids = sorted_list_of_set (set qs)"
    using collect_ids_distinct [of "[]" cfg series] by (metis distinct.simps(1) sorted_list_of_set_sort_remdups distinct_remdups_id)
  then have ids: "prom_AllQueryIDs http decode now cfg = sorted_list_of_set (set qs)" using assms(1) by (simp add: prom_AllQueryIDs_def s)
  have "\<exists>ser\<in>set series. ?label ser = Some (format_int q)" if "q \<in> set qs" for q
  proof -
    have "Some (format_int q) \<in> set (map ?label series)" unfolding assms(2) using that by simp
    then show ?thesis by (auto simp: image_iff)
  qed
  then show ?thesis unfolding ids by (fastforce simp: prom_SamplesInRange_def prom_selector_def)
qed

section \<open>Witnesses\<close>

definition sample_prom :: prom_config where
  "sample_prom = \<lparr>pm_BaseURL = ''http://p'', pm_MetricName = ''m'', pm_QueryIDLabel = ''queryid'', pm_QueryTextLabel = ''query'',
     pm_Step = 15000000000, pm_Timeout = 10000000000\<rparr>"

definition vector_answer :: prom_decode where
  "vector_answer b = Inr \<lparr>prs_Status = ''success'', prs_Data = \<lparr>pdt_ResultType = ''vector'',
     pdt_Result = map (\<lambda>l. \<lparr>psr_Metric = [(''queryid'', l)], psr_Value = \<lparr>psm_Timestamp = 0, psm_Value = []\<rparr>, psr_Values = []\<rparr>) [''7'', ''-3'', ''7'']\<rparr>,
     prs_ErrorType = [], prs_Error = []\<rparr>"

theorem query_ids_round_trip_witness:
  "prom_AllQueryIDs (\<lambda>u. PromReply 200 []) vector_answer 0 sample_prom = sorted_list_of_set {7, -3}"
proof -
  have f: "format_int 7 = ''7''" "format_int (-3) = ''-3''" by code_simp+
  have "queryInstant (\<lambda>u. PromReply 200 []) vector_answer sample_prom
      (''count by ('' @ pm_QueryIDLabel sample_prom @ '') (max_over_time('' @ pm_MetricName sample_prom @ ''[10m0s]))'') 0 =
      Inr (pdt_Result (case vector_answer [] of Inr r \<Rightarrow> prs_Data r))"
    by (simp add: queryInstant_def prom_do_def vector_answer_def)
  from query_ids_round_trip [OF this, of "[7, -3, 7]" "\<lambda>v. None" 0 0] show ?thesis
    by (simp add: f vector_answer_def sample_prom_def insert_commute)
qed

end
