(* ===== verification/Kube_Types.thy ===== *)
theory Kube_Types
  imports Alerting
begin

text \<open>
  The Kubernetes objects the controllers read and write (\<open>api/v1alpha1\<close>, and of core objects the
  fields the code looks at). A lookup at the API server finds an object, reports that there is none,
  or fails. Pointers to optional structs are options. Spec fields that no controller reads are left
  out of the records, except where noted.
\<close>

record nsname =
  nn_Namespace :: string
  nn_Name :: string

definition nn_String :: "nsname \<Rightarrow> string" where "nn_String k = nn_Namespace k @ ''/'' @ nn_Name k"

datatype 'a kget = Found 'a | NotFound string | GetError string

section \<open>Conditions\<close>

record condition =
  co_Type :: string
  co_Status :: string
  co_Reason :: string
  co_Message :: string
  co_ObservedGeneration :: int
  co_LastTransitionTime :: gtime

fun setCondition :: "gtime \<Rightarrow> condition \<Rightarrow> condition list \<Rightarrow> condition list" where
  "setCondition now cond [] =
     [if co_LastTransitionTime cond = 0 then cond\<lparr>co_LastTransitionTime := now\<rparr> else cond]"
| "setCondition now cond (c # cs) =
     (if co_Type c = co_Type cond then
        cond\<lparr>co_LastTransitionTime := (if co_Status c \<noteq> co_Status cond then now else co_LastTransitionTime c)\<rparr> # cs
      else c # setCondition now cond cs)"

lemma setCondition_types:
  "map co_Type (setCondition now cond cs) = (if co_Type cond \<in> co_Type ` set cs then map co_Type cs else map co_Type cs @ [co_Type cond])"
  by (induction now cond cs rule: setCondition.induct) auto

lemma setCondition_distinct: "distinct (map co_Type cs) \<Longrightarrow> distinct (map co_Type (setCondition now cond cs))"
  by (auto simp: setCondition_types)

lemma setCondition_other: "co_Type c \<noteq> co_Type cond \<Longrightarrow> c \<in> set (setCondition now cond cs) \<longleftrightarrow> c \<in> set cs"
  by (induction now cond cs rule: setCondition.induct) auto

lemma setCondition_status:
  "distinct (map co_Type cs) \<Longrightarrow> c \<in> set (setCondition now cond cs) \<Longrightarrow> co_Type c = co_Type cond \<Longrightarrow> co_Status c = co_Status cond"
  by (induction now cond cs rule: setCondition.induct) (auto split: if_splits simp: image_iff)

section \<open>Specifications\<close>

record secret_key_selector =
  sel_Name :: string
  sel_Key :: string

record prometheus_config =
  pcf_URL :: string
  pcf_MetricName :: string
  pcf_QueryIDLabel :: string
  pcf_QueryTextLabel :: string
  pcf_StepSeconds :: int

record sample_source_config =
  ss_Type :: string
  ss_Prometheus :: "prometheus_config option"

record auto_abort_config =
  aa_Enabled :: bool
  aa_ConfidenceThreshold :: string

record alerting_config =
  al_Format :: string
  al_URL :: string
  al_PagerDutyRoutingKey :: string
  al_CustomTemplate :: string
  al_DestinationPolicy :: string

record periodic_config =
  pd_Enabled :: bool
  pd_WindowMinutes :: int
  pd_IntervalMinutes :: int

text \<open>\<open>CriticalQueryIDs\<close> is declared by the API but read by no code; it is kept to say so.\<close>

record watch_spec =
  wsp_ClusterName :: string
  wsp_DSN :: string
  wsp_DSNSecretRef :: "secret_key_selector option"
  wsp_RemoteClusterRef :: string
  wsp_RemoteClusterSecretRef :: "secret_key_selector option"
  wsp_RemoteNamespace :: string
  wsp_ScrapeIntervalSeconds :: int
  wsp_WindowMinutes :: int
  wsp_MinExecutions :: int
  wsp_LatencyChangeThreshold :: string
  wsp_PValueThreshold :: string
  wsp_CriticalQueryIDs :: "queryid list"
  wsp_SlackWebhookURL :: string
  wsp_Alerting :: "alerting_config option"
  wsp_CapturePlans :: bool
  wsp_AutoAbort :: "auto_abort_config option"
  wsp_PeriodicDetection :: "periodic_config option"
  wsp_SampleSource :: "sample_source_config option"

datatype watch_phase = PhasePending | PhaseRunning | PhaseFailed

record watch_status =
  wst_Phase :: "watch_phase option"
  wst_ObservedGeneration :: int
  wst_TrackedQueryIDs :: int
  wst_LastScrapeTime :: "gtime option"
  wst_Message :: string
  wst_Conditions :: "condition list"

record postgres_watch =
  pw_Key :: nsname
  pw_Generation :: int
  pw_Spec :: watch_spec
  pw_Status :: watch_status

record source_spec =
  dss_PostgresWatchRef :: string
  dss_SourceType :: string
  dss_AppName :: string
  dss_WorkloadKind :: string
  dss_WebhookSecret :: string

datatype source_phase = SourcePending | SourceReady | SourceFailed

record source_status =
  dst_Phase :: "source_phase option"
  dst_ObservedGeneration :: int
  dst_WebhookPath :: string
  dst_Message :: string
  dst_Conditions :: "condition list"

record source_object =
  so_Key :: nsname
  so_Generation :: int
  so_Spec :: source_spec
  so_Status :: source_status

record secret =
  sec_Key :: nsname
  sec_Labels :: "(string, string) gomap"
  sec_Data :: "(string, string) gomap"

record kubeconfig_selector =
  ks_Namespace :: string
  ks_Name :: string
  ks_Key :: string

record radar_cluster =
  rc_KubeconfigSecretRef :: kubeconfig_selector
  rc_Namespace :: string

datatype security_profile = ProfileUnset | SecurityProfileControlled | SecurityProfileHardened

end
