(* ===== verification/Watch_Runtime.thy ===== *)
theory Watch_Runtime
  imports Collector Trackers Prom_Source Kube_Types
begin

text \<open>
  The running side of the manager (\<open>internal/controller/registry.go\<close>, \<open>mux.go\<close>,
  \<open>deploysource_controller.go\<close> and \<open>workload_watch_controller.go\<close>). A \<open>WatchRuntime\<close> is shared by
  pointer: the registry holds it, its goroutines work on it, and a webhook handler holds its event
  store. The model therefore keeps a heap of runtimes, addressed by their position in the order of
  their creation; the registry and the routes hold addresses. A runtime that was stopped stays in
  the heap, as the route that still points to it keeps it alive.

  The state of the goroutines of a runtime (the drain cursor and the pending set of \<open>pollLoop\<close>) is
  kept in the same record.
\<close>

section \<open>Runtimes, registry and routes\<close>

record watch_runtime =
  rt_Store :: store
  rt_Collector :: "collector option"
  rt_Prom :: "prom_config option"
  rt_EngineCfg :: engine_config
  rt_Notifier :: notifier
  rt_SpecHash :: string
  rt_ClusterName :: string
  rt_CapturePlans :: bool
  rt_AutoAbortEnabled :: bool
  rt_AutoAbortThreshold :: real
  rt_PeriodicTracker :: periodic_tracker
  rt_PeriodicEnabled :: bool
  rt_PeriodicIntervalMinutes :: int
  rt_cursor :: nat
  rt_pending :: "pending_event list"
  rt_cancelled :: bool

type_synonym addr = nat
type_synonym workload_key = "nsname \<times> nsname"

record manager =
  mg_heap :: "watch_runtime list"
  mg_registry :: "(nsname, addr) gomap"
  mg_routes :: "(string, deploy_source \<times> addr) gomap"
  mg_lastRevision :: "(workload_key, string) gomap"

definition new_manager :: manager where
  "new_manager = \<lparr>mg_heap = [], mg_registry = [], mg_routes = [], mg_lastRevision = []\<rparr>"

definition registry_Set :: "nsname \<Rightarrow> addr \<Rightarrow> manager \<Rightarrow> manager" where
  "registry_Set key a m = m\<lparr>mg_registry := AList.update key a (mg_registry m)\<rparr>"

definition registry_Get :: "nsname \<Rightarrow> manager \<Rightarrow> addr option" where
  "registry_Get key m = map_of (mg_registry m) key"

definition registry_Delete :: "nsname \<Rightarrow> manager \<Rightarrow> manager" where
  "registry_Delete key m = m\<lparr>mg_registry := AList.delete key (mg_registry m)\<rparr>"

definition registry_Len :: "manager \<Rightarrow> nat" where
  "registry_Len m = length (mg_registry m)"

definition mux_Register :: "string \<Rightarrow> deploy_source \<times> addr \<Rightarrow> manager \<Rightarrow> manager" where
  "mux_Register path h m = m\<lparr>mg_routes := AList.update path h (mg_routes m)\<rparr>"

definition mux_Unregister :: "string \<Rightarrow> manager \<Rightarrow> manager" where
  "mux_Unregister path m = m\<lparr>mg_routes := AList.delete path (mg_routes m)\<rparr>"

definition mux_Len :: "manager \<Rightarrow> nat" where
  "mux_Len m = length (mg_routes m)"

text \<open>The runtime at an address, and an update of it.\<close>

definition at_addr :: "manager \<Rightarrow> addr \<Rightarrow> watch_runtime" where
  "at_addr m a = mg_heap m ! a"

definition update_runtime :: "addr \<Rightarrow> (watch_runtime \<Rightarrow> watch_runtime) \<Rightarrow> manager \<Rightarrow> manager" where
  "update_runtime a f m = m\<lparr>mg_heap := (mg_heap m)[a := f (mg_heap m ! a)]\<rparr>"

definition mux_ServeHTTP :: "decoders \<Rightarrow> (nat \<Rightarrow> gtime) \<Rightarrow> string \<Rightarrow> request \<Rightarrow> manager \<Rightarrow> response \<times> manager" where
  "mux_ServeHTTP d now path r m =
     (case map_of (mg_routes m) path of
        None \<Rightarrow> (http_error ''404 page not found'' 404, m)
      | Some (src, a) \<Rightarrow>
          (let (rs, s') = handler_ServeHTTP d now src r (rt_Store (at_addr m a))
           in (rs, update_runtime a (\<lambda>rt. rt\<lparr>rt_Store := s'\<rparr>) m)))"

section \<open>DeploySource reconciler\<close>

datatype reconcile_result = Done | RequeueAfter duration | ReconcileError string

definition pendingRequeueInterval :: duration where "pendingRequeueInterval = 10 * second_d"

definition webhookPath :: "nsname \<Rightarrow> string" where
  "webhookPath key = ''/webhook/'' @ nn_Namespace key @ ''/'' @ nn_Name key"

definition ready_condition :: "string \<Rightarrow> string \<Rightarrow> string \<Rightarrow> int \<Rightarrow> condition" where
  "ready_condition status reason msg gen =
     \<lparr>co_Type = ''Ready'', co_Status = status, co_Reason = reason, co_Message = msg, co_ObservedGeneration = gen, co_LastTransitionTime = 0\<rparr>"

definition source_status_update :: "gtime \<Rightarrow> source_phase \<Rightarrow> string \<Rightarrow> string \<Rightarrow> string \<Rightarrow> string \<Rightarrow> string \<Rightarrow> source_object \<Rightarrow> source_object" where
  "source_status_update now phase path msg cstatus creason cmsg src =
     src\<lparr>so_Status := \<lparr>dst_Phase = Some phase, dst_ObservedGeneration = so_Generation src, dst_WebhookPath = path, dst_Message = msg,
       dst_Conditions = setCondition now (ready_condition cstatus creason cmsg (so_Generation src)) (dst_Conditions (so_Status src))\<rparr>\<rparr>"

text \<open>The route's source as \<open>Reconcile\<close> fills it in; \<open>ClusterName\<close> is not set there.\<close>

definition route_source :: "nsname \<Rightarrow> source_spec \<Rightarrow> string \<Rightarrow> deploy_source" where
  "route_source key sp sourceType =
     \<lparr>ds_Name = nn_Name key, ds_Namespace = nn_Namespace key, ds_PostgresWatchRef = dss_PostgresWatchRef sp, ds_SourceType = sourceType,
      ds_AppName = dss_AppName sp, ds_ClusterName = [], ds_WebhookSecret = dss_WebhookSecret sp\<rparr>"

text \<open>\<open>update\<close> is \<open>Status().Update\<close> at the API server; the object handed to it is part of the result.\<close>

definition status_update_result :: "('o \<Rightarrow> string option) \<Rightarrow> 'o \<Rightarrow> reconcile_result \<Rightarrow> reconcile_result \<times> 'o option" where
  "status_update_result update obj ok = (case update obj of Some err \<Rightarrow> (ReconcileError err, Some obj) | None \<Rightarrow> (ok, Some obj))"

definition deploysource_Reconcile :: "(source_object \<Rightarrow> string option) \<Rightarrow> gtime \<Rightarrow> source_object kget \<Rightarrow> nsname \<Rightarrow> manager \<Rightarrow>
    (reconcile_result \<times> source_object option) \<times> manager" where
  "deploysource_Reconcile update now got key m =
     (let path = webhookPath key
      in case got of
           NotFound err \<Rightarrow> ((Done, None), mux_Unregister path m)
         | GetError err \<Rightarrow> ((ReconcileError err, None), m)
         | Found src \<Rightarrow>
             (let sp = so_Spec src
              in case registry_Get \<lparr>nn_Namespace = nn_Namespace key, nn_Name = dss_PostgresWatchRef sp\<rparr> m of
                   None \<Rightarrow>
                     (let msg = ''postgresWatchRef '' @ go_quote (dss_PostgresWatchRef sp) @ '' not found or not yet running''
                      in (status_update_result update (source_status_update now SourcePending [] msg ''False'' ''PostgresWatchNotReady'' msg src)
                            (RequeueAfter pendingRequeueInterval), mux_Unregister path m))
                 | Some a \<Rightarrow>
                     (let sourceType = (if dss_SourceType sp = [] then ''generic'' else dss_SourceType sp)
                      in if sourceType = ''kubernetes'' then
                           (let msg = ''Watched natively via the Kubernetes API; no webhook route is registered.''
                            in (status_update_result update (source_status_update now SourceReady [] msg ''True'' ''NativeWatchActive'' msg src) Done,
                                mux_Unregister path m))
                         else
                           (status_update_result update
                              (source_status_update now SourceReady path [] ''True'' ''RouteRegistered'' ''Webhook route is active.'' src) Done,
                            mux_Register path (route_source key sp sourceType, a) m))))"

section \<open>Workload reconciler\<close>

record deployment =
  dep_Generation :: int
  dep_Annotations :: "(string, string) gomap"
  dep_Replicas :: "int option"
  dep_ObservedGeneration :: int
  dep_StatusReplicas :: int
  dep_UpdatedReplicas :: int
  dep_AvailableReplicas :: int

record stateful_set =
  sts_Generation :: int
  sts_Replicas :: "int option"
  sts_ObservedGeneration :: int
  sts_UpdatedReplicas :: int
  sts_CurrentRevision :: string
  sts_UpdateRevision :: string

definition deploymentRolloutComplete :: "deployment \<Rightarrow> bool" where
  "deploymentRolloutComplete d =
     (if dep_ObservedGeneration d < dep_Generation d then False
      else let want = (case dep_Replicas d of Some n \<Rightarrow> n | None \<Rightarrow> 1)
           in dep_UpdatedReplicas d = want \<and> dep_StatusReplicas d = want \<and> dep_AvailableReplicas d = want)"

definition statefulSetRolloutComplete :: "stateful_set \<Rightarrow> bool" where
  "statefulSetRolloutComplete s =
     (if sts_ObservedGeneration s < sts_Generation s then False
      else let want = (case sts_Replicas s of Some n \<Rightarrow> n | None \<Rightarrow> 1)
           in sts_UpdatedReplicas s = want \<and> sts_CurrentRevision s = sts_UpdateRevision s)"

definition forgetWorkload :: "nsname \<Rightarrow> manager \<Rightarrow> manager" where
  "forgetWorkload w m = m\<lparr>mg_lastRevision := filter (\<lambda>((ds, w'), rev). w' \<noteq> w) (mg_lastRevision m)\<rparr>"

definition workload_matches :: "string \<Rightarrow> nsname \<Rightarrow> source_object \<Rightarrow> bool" where
  "workload_matches kind key ds \<longleftrightarrow>
     dss_SourceType (so_Spec ds) = ''kubernetes'' \<and> dss_WorkloadKind (so_Spec ds) = kind \<and> dss_AppName (so_Spec ds) = nn_Name key"

definition workload_event_id :: "string \<Rightarrow> nsname \<Rightarrow> string \<Rightarrow> string \<Rightarrow> string" where
  "workload_event_id kind key source revision =
     ''k8s-'' @ kind @ ''-'' @ nn_Namespace key @ ''-'' @ nn_Name key @ ''-'' @ source @ ''-'' @ revision"

definition workload_event :: "string \<Rightarrow> nsname \<Rightarrow> string \<Rightarrow> string \<Rightarrow> string \<Rightarrow> gtime \<Rightarrow> deploy_event" where
  "workload_event kind key source cluster revision now =
     \<lparr>ev_ID = workload_event_id kind key source revision, ev_Source = source, ev_App = nn_Name key, ev_Cluster = cluster,
      ev_Namespace = nn_Namespace key, ev_Revision = revision, ev_ImageTag = [], ev_Timestamp = now\<rparr>"

definition watch_of :: "source_object \<Rightarrow> nsname" where
  "watch_of ds = \<lparr>nn_Namespace = nn_Namespace (so_Key ds), nn_Name = dss_PostgresWatchRef (so_Spec ds)\<rparr>"

text \<open>The loop over the matching sources; \<open>clock\<close> gives the time each event is stamped with.\<close>

fun workload_loop :: "(nsname \<Rightarrow> gtime) \<Rightarrow> string \<Rightarrow> nsname \<Rightarrow> string \<Rightarrow> source_object list \<Rightarrow> manager \<times> bool \<Rightarrow> manager \<times> bool" where
  "workload_loop clock kind key revision [] st = st"
| "workload_loop clock kind key revision (ds # dss) (m, requeue) =
     (let k = (so_Key ds, key)
      in if map_get [] (mg_lastRevision m) k = revision then workload_loop clock kind key revision dss (m, requeue)
         else (case registry_Get (watch_of ds) m of
                 None \<Rightarrow> workload_loop clock kind key revision dss (m, True)
               | Some a \<Rightarrow>
                   (let ev = workload_event kind key (nn_Name (so_Key ds)) (rt_ClusterName (at_addr m a)) revision (clock (so_Key ds));
                        m1 = update_runtime a (\<lambda>rt. rt\<lparr>rt_Store := store_Add ev (rt_Store rt)\<rparr>) m
                    in workload_loop clock kind key revision dss
                         (m1\<lparr>mg_lastRevision := AList.update k revision (mg_lastRevision m1)\<rparr>, requeue))))"

definition reconcileWorkload :: "(nsname \<Rightarrow> gtime) \<Rightarrow> source_object list \<Rightarrow> string \<Rightarrow> nsname \<Rightarrow> string \<Rightarrow> bool \<Rightarrow> manager \<Rightarrow> reconcile_result \<times> manager" where
  "reconcileWorkload clock sources kind key revision rolloutComplete m =
     (let matches = filter (workload_matches kind key) sources
      in if matches = [] then (Done, m)
         else if \<not> rolloutComplete \<or> revision = [] then (Done, m)
         else (case workload_loop clock kind key revision matches (m, False) of
                 (m', requeue) \<Rightarrow> (if requeue then RequeueAfter pendingRequeueInterval else Done, m')))"

definition workload_Reconcile :: "(nsname \<Rightarrow> gtime) \<Rightarrow> string + source_object list \<Rightarrow> deployment kget \<Rightarrow> stateful_set kget \<Rightarrow> nsname \<Rightarrow> manager \<Rightarrow>
    reconcile_result \<times> manager" where
  "workload_Reconcile clock listed gotD gotS key m =
     (case listed of
        Inl err \<Rightarrow> (ReconcileError (''list deploysources in '' @ nn_Namespace key @ '': '' @ err), m)
      | Inr sources \<Rightarrow>
          (case gotD of
             Found d \<Rightarrow> reconcileWorkload clock sources ''Deployment'' key
               (map_get [] (dep_Annotations d) ''deployment.kubernetes.io/revision'') (deploymentRolloutComplete d) m
           | GetError err \<Rightarrow> (ReconcileError err, m)
           | NotFound _ \<Rightarrow>
               (case gotS of
                  Found s \<Rightarrow> reconcileWorkload clock sources ''StatefulSet'' key (sts_UpdateRevision s) (statefulSetRolloutComplete s) m
                | GetError err \<Rightarrow> (ReconcileError err, m)
                | NotFound _ \<Rightarrow> (Done, forgetWorkload key m))))"

section \<open>Invariant\<close>

text \<open>Every address in use points into the heap, two watches never share a runtime, the stores are well
  formed, plans are captured only where there is a collector, and exactly the runtimes in the registry are live: no worker outlives its watch and none is
  lost.\<close>

definition runtime_ok :: "watch_runtime \<Rightarrow> bool" where
  "runtime_ok rt \<longleftrightarrow> store_inv (rt_Store rt) \<and> (rt_CapturePlans rt \<longrightarrow> rt_Collector rt \<noteq> None)"

definition manager_inv :: "manager \<Rightarrow> bool" where
  "manager_inv m \<longleftrightarrow> distinct (map fst (mg_registry m)) \<and> distinct (map snd (mg_registry m)) \<and>
     (\<forall>(p, src, a)\<in>set (mg_routes m). a < length (mg_heap m)) \<and>
     (\<forall>a\<in>snd ` set (mg_registry m). a < length (mg_heap m)) \<and>
     (\<forall>a<length (mg_heap m). runtime_ok (mg_heap m ! a) \<and> (\<not> rt_cancelled (mg_heap m ! a) \<longleftrightarrow> a \<in> snd ` set (mg_registry m)))"

lemma manager_inv_new: "manager_inv new_manager"
  by (simp add: manager_inv_def new_manager_def)

lemma registry_Get_bound: "manager_inv m \<Longrightarrow> registry_Get key m = Some a \<Longrightarrow> a < length (mg_heap m)"
  unfolding manager_inv_def registry_Get_def by (metis image_eqI map_of_SomeD snd_conv)

lemma manager_inv_store: "manager_inv m \<Longrightarrow> a < length (mg_heap m) \<Longrightarrow> store_inv (rt_Store (at_addr m a))"
  by (simp add: manager_inv_def at_addr_def runtime_ok_def)

lemma manager_inv_update:
  assumes "manager_inv m"
    and "a < length (mg_heap m) \<Longrightarrow> runtime_ok (at_addr m a) \<Longrightarrow> runtime_ok (f (at_addr m a)) \<and> rt_cancelled (f (at_addr m a)) = rt_cancelled (at_addr m a)"
  shows "manager_inv (update_runtime a f m)"
proof (cases "a < length (mg_heap m)")
  case True
  have "runtime_ok ((mg_heap m)[a := f (mg_heap m ! a)] ! b) = runtime_ok (mg_heap m ! b) \<and>
      rt_cancelled ((mg_heap m)[a := f (mg_heap m ! a)] ! b) = rt_cancelled (mg_heap m ! b)" if "b < length (mg_heap m)" for b
    using assms True that by (cases "a = b") (auto simp: manager_inv_def at_addr_def)
  then show ?thesis using assms(1) by (simp add: manager_inv_def update_runtime_def)
qed (use assms in \<open>simp add: update_runtime_def list_update_beyond not_less\<close>)

lemma manager_inv_add: "manager_inv m \<Longrightarrow> manager_inv (update_runtime a (\<lambda>rt. rt\<lparr>rt_Store := store_Add ev (rt_Store rt)\<rparr>) m)"
  by (rule manager_inv_update) (simp_all add: store_Add_inv runtime_ok_def)

lemma manager_inv_lastRevision: "manager_inv (m\<lparr>mg_lastRevision := x\<rparr>) \<longleftrightarrow> manager_inv m"
  by (simp add: manager_inv_def)

lemma manager_inv_register:
  assumes "manager_inv m" "snd h < length (mg_heap m)"
  shows "manager_inv (mux_Register path h m)"
proof -
  have "set (AList.update path h (mg_routes m)) \<subseteq> insert (path, h) (set (mg_routes m))" by (rule set_update_subset)
  then have "\<forall>(p, src, a)\<in>set (AList.update path h (mg_routes m)). a < length (mg_heap m)"
    using assms unfolding manager_inv_def by (cases h) auto
  then show ?thesis using assms(1) by (simp add: manager_inv_def mux_Register_def)
qed

lemma manager_inv_unregister: "manager_inv m \<Longrightarrow> manager_inv (mux_Unregister path m)"
  unfolding manager_inv_def mux_Unregister_def by (auto simp: AList.delete_eq)

lemma manager_inv_forget: "manager_inv m \<Longrightarrow> manager_inv (forgetWorkload w m)"
  by (simp add: forgetWorkload_def manager_inv_lastRevision)

lemma handler_ServeHTTP_inv: "store_inv s \<Longrightarrow> store_inv (snd (handler_ServeHTTP d now src r s))"
  by (auto simp: handler_ServeHTTP_cases store_Add_inv split: sum.splits)

lemma mux_ServeHTTP_inv:
  assumes "manager_inv m"
  shows "manager_inv (snd (mux_ServeHTTP d now path r m))"
proof (cases "map_of (mg_routes m) path")
  case (Some h)
  obtain src a where h: "h = (src, a)" by (cases h)
  have "a < length (mg_heap m)" using map_of_SomeD [OF Some] assms unfolding h manager_inv_def by fastforce
  then show ?thesis using Some h assms handler_ServeHTTP_inv [OF manager_inv_store [OF assms]]
    by (auto simp: mux_ServeHTTP_def runtime_ok_def split: prod.splits intro!: manager_inv_update) (metis snd_conv)+
qed (simp add: mux_ServeHTTP_def assms)

lemma deploysource_Reconcile_inv:
  assumes "manager_inv m"
  shows "manager_inv (snd (deploysource_Reconcile update now got key m))"
  using assms by (auto simp: deploysource_Reconcile_def Let_def registry_Get_bound manager_inv_unregister
      intro!: manager_inv_register split: kget.splits option.splits)

lemma workload_loop_inv: "manager_inv (fst st) \<Longrightarrow> manager_inv (fst (workload_loop clock kind key revision dss st))"
proof (induction clock kind key revision dss st rule: workload_loop.induct)
  case (2 clock kind key revision ds dss m requeue)
  then show ?case
    by (auto simp: Let_def manager_inv_lastRevision manager_inv_add split: option.splits)
qed simp

lemma reconcileWorkload_inv: "manager_inv m \<Longrightarrow> manager_inv (snd (reconcileWorkload clock sources kind key revision ok m))"
  using workload_loop_inv [of "(m, False)"] by (auto simp: reconcileWorkload_def Let_def split: prod.splits) (metis fst_conv)

lemma workload_Reconcile_inv: "manager_inv m \<Longrightarrow> manager_inv (snd (workload_Reconcile clock listed gotD gotS key m))"
  by (auto simp: workload_Reconcile_def reconcileWorkload_inv manager_inv_forget split: sum.splits kget.splits)

section \<open>Deploys of plain workloads\<close>

lemma update_runtime_simps [simp]:
  "mg_registry (update_runtime a f m) = mg_registry m" "mg_routes (update_runtime a f m) = mg_routes m"
  "mg_lastRevision (update_runtime a f m) = mg_lastRevision m" "registry_Get key (update_runtime a f m) = registry_Get key m"
  by (simp_all add: update_runtime_def registry_Get_def)

lemma at_addr_update: "b < length (mg_heap m) \<Longrightarrow> at_addr (update_runtime a f m) b = (if a = b then f (at_addr m b) else at_addr m b)"
  by (simp add: update_runtime_def at_addr_def nth_list_update)

lemma at_addr_lastRevision [simp]: "at_addr (m\<lparr>mg_lastRevision := x\<rparr>) a = at_addr m a" "registry_Get key (m\<lparr>mg_lastRevision := x\<rparr>) = registry_Get key m"
  by (simp_all add: at_addr_def registry_Get_def)

definition stored_ids :: "manager \<Rightarrow> addr \<Rightarrow> string set" where
  "stored_ids m a = ev_ID ` set (st_events (rt_Store (at_addr m a)))"

lemma stored_ids_lastRevision [simp]: "stored_ids (m\<lparr>mg_lastRevision := x\<rparr>) a = stored_ids m a"
  by (simp add: stored_ids_def)

lemma stored_ids_add:
  assumes "manager_inv m" "a < length (mg_heap m)"
  shows "stored_ids (update_runtime b (\<lambda>rt. rt\<lparr>rt_Store := store_Add ev (rt_Store rt)\<rparr>) m) a =
     (if a = b then insert (ev_ID ev) (stored_ids m a) else stored_ids m a)"
  using assms by (auto simp: stored_ids_def at_addr_update store_Add_events [OF manager_inv_store])

text \<open>One pass of the loop, as an induction principle for what it keeps: a fact about the manager that
  recording a revision and adding an event preserve.\<close>

lemma workload_loop_keeps:
  assumes "P m"
    and "\<And>m ds a ev. P m \<Longrightarrow> ds \<in> set dss \<Longrightarrow> registry_Get (watch_of ds) m = Some a \<Longrightarrow>
        P ((update_runtime a (\<lambda>rt. rt\<lparr>rt_Store := store_Add ev (rt_Store rt)\<rparr>) m)
            \<lparr>mg_lastRevision := AList.update (so_Key ds, key) revision (mg_lastRevision m)\<rparr>)"
  shows "P (fst (workload_loop clock kind key revision dss (m, requeue)))"
  using assms
proof (induction dss arbitrary: m requeue)
  case (Cons ds dss)
  then show ?case by (auto simp: Let_def split: option.splits)
qed simp

lemma workload_loop_frame:
  assumes "manager_inv m"
  shows "mg_registry (fst (workload_loop clock kind key revision dss (m, requeue))) = mg_registry m \<and>
     length (mg_heap (fst (workload_loop clock kind key revision dss (m, requeue)))) = length (mg_heap m) \<and>
     (\<forall>a<length (mg_heap m). stored_ids m a \<subseteq> stored_ids (fst (workload_loop clock kind key revision dss (m, requeue))) a) \<and>
     (\<forall>k. map_get [] (mg_lastRevision m) k = revision \<longrightarrow>
        map_get [] (mg_lastRevision (fst (workload_loop clock kind key revision dss (m, requeue)))) k = revision)"
proof -
  let ?P = "\<lambda>m'. manager_inv m' \<and> mg_registry m' = mg_registry m \<and> length (mg_heap m') = length (mg_heap m) \<and>
     (\<forall>a<length (mg_heap m). stored_ids m a \<subseteq> stored_ids m' a) \<and>
     (\<forall>k. map_get [] (mg_lastRevision m) k = revision \<longrightarrow> map_get [] (mg_lastRevision m') k = revision)"
  have "?P (fst (workload_loop clock kind key revision dss (m, requeue)))"
  proof (rule workload_loop_keeps [where P = ?P])
    fix m' ds a ev
    assume P: "?P m'" and "registry_Get (watch_of ds) m' = Some a"
    let ?m = "update_runtime a (\<lambda>rt. rt\<lparr>rt_Store := store_Add ev (rt_Store rt)\<rparr>) m'"
    have "manager_inv ?m" using P manager_inv_add by blast
    moreover have "stored_ids m b \<subseteq> stored_ids ?m b" if "b < length (mg_heap m)" for b
    proof -
      have "stored_ids m b \<subseteq> stored_ids m' b" using P that by blast
      also have "\<dots> \<subseteq> stored_ids ?m b" using stored_ids_add [of m' b a ev] P that by auto
      finally show ?thesis .
    qed
    moreover have "length (mg_heap ?m) = length (mg_heap m')" by (simp add: update_runtime_def)
    ultimately show "?P (?m\<lparr>mg_lastRevision := AList.update (so_Key ds, key) revision (mg_lastRevision m')\<rparr>)"
      using P by (simp add: manager_inv_lastRevision)
  qed (use assms in simp)
  then show ?thesis by simp
qed

lemma workload_loop_delivers:
  assumes "manager_inv m" "ds \<in> set dss" "registry_Get (watch_of ds) m = Some a"
  shows "map_get [] (mg_lastRevision (fst (workload_loop clock kind key revision dss (m, requeue)))) (so_Key ds, key) = revision \<and>
     (distinct (map so_Key dss) \<longrightarrow> map_get [] (mg_lastRevision m) (so_Key ds, key) \<noteq> revision \<longrightarrow>
        workload_event_id kind key (nn_Name (so_Key ds)) revision \<in> stored_ids (fst (workload_loop clock kind key revision dss (m, requeue))) a)"
  using assms
proof (induction dss arbitrary: m requeue)
  case (Cons d dss)
  note a = registry_Get_bound [OF Cons.prems(1,3)]
  define ev where "ev b = workload_event kind key (nn_Name (so_Key d)) (rt_ClusterName (at_addr m b)) revision (clock (so_Key d))" for b
  define m1 where "m1 b = (update_runtime b (\<lambda>rt. rt\<lparr>rt_Store := store_Add (ev b) (rt_Store rt)\<rparr>) m)
     \<lparr>mg_lastRevision := AList.update (so_Key d, key) revision (mg_lastRevision m)\<rparr>" for b
  have inv: "manager_inv (m1 b)" for b
    unfolding m1_def manager_inv_lastRevision using Cons.prems(1) by (rule manager_inv_add)
  have reg: "registry_Get k (m1 b) = registry_Get k m" for k b by (simp add: m1_def)
  have len: "length (mg_heap (m1 b)) = length (mg_heap m)" for b by (simp add: m1_def update_runtime_def)
  have step: "workload_loop clock kind key revision (d # dss) (m, requeue) =
      (if map_get [] (mg_lastRevision m) (so_Key d, key) = revision then workload_loop clock kind key revision dss (m, requeue)
       else case registry_Get (watch_of d) m of None \<Rightarrow> workload_loop clock kind key revision dss (m, True)
         | Some b \<Rightarrow> workload_loop clock kind key revision dss (m1 b, requeue))"
    by (simp add: Let_def m1_def ev_def cong: option.case_cong)
  show ?case
  proof (cases "ds = d")
    case True
    show ?thesis
    proof (cases "map_get [] (mg_lastRevision m) (so_Key d, key) = revision")
      case False
      have "ev_ID (ev a) \<in> stored_ids (m1 a) a"
        using stored_ids_add [OF Cons.prems(1) a, of a "ev a"] by (simp add: m1_def stored_ids_def)
      then show ?thesis using workload_loop_frame [OF inv, of clock kind key revision dss a requeue] a len False Cons.prems(3)
        unfolding step by (auto simp: True m1_def ev_def workload_event_def)
    qed (use workload_loop_frame [OF Cons.prems(1)] in \<open>simp add: True\<close>)
  next
    case False
    then have ds: "ds \<in> set dss" using Cons.prems(2) by simp
    have other: "so_Key ds \<noteq> so_Key d" if "distinct (map so_Key (d # dss))" using that ds by (auto simp: image_iff)
    note IH = Cons.IH [OF Cons.prems(1) ds Cons.prems(3)] Cons.IH [OF inv ds, unfolded reg, OF Cons.prems(3)]
    show ?thesis unfolding step using IH(1) [of requeue] IH(1) [of True] IH(2) [of _ requeue] other
      by (auto simp: m1_def split: option.splits)
  qed
qed simp

lemma workload_loop_idle:
  assumes "\<forall>ds\<in>set dss. registry_Get (watch_of ds) m = None \<or> map_get [] (mg_lastRevision m) (so_Key ds, key) = revision"
  shows "fst (workload_loop clock kind key revision dss (m, requeue)) = m"
  using assms by (induction dss arbitrary: requeue) (auto simp: Let_def)

section \<open>Properties\<close>

text \<open>C27: A finished rollout of a plain workload reaches the watches: for every DeploySource that matches the
  workload, has not reported this revision and whose watch runs, the event of the rollout is in that
  watch's store afterwards, whatever other sources match; no stored event is lost, and a further
  reconciliation of the same revision changes nothing.\<close>

theorem workload_rollout_delivered:
  assumes "manager_inv m" "ds \<in> set sources" "workload_matches kind key ds" "revision \<noteq> []" "distinct (map so_Key sources)"
    and "registry_Get (watch_of ds) m = Some a" "map_get [] (mg_lastRevision m) (so_Key ds, key) \<noteq> revision"
    and "reconcileWorkload clock sources kind key revision True m = (res, m')"
  shows "workload_event_id kind key (nn_Name (so_Key ds)) revision \<in> stored_ids m' a \<and>
    (\<forall>b<length (mg_heap m). stored_ids m b \<subseteq> stored_ids m' b) \<and>
    snd (reconcileWorkload clock' sources kind key revision True m') = m'"
proof -
  let ?ms = "filter (workload_matches kind key) sources"
  have ds: "ds \<in> set ?ms" using assms(2,3) by simp
  have m': "m' = fst (workload_loop clock kind key revision ?ms (m, False))"
    using assms(4,8) ds by (auto simp: reconcileWorkload_def Let_def split: prod.splits if_splits)
  note frame = workload_loop_frame [OF assms(1), of clock kind key revision ?ms False, folded m']
  have "registry_Get (watch_of d) m' = None \<or> map_get [] (mg_lastRevision m') (so_Key d, key) = revision" if "d \<in> set ?ms" for d
    using workload_loop_delivers [OF assms(1) that, of _ clock kind key revision False] frame
    unfolding m' registry_Get_def by (cases "map_of (mg_registry m) (watch_of d)") auto
  then have "fst (workload_loop clock' kind key revision ?ms (m', False)) = m'" by (intro workload_loop_idle) blast
  then have "snd (reconcileWorkload clock' sources kind key revision True m') = m'"
    by (auto simp: reconcileWorkload_def Let_def split: prod.splits)
  moreover have "distinct (map so_Key ?ms)" using assms(5) by (simp add: distinct_map_filter)
  ultimately show ?thesis
    using workload_loop_delivers [OF assms(1) ds assms(6), of clock kind key revision False] assms(7) frame unfolding m' by blast
qed

text \<open>C39: A workload that is deleted and created again is not reported, although \<open>Reconcile\<close> forgets its
  revision for that purpose: the new rollout counts revisions from the start, the event id is built
  from the revision, and the store drops the event as a duplicate.\<close>

theorem recreated_workload_dropped:
  assumes "manager_inv m" "workload_matches kind key ds" "registry_Get (watch_of ds) m = Some a" "revision \<noteq> []"
    and "workload_event_id kind key (nn_Name (so_Key ds)) revision \<in> stored_ids m a"
  shows "map_get [] (mg_lastRevision (forgetWorkload key m)) (so_Key ds, key) = [] \<and>
    st_events (rt_Store (at_addr (snd (reconcileWorkload clock [ds] kind key revision True (forgetWorkload key m))) a)) =
    st_events (rt_Store (at_addr m a))"
proof
  have gone: "map_get [] (filter (\<lambda>((d, w'), r). w' \<noteq> w) l) (k, w) = []" for k w and l :: "(workload_key, string) gomap"
    by (induction l) auto
  then show "map_get [] (mg_lastRevision (forgetWorkload key m)) (so_Key ds, key) = []" by (simp add: forgetWorkload_def)
  have a: "a < length (mg_heap (forgetWorkload key m))" using registry_Get_bound [OF assms(1,3)] by (simp add: forgetWorkload_def)
  have "registry_Get (watch_of ds) (forgetWorkload key m) = Some a" using assms(3) by (simp add: forgetWorkload_def)
  then show "st_events (rt_Store (at_addr (snd (reconcileWorkload clock [ds] kind key revision True (forgetWorkload key m))) a)) =
    st_events (rt_Store (at_addr m a))"
    using assms(2,4,5) gone a store_Add_events [OF manager_inv_store [OF manager_inv_forget [OF assms(1)] a]]
    by (simp add: reconcileWorkload_def Let_def at_addr_update stored_ids_def workload_event_def)
       (simp add: forgetWorkload_def)
qed

section \<open>Witnesses\<close>

definition sample_runtime :: watch_runtime where
  "sample_runtime = \<lparr>rt_Store = zero_store, rt_Collector = None, rt_Prom = None, rt_EngineCfg = eng_cfg sample_engine,
     rt_Notifier = newWebhookNotifier [] 0 ''c'' None, rt_SpecHash = ''h'', rt_ClusterName = ''c'', rt_CapturePlans = False,
     rt_AutoAbortEnabled = False, rt_AutoAbortThreshold = 1, rt_PeriodicTracker = newPeriodicTracker, rt_PeriodicEnabled = False,
     rt_PeriodicIntervalMinutes = 15, rt_cursor = 0, rt_pending = [], rt_cancelled = False\<rparr>"

definition in_ns :: "string \<Rightarrow> nsname" where "in_ns n = \<lparr>nn_Namespace = ''ns'', nn_Name = n\<rparr>"

definition sample_manager :: manager where
  "sample_manager = \<lparr>mg_heap = [sample_runtime], mg_registry = [(in_ns ''w'', 0)], mg_routes = [], mg_lastRevision = []\<rparr>"

definition sample_ds :: "string \<Rightarrow> source_object" where
  "sample_ds st = \<lparr>so_Key = in_ns ''src'', so_Generation = 1,
     so_Spec = \<lparr>dss_PostgresWatchRef = ''w'', dss_SourceType = st, dss_AppName = ''app'', dss_WorkloadKind = ''Deployment'', dss_WebhookSecret = []\<rparr>,
     so_Status = \<lparr>dst_Phase = None, dst_ObservedGeneration = 0, dst_WebhookPath = [], dst_Message = [], dst_Conditions = []\<rparr>\<rparr>"

lemma sample_manager_inv: "manager_inv sample_manager"
  by (simp add: manager_inv_def runtime_ok_def sample_manager_def sample_runtime_def store_inv_new)

lemma sample_ds_facts:
  "workload_matches ''Deployment'' (in_ns ''app'') (sample_ds ''kubernetes'')"
  "registry_Get (watch_of (sample_ds st)) sample_manager = Some 0"
  "mg_lastRevision sample_manager = []"
  by (simp_all add: workload_matches_def watch_of_def registry_Get_def sample_ds_def sample_manager_def in_ns_def)

definition after_rollout :: manager where
  "after_rollout = snd (reconcileWorkload (\<lambda>k. 5) [sample_ds ''kubernetes''] ''Deployment'' (in_ns ''app'') ''1'' True sample_manager)"

theorem workload_rollout_delivered_witness:
  "workload_event_id ''Deployment'' (in_ns ''app'') ''src'' ''1'' \<in> stored_ids after_rollout 0"
  using workload_rollout_delivered [OF sample_manager_inv _ sample_ds_facts(1), of "[sample_ds ''kubernetes'']" "''1''" 0 "\<lambda>k. 5"
      "fst (reconcileWorkload (\<lambda>k. 5) [sample_ds ''kubernetes''] ''Deployment'' (in_ns ''app'') ''1'' True sample_manager)" after_rollout]
  by (simp add: sample_ds_facts after_rollout_def) (simp add: sample_ds_def in_ns_def)

lemma after_rollout_registry: "mg_registry after_rollout = mg_registry sample_manager"
  by (simp add: after_rollout_def reconcileWorkload_def Let_def sample_ds_facts)

theorem recreated_workload_dropped_witness:
  "st_events (rt_Store (at_addr (snd (reconcileWorkload (\<lambda>k. 9) [sample_ds ''kubernetes''] ''Deployment'' (in_ns ''app'') ''1'' True
      (forgetWorkload (in_ns ''app'') after_rollout))) 0)) = st_events (rt_Store (at_addr after_rollout 0))"
proof -
  have "manager_inv after_rollout" unfolding after_rollout_def by (rule reconcileWorkload_inv [OF sample_manager_inv])
  moreover have "registry_Get (watch_of (sample_ds ''kubernetes'')) after_rollout = Some 0"
    using sample_ds_facts(2) after_rollout_registry by (simp add: registry_Get_def)
  moreover have "workload_event_id ''Deployment'' (in_ns ''app'') (nn_Name (so_Key (sample_ds ''kubernetes''))) ''1'' \<in> stored_ids after_rollout 0"
    using workload_loop_delivers [OF sample_manager_inv, of _ "[sample_ds ''kubernetes'']" 0 "\<lambda>k. 5" "''Deployment''" "in_ns ''app''" "''1''" False]
    by (auto simp: after_rollout_def reconcileWorkload_def sample_ds_facts split: prod.splits simp del: workload_loop.simps)
  ultimately show ?thesis using recreated_workload_dropped [OF _ sample_ds_facts(1)] by simp
qed

end
