(* ===== verification/Secret_Access.thy ===== *)
theory Secret_Access
  imports Kube_Types
begin

text \<open>
  How the manager obtains a database DSN (\<open>internal/controller/secret_consent.go\<close>,
  \<open>remote_client.go\<close> and \<open>resolveDSN\<close> of \<open>postgreswatch_controller.go\<close>): the consent label on every
  Secret it reads, the cache of clients for remote clusters, the restrictions on a kubeconfig, and
  the resolution of the DSN through the hub or a remote cluster. A client is the function that looks
  up a Secret with it; \<open>clientcmd\<close>, the construction of a client and SHA-256 are arguments.
\<close>

section \<open>Consent\<close>

definition secretConsentLabel :: string where "secretConsentLabel = ''pg-regression-radar.io/allow-postgreswatch-access''"
definition secretConsentValue :: string where "secretConsentValue = ''true''"

definition checkSecretConsent :: "secret \<Rightarrow> string \<Rightarrow> string option" where
  "checkSecretConsent s kind =
     (if map_get [] (sec_Labels s) secretConsentLabel = secretConsentValue then None
      else Some (kind @ '' '' @ nn_String (sec_Key s) @ '' is missing the required consent label '' @ secretConsentLabel @ ''='' @ secretConsentValue @
        '' '' @ em_dash @ '' a PostgresWatch cannot reference a Secret its owner hasn't explicitly opted in, even though the manager's RBAC can read it; add the label to the Secret to allow this (see docs/multi-cluster.md#secret-consent-label)''))"

section \<open>Clients for remote clusters\<close>

type_synonym client = "nsname \<Rightarrow> secret kget"

record auth_info =
  ai_Exec :: bool
  ai_AuthProvider :: bool

record kube_config =
  kc_AuthInfos :: "(string, auth_info) gomap"
  kc_Clusters :: "(string, string) gomap"

text \<open>What the libraries do: parse a kubeconfig, make a REST configuration of it (or fail), make a client
  of that (or fail), hash the bytes.\<close>

record client_lib =
  lib_Load :: "string \<Rightarrow> string + kube_config"
  lib_ClientConfig :: "kube_config \<Rightarrow> string option"
  lib_New :: "kube_config \<Rightarrow> string + client"
  lib_Hash :: "string \<Rightarrow> string"

fun check_users :: "(string, auth_info) gomap \<Rightarrow> string option" where
  "check_users [] = None"
| "check_users ((name, ai) # us) =
     (if ai_Exec ai then Some (''kubeconfig user '' @ go_quote name @ '' uses an exec-based credential plugin, which is not allowed for remoteClusterSecretRef (client-go would execute it as a local process in the manager pod) '' @ em_dash @ '' use a static bearer token or client-certificate credential instead; see docs/multi-cluster.md#kubeconfig-restrictions'')
      else if ai_AuthProvider ai then Some (''kubeconfig user '' @ go_quote name @ '' uses the deprecated auth-provider mechanism, which is not allowed for remoteClusterSecretRef '' @ em_dash @ '' use a static bearer token or client-certificate credential instead; see docs/multi-cluster.md#kubeconfig-restrictions'')
      else check_users us)"

fun check_clusters :: "(string, string) gomap \<Rightarrow> string option" where
  "check_clusters [] = None"
| "check_clusters ((name, proxy) # cs) =
     (if proxy \<noteq> [] then Some (''kubeconfig cluster '' @ go_quote name @ '' sets proxy-url, which is not allowed for remoteClusterSecretRef (it would route the manager's API traffic through an attacker-chosen proxy) '' @ em_dash @ '' remove proxy-url from the kubeconfig; see docs/multi-cluster.md#kubeconfig-restrictions'')
      else check_clusters cs)"

definition validateKubeconfigAuth :: "kube_config \<Rightarrow> string option" where
  "validateKubeconfigAuth cfg =
     (case check_users (kc_AuthInfos cfg) of Some err \<Rightarrow> Some err | None \<Rightarrow> check_clusters (kc_Clusters cfg))"

definition buildRemoteClient :: "client_lib \<Rightarrow> string \<Rightarrow> string + client" where
  "buildRemoteClient lib kubeconfig =
     (case lib_Load lib kubeconfig of
        Inl err \<Rightarrow> Inl (''parse kubeconfig: '' @ err)
      | Inr raw \<Rightarrow>
          (case validateKubeconfigAuth raw of
             Some err \<Rightarrow> Inl err
           | None \<Rightarrow>
               (case lib_ClientConfig lib raw of
                  Some err \<Rightarrow> Inl (''build rest config from kubeconfig: '' @ err)
                | None \<Rightarrow> (case lib_New lib raw of
                             Inl err \<Rightarrow> Inl (''build client for remote cluster: '' @ err)
                           | Inr cl \<Rightarrow> Inr cl))))"

record cache_entry =
  ce_client :: client
  ce_lastUsed :: gtime

type_synonym client_cache = "(string, cache_entry) gomap"

definition remoteClientTTL :: duration where "remoteClientTTL = hour_d"

text \<open>The two critical sections of \<open>get\<close>: the lookup before a client is built, and the insertion after,
  which prefers a client that another call has inserted in between. A call of \<open>get\<close> is one step here; \<open>racing_gets_agree\<close> below is about
  calls that overlap.\<close>

definition cache_lookup :: "string \<Rightarrow> gtime \<Rightarrow> client_cache \<Rightarrow> client option \<times> client_cache" where
  "cache_lookup key now c =
     (case map_of c key of
        Some e \<Rightarrow> (Some (ce_client e), AList.update key (e\<lparr>ce_lastUsed := now\<rparr>) c)
      | None \<Rightarrow> (None, c))"

definition cache_insert :: "string \<Rightarrow> gtime \<Rightarrow> client \<Rightarrow> client_cache \<Rightarrow> client \<times> client_cache" where
  "cache_insert key now built c =
     (case map_of c key of
        Some e \<Rightarrow> (ce_client e, AList.update key (e\<lparr>ce_lastUsed := now\<rparr>) c)
      | None \<Rightarrow> (built, AList.update key \<lparr>ce_client = built, ce_lastUsed = now\<rparr> c))"

definition cache_get :: "client_lib \<Rightarrow> gtime \<Rightarrow> string \<Rightarrow> client_cache \<Rightarrow> (string + client) \<times> client_cache" where
  "cache_get lib now kubeconfig c =
     (let key = lib_Hash lib kubeconfig
      in (case cache_lookup key now c of
            (Some cl, c') \<Rightarrow> (Inr cl, c')
          | (None, c') \<Rightarrow>
              (case buildRemoteClient lib kubeconfig of
                 Inl err \<Rightarrow> (Inl err, c')
               | Inr built \<Rightarrow> (case cache_insert key now built c' of (cl, c'') \<Rightarrow> (Inr cl, c'')))))"

definition cache_evict :: "client_lib \<Rightarrow> string \<Rightarrow> client_cache \<Rightarrow> client_cache" where
  "cache_evict lib kubeconfig c = AList.delete (lib_Hash lib kubeconfig) c"

definition evictOlderThan :: "duration \<Rightarrow> gtime \<Rightarrow> client_cache \<Rightarrow> nat \<times> client_cache" where
  "evictOlderThan ttl now c =
     (let cutoff = time_add now (dur_neg ttl)
      in (length (filter (\<lambda>(k, e). time_before (ce_lastUsed e) cutoff) c),
          filter (\<lambda>(k, e). \<not> time_before (ce_lastUsed e) cutoff) c))"

definition cache_sweeps :: "gtime list \<Rightarrow> client_cache \<Rightarrow> client_cache" where
  "cache_sweeps ticks c = fold (\<lambda>now c. snd (evictOlderThan remoteClientTTL now c)) ticks c"

section \<open>Resolution of the DSN\<close>

record hub =
  hub_secret :: "nsname \<Rightarrow> secret kget"
  hub_cluster :: "string \<Rightarrow> radar_cluster kget"

definition kget_error :: "string \<Rightarrow> 'a kget \<Rightarrow> string + 'a" where
  "kget_error msg g = (case g of Found x \<Rightarrow> Inr x | NotFound err \<Rightarrow> Inl (msg @ err) | GetError err \<Rightarrow> Inl (msg @ err))"

definition dsnSecretNamespace :: "postgres_watch \<Rightarrow> string \<Rightarrow> string" where
  "dsnSecretNamespace watch clusterDefault =
     (let sp = pw_Spec watch; own = nn_Namespace (pw_Key watch)
      in if wsp_RemoteClusterRef sp = [] \<and> wsp_RemoteClusterSecretRef sp = None then own
         else if wsp_RemoteNamespace sp \<noteq> [] then wsp_RemoteNamespace sp
         else if clusterDefault \<noteq> [] then clusterDefault
         else own)"

text \<open>A routed client: the client, the kubeconfig it was built from (none for the hub) and the default
  namespace of the registered cluster.\<close>

type_synonym routed = "client \<times> string option \<times> string"

definition remote_from :: "client_lib \<Rightarrow> gtime \<Rightarrow> string \<Rightarrow> string \<Rightarrow> string \<Rightarrow> string \<Rightarrow> secret kget \<Rightarrow> string \<Rightarrow> string \<Rightarrow>
    client_cache \<Rightarrow> (string + routed) \<times> client_cache" where
  "remote_from lib now fetchMsg kind keyMsg buildMsg found key defaultNS cache =
     (case kget_error fetchMsg found of
        Inl err \<Rightarrow> (Inl err, cache)
      | Inr s \<Rightarrow>
          (case checkSecretConsent s kind of
             Some err \<Rightarrow> (Inl err, cache)
           | None \<Rightarrow>
               (case map_of (sec_Data s) key of
                  None \<Rightarrow> (Inl (keyMsg @ go_quote key), cache)
                | Some kubeconfig \<Rightarrow>
                    (case cache_get lib now kubeconfig cache of
                       (Inl err, cache') \<Rightarrow> (Inl (buildMsg @ err), cache')
                     | (Inr cl, cache') \<Rightarrow> (Inr (cl, Some kubeconfig, defaultNS), cache')))))"

definition dsnSecretClientFromRegistry :: "client_lib \<Rightarrow> gtime \<Rightarrow> hub \<Rightarrow> postgres_watch \<Rightarrow> client_cache \<Rightarrow> (string + routed) \<times> client_cache" where
  "dsnSecretClientFromRegistry lib now h watch cache =
     (let ref = wsp_RemoteClusterRef (pw_Spec watch); q = go_quote ref
      in (case kget_error (''fetch registered cluster '' @ q @ '' (PostgresRadarCluster): '') (hub_cluster h ref) of
            Inl err \<Rightarrow> (Inl err, cache)
          | Inr cluster \<Rightarrow>
              (let sel = rc_KubeconfigSecretRef cluster;
                   skey = \<lparr>nn_Namespace = ks_Namespace sel, nn_Name = ks_Name sel\<rparr>; ks = nn_String skey
               in remote_from lib now (''fetch kubeconfig secret '' @ ks @ '' for cluster '' @ q @ '': '') ''registered cluster kubeconfig secret''
                    (''kubeconfig secret '' @ ks @ '' for cluster '' @ q @ '' has no key '')
                    (''build client for registered cluster '' @ q @ '' from secret '' @ ks @ '': '')
                    (hub_secret h skey) (ks_Key sel) (rc_Namespace cluster) cache)))"

definition dsnSecretClientFromSecret :: "client_lib \<Rightarrow> gtime \<Rightarrow> hub \<Rightarrow> postgres_watch \<Rightarrow> secret_key_selector \<Rightarrow> client_cache \<Rightarrow> (string + routed) \<times> client_cache" where
  "dsnSecretClientFromSecret lib now h watch sel cache =
     (let skey = \<lparr>nn_Namespace = nn_Namespace (pw_Key watch), nn_Name = sel_Name sel\<rparr>; ks = nn_String skey
      in remote_from lib now (''fetch remote cluster kubeconfig secret '' @ ks @ '': '') ''remote cluster kubeconfig secret''
           (''secret '' @ ks @ '' has no key '') (''build client for remote cluster from secret '' @ ks @ '': '')
           (hub_secret h skey) (sel_Key sel) [] cache)"

definition dsnSecretClient :: "client_lib \<Rightarrow> gtime \<Rightarrow> security_profile \<Rightarrow> hub \<Rightarrow> postgres_watch \<Rightarrow> client_cache \<Rightarrow> (string + routed) \<times> client_cache" where
  "dsnSecretClient lib now profile h watch cache =
     (if wsp_RemoteClusterRef (pw_Spec watch) \<noteq> [] then dsnSecretClientFromRegistry lib now h watch cache
      else (case wsp_RemoteClusterSecretRef (pw_Spec watch) of
              Some sel \<Rightarrow>
                if profile = SecurityProfileHardened
                then (Inl (''remoteClusterSecretRef is not allowed in hardened security-profile mode '' @ em_dash @
                       '' register the cluster as a PostgresRadarCluster and use remoteClusterRef instead; see docs/multi-cluster.md#migration''), cache)
                else dsnSecretClientFromSecret lib now h watch sel cache
            | None \<Rightarrow> (Inr (hub_secret h, None, []), cache)))"

definition resolveDSN :: "client_lib \<Rightarrow> gtime \<Rightarrow> security_profile \<Rightarrow> hub \<Rightarrow> postgres_watch \<Rightarrow> client_cache \<Rightarrow> (string + string) \<times> client_cache" where
  "resolveDSN lib now profile h watch cache =
     (if wsp_DSN (pw_Spec watch) \<noteq> [] then (Inr (wsp_DSN (pw_Spec watch)), cache)
      else (case wsp_DSNSecretRef (pw_Spec watch) of
              None \<Rightarrow> (Inl (''postgreswatch '' @ nn_String (pw_Key watch) @ '': neither spec.dsn nor spec.dsnSecretRef is set''), cache)
            | Some ref \<Rightarrow>
                (case dsnSecretClient lib now profile h watch cache of
                   (Inl err, cache') \<Rightarrow> (Inl err, cache')
                 | (Inr (cl, remote, defaultNS), cache') \<Rightarrow>
                     (let key = \<lparr>nn_Namespace = dsnSecretNamespace watch defaultNS, nn_Name = sel_Name ref\<rparr>
                      in (case kget_error (''fetch dsn secret '' @ nn_String key @ '': '') (cl key) of
                            Inl err \<Rightarrow> (Inl err, (case remote of Some kc \<Rightarrow> cache_evict lib kc cache' | None \<Rightarrow> cache'))
                          | Inr s \<Rightarrow>
                              (case checkSecretConsent s ''dsn secret'' of
                                 Some err \<Rightarrow> (Inl err, cache')
                               | None \<Rightarrow>
                                   (case map_of (sec_Data s) (sel_Key ref) of
                                      None \<Rightarrow> (Inl (''secret '' @ nn_String key @ '' has no key '' @ go_quote (sel_Key ref)), cache')
                                    | Some v \<Rightarrow> (Inr v, cache')))))))) "

section \<open>The cache\<close>

text \<open>Two calls for one kubeconfig that both miss and both build get the same client, whichever inserts
  first.\<close>

lemma racing_gets_agree:
  assumes "cache_insert key now built c = (cl, c')"
  shows "fst (cache_insert key now' built' c') = cl"
  using assms by (auto simp: cache_insert_def update_conv' split: option.splits)

datatype cache_op = CacheGet gtime string | CacheEvict string | CacheSweep gtime

fun cache_step :: "client_lib \<Rightarrow> cache_op \<Rightarrow> client_cache \<Rightarrow> client_cache" where
  "cache_step lib (CacheGet now kc) c = snd (cache_get lib now kc c)"
| "cache_step lib (CacheEvict kc) c = cache_evict lib kc c"
| "cache_step lib (CacheSweep now) c = snd (evictOlderThan remoteClientTTL now c)"

text \<open>Every entry was handed out at the time it records.\<close>

definition cache_used :: "client_lib \<Rightarrow> cache_op set \<Rightarrow> client_cache \<Rightarrow> bool" where
  "cache_used lib ops c \<longleftrightarrow> (\<forall>(key, e)\<in>set c. \<exists>kc. key = lib_Hash lib kc \<and> CacheGet (ce_lastUsed e) kc \<in> ops)"

lemma cache_used_update:
  assumes "cache_used lib ops c" "ce_lastUsed e = now"
  shows "cache_used lib (insert (CacheGet now kc) ops) (AList.update (lib_Hash lib kc) e c)"
proof -
  have "(k, e') = (lib_Hash lib kc, e) \<or> (k, e') \<in> set c" if "(k, e') \<in> set (AList.update (lib_Hash lib kc) e c)" for k e'
    using that by (induction c) (auto split: if_splits)
  then show ?thesis using assms unfolding cache_used_def by fastforce
qed

lemma cache_used_mono: "cache_used lib ops c \<Longrightarrow> ops \<subseteq> ops' \<Longrightarrow> cache_used lib ops' c"
  unfolding cache_used_def by fast

lemma cache_used_get:
  assumes "cache_used lib ops c"
  shows "cache_used lib (insert (CacheGet now kc) ops) (snd (cache_get lib now kc c))"
  using assms cache_used_update [OF assms] cache_used_mono [OF assms, of "insert (CacheGet now kc) ops"]
  by (auto simp: cache_get_def cache_lookup_def cache_insert_def Let_def split: option.splits sum.splits)

lemma cache_used_run:
  assumes "cache_used lib ops0 c"
  shows "cache_used lib (ops0 \<union> set ops) (fold (cache_step lib) ops c)"
  using assms
proof (induction ops arbitrary: ops0 c)
  case (Cons op ops)
  have "cache_used lib (insert op ops0) (cache_step lib op c)"
  proof (cases op)
    case (CacheGet now kc)
    then show ?thesis using cache_used_get [OF Cons.prems] by simp
  next
    case (CacheEvict kc)
    then show ?thesis using Cons.prems by (fastforce simp: cache_used_def cache_evict_def AList.delete_eq)
  next
    case (CacheSweep now)
    then show ?thesis using Cons.prems by (fastforce simp: cache_used_def evictOlderThan_def Let_def)
  qed
  from Cons.IH [OF this] show ?case by simp
qed simp

section \<open>Consent\<close>

definition consenting :: "secret \<Rightarrow> bool" where
  "consenting s \<longleftrightarrow> map_of (sec_Labels s) secretConsentLabel = Some secretConsentValue"

lemma checkSecretConsent_None: "checkSecretConsent s kind = None \<longleftrightarrow> consenting s"
  by (auto simp: checkSecretConsent_def consenting_def map_get_def secretConsentValue_def split: option.splits)

lemma kget_error_Inr: "kget_error p g = Inr x \<longleftrightarrow> g = Found x"
  by (cases g) (auto simp: kget_error_def)

text \<open>A client that may be used for a kubeconfig: it was built from that kubeconfig, or from another with the same hash while it was in
  the cache, and none of its users runs a plugin and none of its clusters goes through a proxy.\<close>

definition safe_config :: "kube_config \<Rightarrow> bool" where
  "safe_config raw \<longleftrightarrow> list_all (\<lambda>(name, ai). \<not> ai_Exec ai \<and> \<not> ai_AuthProvider ai) (kc_AuthInfos raw) \<and>
     list_all (\<lambda>(name, proxy). proxy = []) (kc_Clusters raw)"

definition checked_client :: "client_lib \<Rightarrow> string \<Rightarrow> client \<Rightarrow> bool" where
  "checked_client lib hash cl \<longleftrightarrow>
     (\<exists>kc raw. lib_Hash lib kc = hash \<and> lib_Load lib kc = Inr raw \<and> safe_config raw \<and> lib_New lib raw = Inr cl)"

lemma check_users_None: "check_users us = None \<longleftrightarrow> list_all (\<lambda>(name, ai). \<not> ai_Exec ai \<and> \<not> ai_AuthProvider ai) us"
  by (induction us rule: check_users.induct) auto

lemma check_clusters_None: "check_clusters cs = None \<longleftrightarrow> list_all (\<lambda>(name, proxy). proxy = []) cs"
  by (induction cs rule: check_clusters.induct) auto

lemma validateKubeconfigAuth_None: "validateKubeconfigAuth raw = None \<longleftrightarrow> safe_config raw"
proof -
  have "validateKubeconfigAuth raw = None \<longleftrightarrow> check_users (kc_AuthInfos raw) = None \<and> check_clusters (kc_Clusters raw) = None"
    by (simp add: validateKubeconfigAuth_def split: option.splits)
  then show ?thesis by (simp only: safe_config_def check_users_None check_clusters_None)
qed

lemma buildRemoteClient_checked: "buildRemoteClient lib kc = Inr cl \<Longrightarrow> checked_client lib (lib_Hash lib kc) cl"
  by (auto simp: buildRemoteClient_def checked_client_def validateKubeconfigAuth_None [symmetric] split: sum.splits option.splits)

definition cache_checked :: "client_lib \<Rightarrow> client_cache \<Rightarrow> bool" where
  "cache_checked lib c \<longleftrightarrow> (\<forall>(hash, e)\<in>set c. checked_client lib hash (ce_client e))"

lemma cache_checked_get: "cache_checked lib c \<Longrightarrow> map_of c hash = Some e \<Longrightarrow> checked_client lib hash (ce_client e)"
  unfolding cache_checked_def by (fastforce dest: map_of_SomeD)

lemma cache_checked_update:
  "cache_checked lib c \<Longrightarrow> checked_client lib hash (ce_client e) \<Longrightarrow> cache_checked lib (AList.update hash e c)"
  unfolding cache_checked_def by (induction c) (auto split: if_splits)

lemma cache_get_checked:
  assumes "cache_checked lib c" "cache_get lib now kc c = (r, c')"
  shows "cache_checked lib c'" "r = Inr cl \<Longrightarrow> checked_client lib (lib_Hash lib kc) cl"
proof -
  show "cache_checked lib c'"
    using assms cache_checked_get [OF assms(1)] cache_checked_update [OF assms(1)] buildRemoteClient_checked
    by (auto simp: cache_get_def cache_lookup_def cache_insert_def Let_def split: option.splits sum.splits)
  show "checked_client lib (lib_Hash lib kc) cl" if "r = Inr cl"
    using assms that cache_checked_get [OF assms(1)] buildRemoteClient_checked
    by (auto simp: cache_get_def cache_lookup_def cache_insert_def Let_def split: option.splits sum.splits)
qed

lemma cache_run_checked: "cache_checked lib c \<Longrightarrow> cache_checked lib (fold (cache_step lib) ops c)"
proof (induction ops arbitrary: c)
  case (Cons op ops)
  have "cache_checked lib (cache_step lib op c)"
    using Cons.prems cache_get_checked(1) [OF Cons.prems surjective_pairing]
    by (cases op) (auto simp: cache_checked_def cache_evict_def AList.delete_eq evictOlderThan_def Let_def)
  then show ?case using Cons.IH by simp
qed simp

lemma remote_from_Inr:
  assumes "cache_checked lib cache" "remote_from lib now m kind km bm found key ns cache = (Inr (cl, remote, ns'), cache')"
  shows "\<exists>s kc. found = Found s \<and> consenting s \<and> map_of (sec_Data s) key = Some kc \<and> checked_client lib (lib_Hash lib kc) cl \<and> ns' = ns"
  using assms(2) cache_get_checked(2) [OF assms(1)]
  by (auto simp: remote_from_def kget_error_Inr checkSecretConsent_None split: sum.splits option.splits prod.splits)

text \<open>A client of a remote cluster for the kubeconfig in the given Secret of the hub, with its owner's consent.\<close>

definition granted_client :: "client_lib \<Rightarrow> hub \<Rightarrow> nsname \<Rightarrow> string \<Rightarrow> client \<Rightarrow> bool" where
  "granted_client lib h skey key cl \<longleftrightarrow>
     (\<exists>s kc. hub_secret h skey = Found s \<and> consenting s \<and> map_of (sec_Data s) key = Some kc \<and> checked_client lib (lib_Hash lib kc) cl)"

text \<open>Where the Secret with the DSN is read: through which client, and in which namespace.\<close>

definition dsn_route :: "client_lib \<Rightarrow> security_profile \<Rightarrow> hub \<Rightarrow> postgres_watch \<Rightarrow> client \<Rightarrow> string \<Rightarrow> bool" where
  "dsn_route lib profile h watch cl ns \<longleftrightarrow>
     (let sp = pw_Spec watch; own = nn_Namespace (pw_Key watch)
      in if wsp_RemoteClusterRef sp \<noteq> [] then
           (\<exists>cluster. hub_cluster h (wsp_RemoteClusterRef sp) = Found cluster \<and>
              granted_client lib h \<lparr>nn_Namespace = ks_Namespace (rc_KubeconfigSecretRef cluster), nn_Name = ks_Name (rc_KubeconfigSecretRef cluster)\<rparr>
                (ks_Key (rc_KubeconfigSecretRef cluster)) cl \<and>
              ns = first_set [wsp_RemoteNamespace sp, rc_Namespace cluster, own])
         else (case wsp_RemoteClusterSecretRef sp of
                 Some sel \<Rightarrow> profile \<noteq> SecurityProfileHardened \<and>
                   granted_client lib h \<lparr>nn_Namespace = own, nn_Name = sel_Name sel\<rparr> (sel_Key sel) cl \<and> ns = first_set [wsp_RemoteNamespace sp, own]
               | None \<Rightarrow> cl = hub_secret h \<and> ns = own))"

lemma dsnSecretClient_Inr:
  assumes "cache_checked lib cache" "dsnSecretClient lib now profile h watch cache = (Inr (cl, remote, ns), cache')"
  shows "dsn_route lib profile h watch cl (dsnSecretNamespace watch ns)"
proof (cases "wsp_RemoteClusterRef (pw_Spec watch) = []")
  case True
  show ?thesis
  proof (cases "wsp_RemoteClusterSecretRef (pw_Spec watch)")
    case None
    then show ?thesis using assms(2) True by (auto simp: dsnSecretClient_def dsn_route_def dsnSecretNamespace_def Let_def)
  next
    case (Some sel)
    then have h: "profile \<noteq> SecurityProfileHardened" and d: "dsnSecretClientFromSecret lib now h watch sel cache = (Inr (cl, remote, ns), cache')"
      using assms(2) True by (auto simp: dsnSecretClient_def split: if_splits)
    from remote_from_Inr [OF assms(1) d [unfolded dsnSecretClientFromSecret_def Let_def]] h Some True show ?thesis
      by (auto simp: dsn_route_def granted_client_def dsnSecretNamespace_def Let_def)
  qed
next
  case False
  then have d: "dsnSecretClientFromRegistry lib now h watch cache = (Inr (cl, remote, ns), cache')"
    using assms(2) by (simp add: dsnSecretClient_def)
  then obtain cluster where c: "hub_cluster h (wsp_RemoteClusterRef (pw_Spec watch)) = Found cluster"
    by (auto simp: dsnSecretClientFromRegistry_def Let_def kget_error_Inr split: sum.splits)
  from d c show ?thesis using False
    by (auto simp: dsn_route_def granted_client_def dsnSecretNamespace_def dsnSecretClientFromRegistry_def Let_def kget_error_def
        dest!: remote_from_Inr [OF assms(1)])
qed

lemma resolveDSN_Inr:
  assumes "resolveDSN lib now profile h watch cache = (Inr dsn, cache')" "wsp_DSN (pw_Spec watch) = []"
  obtains ref cl remote ns cache1 s where "wsp_DSNSecretRef (pw_Spec watch) = Some ref"
    "dsnSecretClient lib now profile h watch cache = (Inr (cl, remote, ns), cache1)"
    "cl \<lparr>nn_Namespace = dsnSecretNamespace watch ns, nn_Name = sel_Name ref\<rparr> = Found s"
    "consenting s" "map_of (sec_Data s) (sel_Key ref) = Some dsn"
  using assms
  by (auto simp: resolveDSN_def Let_def kget_error_Inr checkSecretConsent_None split: option.splits sum.splits prod.splits)

section \<open>Properties\<close>

text \<open>C14: No Secret is used without its owner's consent. With a cache in any state that lookups, evictions and sweeps lead to, a DSN that
  is not inline in the spec is the value of the referenced key of a Secret that carries the consent label, read by the client and in the
  namespace of the watch's route: the hub in the watch's own namespace, or a remote cluster. The client of a
  remote cluster was built from the kubeconfig in a Secret of the hub that carries the label too (or is cached for the same hash), which passed the
  credential restrictions; that Secret is the one a registered cluster names or, outside the hardened profile only, the one the watch names
  in its own namespace.\<close>

theorem dsn_needs_consent:
  assumes "resolveDSN lib now profile h watch (fold (cache_step lib) ops []) = (Inr dsn, cache')" "wsp_DSN (pw_Spec watch) = []"
  shows "\<exists>ref cl ns s. wsp_DSNSecretRef (pw_Spec watch) = Some ref \<and> dsn_route lib profile h watch cl ns \<and>
     cl \<lparr>nn_Namespace = ns, nn_Name = sel_Name ref\<rparr> = Found s \<and> consenting s \<and> map_of (sec_Data s) (sel_Key ref) = Some dsn"
proof (rule resolveDSN_Inr [OF assms])
  fix ref cl remote ns cache1 s
  assume a: "wsp_DSNSecretRef (pw_Spec watch) = Some ref"
    "dsnSecretClient lib now profile h watch (fold (cache_step lib) ops []) = (Inr (cl, remote, ns), cache1)"
    "cl \<lparr>nn_Namespace = dsnSecretNamespace watch ns, nn_Name = sel_Name ref\<rparr> = Found s"
    "consenting s" "map_of (sec_Data s) (sel_Key ref) = Some dsn"
  have "cache_checked lib (fold (cache_step lib) ops [])" by (rule cache_run_checked) (simp add: cache_checked_def)
  from dsnSecretClient_Inr [OF this a(2)] a show ?thesis by blast
qed

text \<open>C35: The cache of remote clients is bounded by recent use: after any sequence of lookups, evictions
  and sweeps, a sweep leaves entries only for kubeconfigs that were asked for within the last hour.\<close>

theorem cache_bounded_by_use:
  "fst ` set (snd (evictOlderThan remoteClientTTL now (fold (cache_step lib) ops []))) \<subseteq>
     {lib_Hash lib kc | kc t. CacheGet t kc \<in> set ops \<and> now - hour_d \<le> t}"
proof -
  have "cache_used lib (set ops) (fold (cache_step lib) ops [])"
    using cache_used_run [of lib "{}" "[]" ops] by (simp add: cache_used_def)
  moreover have "dur_neg remoteClientTTL = - hour_d" by (simp add: remoteClientTTL_def dur_neg_def hour_d_def wrap64_def)
  ultimately show ?thesis by (fastforce simp: cache_used_def evictOlderThan_def Let_def time_simps time_add_def)
qed

section \<open>Witness\<close>

definition labelled_secret :: "string \<Rightarrow> secret" where
  "labelled_secret v = \<lparr>sec_Key = \<lparr>nn_Namespace = ''ns'', nn_Name = ''db''\<rparr>, sec_Labels = [(secretConsentLabel, ''true'')],
     sec_Data = [(''dsn'', v)]\<rparr>"

definition sample_hub :: hub where
  "sample_hub = \<lparr>hub_secret = (\<lambda>k. Found (labelled_secret ''postgres://x'')), hub_cluster = (\<lambda>n. NotFound ''none'')\<rparr>"

definition sample_lib :: client_lib where
  "sample_lib = \<lparr>lib_Load = (\<lambda>s. Inl ''bad''), lib_ClientConfig = (\<lambda>k. None), lib_New = (\<lambda>k. Inl ''bad''), lib_Hash = (\<lambda>s. s)\<rparr>"

definition sample_spec :: watch_spec where
  "sample_spec = \<lparr>wsp_ClusterName = ''c'', wsp_DSN = [], wsp_DSNSecretRef = Some \<lparr>sel_Name = ''db'', sel_Key = ''dsn''\<rparr>,
     wsp_RemoteClusterRef = [], wsp_RemoteClusterSecretRef = None, wsp_RemoteNamespace = [], wsp_ScrapeIntervalSeconds = 0,
     wsp_WindowMinutes = 0, wsp_MinExecutions = 0, wsp_LatencyChangeThreshold = [], wsp_PValueThreshold = [],
     wsp_CriticalQueryIDs = [], wsp_SlackWebhookURL = [], wsp_Alerting = None, wsp_CapturePlans = False, wsp_AutoAbort = None,
     wsp_PeriodicDetection = None, wsp_SampleSource = None\<rparr>"

definition sample_watch :: "watch_spec \<Rightarrow> postgres_watch" where
  "sample_watch sp = \<lparr>pw_Key = \<lparr>nn_Namespace = ''ns'', nn_Name = ''w''\<rparr>, pw_Generation = 1, pw_Spec = sp,
     pw_Status = \<lparr>wst_Phase = None, wst_ObservedGeneration = 0, wst_TrackedQueryIDs = 0, wst_LastScrapeTime = None,
       wst_Message = [], wst_Conditions = []\<rparr>\<rparr>"

text \<open>A registered cluster: its kubeconfig is in a Secret of the hub, the DSN in a Secret of the cluster.\<close>

definition kubeconfig_secret :: secret where
  "kubeconfig_secret = \<lparr>sec_Key = \<lparr>nn_Namespace = ''radar'', nn_Name = ''kc''\<rparr>, sec_Labels = [(secretConsentLabel, ''true'')],
     sec_Data = [(''kubeconfig'', ''token'')]\<rparr>"

definition remote_client :: client where
  "remote_client k = (if k = \<lparr>nn_Namespace = ''prod'', nn_Name = ''db''\<rparr> then Found (labelled_secret ''postgres://remote'') else NotFound ''none'')"

definition remote_lib :: client_lib where
  "remote_lib = \<lparr>lib_Load = (\<lambda>s. Inr \<lparr>kc_AuthInfos = [(''u'', \<lparr>ai_Exec = (s \<noteq> ''token''), ai_AuthProvider = False\<rparr>)], kc_Clusters = [(''c'', [])]\<rparr>),
     lib_ClientConfig = (\<lambda>k. None), lib_New = (\<lambda>k. Inr remote_client), lib_Hash = (\<lambda>s. s)\<rparr>"

definition remote_hub :: hub where
  "remote_hub = \<lparr>hub_secret = (\<lambda>k. if k = sec_Key kubeconfig_secret then Found kubeconfig_secret else NotFound ''none''),
     hub_cluster = (\<lambda>n. Found \<lparr>rc_KubeconfigSecretRef = \<lparr>ks_Namespace = ''radar'', ks_Name = ''kc'', ks_Key = ''kubeconfig''\<rparr>, rc_Namespace = ''prod''\<rparr>)\<rparr>"

definition remote_watch :: postgres_watch where "remote_watch = sample_watch (sample_spec\<lparr>wsp_RemoteClusterRef := ''eu''\<rparr>)"

theorem dsn_needs_consent_witness:
  "\<exists>cl s. dsn_route remote_lib SecurityProfileHardened remote_hub remote_watch cl ''prod'' \<and>
     cl \<lparr>nn_Namespace = ''prod'', nn_Name = ''db''\<rparr> = Found s \<and> consenting s \<and> map_of (sec_Data s) ''dsn'' = Some ''postgres://remote''"
proof -
  let ?cache = "fold (cache_step remote_lib) [CacheGet 3 ''token''] []"
  have "fst (resolveDSN remote_lib 9 SecurityProfileHardened remote_hub remote_watch ?cache) = Inr ''postgres://remote''"
    by code_simp
  then obtain c where "resolveDSN remote_lib 9 SecurityProfileHardened remote_hub remote_watch ?cache = (Inr ''postgres://remote'', c)"
    by (metis prod.collapse)
  from dsn_needs_consent [OF this] obtain ref cl ns s where "wsp_DSNSecretRef (pw_Spec remote_watch) = Some ref" and
    r: "dsn_route remote_lib SecurityProfileHardened remote_hub remote_watch cl ns" "cl \<lparr>nn_Namespace = ns, nn_Name = sel_Name ref\<rparr> = Found s"
      "consenting s" "map_of (sec_Data s) (sel_Key ref) = Some ''postgres://remote''"
    by (auto simp: remote_watch_def sample_watch_def sample_spec_def)
  moreover from this have "ref = \<lparr>sel_Name = ''db'', sel_Key = ''dsn''\<rparr>" by (simp add: remote_watch_def sample_watch_def sample_spec_def)
  moreover have "ns = ''prod''" using r(1)
    by (simp add: dsn_route_def Let_def remote_watch_def sample_watch_def sample_spec_def remote_hub_def)
  ultimately show ?thesis by auto
qed

end
