(* ===== verification/Poll_Loop.thy ===== *)
theory Poll_Loop
  imports Trackers Event_Ingester Collector
begin

text \<open>
  The part that the poll loops of the operator (\<open>internal/cli/operator.go\<close>) and of the manager
  (\<open>pollLoop\<close> of \<open>internal/controller/postgreswatch_controller.go\<close>) share: drain the event store from
  the cursor, put the new events under analysis, tick. The composition of the store's and the pending
  set's guarantees is proved here for both: whatever is delivered between the ticks, a pair of deploy
  and query is handed on at most once.
\<close>

text \<open>The collector as the engine's sample source.\<close>

definition collector_src :: "collector \<Rightarrow> sample_src" where
  "collector_src c = \<lparr>src_SamplesInRange = (\<lambda>q lo hi. collector_SamplesInRange q lo hi c), src_AllQueryIDs = collector_AllQueryIDs c\<rparr>"

definition poll_core :: "engine \<Rightarrow> (deploy_event \<Rightarrow> performance_regression list) \<Rightarrow> gtime \<Rightarrow> store \<Rightarrow> nat \<times> pending_event list \<Rightarrow>
    (nat \<times> pending_event list) \<times> tick_result list" where
  "poll_core e an now s st =
     (case st of (cursor, pending) \<Rightarrow>
       (let (events, cursor') = store_DrainSince cursor s;
            (pending', trs) = tick_with an now (fold (pending_Add e) events pending)
        in ((cursor', pending'), trs)))"

text \<open>The life of a store and its loop: deliveries (webhooks, workload rollouts), backfills and ticks, each tick with the
  engine and the analysis of its moment.\<close>

datatype poll_op = PollDeliver deploy_event | PollTick engine "deploy_event \<Rightarrow> performance_regression list" gtime

type_synonym poll_state = "store \<times> (nat \<times> pending_event list) \<times> tick_result list"

fun poll_step :: "poll_op \<Rightarrow> poll_state \<Rightarrow> poll_state" where
  "poll_step (PollDeliver ev) (s, st, rep) = (store_Add ev s, st, rep)"
| "poll_step (PollTick e an now) (s, st, rep) = (case poll_core e an now s st of (st', trs) \<Rightarrow> (s, st', rep @ trs))"

definition poll_inv :: "nat \<Rightarrow> poll_state \<Rightarrow> bool" where
  "poll_inv n r = (case r of (s, (c, ps), rep) \<Rightarrow> store_inv s \<and> n \<le> c \<and> c \<le> length (st_events s) \<and>
     pending_inv (ev_ID ` set (drop n (take c (st_events s)))) (ps, rep))"

lemma added_PAdds: "added (map PAdd evs @ [PTick an now]) = evs"
  by (induction evs) auto

lemma fold_PAdds: "fold (pending_step e) (map PAdd evs) (ps, rep) = (fold (pending_Add e) evs ps, rep)"
  by (induction evs arbitrary: ps) auto

lemma poll_core_run:
  "poll_core e an now s (c, ps) = ((c', ps'), trs) \<Longrightarrow>
     c' = max c (length (st_events s)) \<and>
     fold (pending_step e) (map PAdd (drop c (st_events s)) @ [PTick an now]) (ps, rep) = (ps', rep @ trs)"
  by (auto simp: poll_core_def store_DrainSince_def fold_PAdds split: prod.splits if_splits)

lemma drop_split:
  assumes "n \<le> c" "c \<le> length xs"
  shows "drop n xs = drop n (take c xs) @ drop c xs"
  using drop_take_append_drop [OF assms] by simp

lemma poll_step_inv:
  assumes "poll_inv n r"
  shows "poll_inv n (poll_step op r)"
proof -
  obtain s c ps rep where r: "r = (s, (c, ps), rep)" by (metis prod.exhaust)
  note inv = assms [unfolded r poll_inv_def, simplified]
  show ?thesis
  proof (cases op)
    case (PollDeliver ev)
    have "take c (st_events (store_Add ev s)) = take c (st_events s)"
      using prefix_take_drop [OF store_Add_extends] inv by blast
    then show ?thesis using inv store_Add_inv [of s ev] prefix_length_le [OF store_Add_extends [of s ev]]
      by (simp add: r PollDeliver poll_inv_def)
  next
    case (PollTick e an now)
    obtain c' ps' trs where core: "poll_core e an now s (c, ps) = ((c', ps'), trs)" by (metis prod.exhaust)
    let ?evs = "drop c (st_events s)" and ?ids = "ev_ID ` set (drop n (take c (st_events s)))"
    note run = poll_core_run [OF core, of rep]
    have "distinct (map ev_ID (drop n (st_events s)))" using inv by (simp add: store_inv_def drop_map [symmetric])
    then have split: "distinct (map ev_ID (drop n (take c (st_events s)) @ ?evs))" using inv by (simp add: drop_split [symmetric])
    have "pending_inv (?ids \<union> ev_ID ` set (added (map PAdd ?evs @ [PTick an now])))
        (fold (pending_step e) (map PAdd ?evs @ [PTick an now]) (ps, rep))"
      by (rule pending_run_inv) (use inv split in \<open>auto simp: added_PAdds\<close>)
    moreover have "?ids \<union> ev_ID ` set ?evs = ev_ID ` set (drop n (st_events s))"
      using drop_split [of n c "st_events s"] inv by (metis image_Un set_append)
    ultimately have "pending_inv (ev_ID ` set (drop n (st_events s))) (ps', rep @ trs)"
      using run by (simp add: added_PAdds)
    then show ?thesis using inv run by (simp add: r PollTick core poll_inv_def)
  qed
qed

lemma poll_run_inv: "poll_inv n r \<Longrightarrow> poll_inv n (fold poll_step ops r)"
  by (induction ops arbitrary: r) (simp_all add: poll_step_inv)

lemma poll_inv_start: "store_inv s \<Longrightarrow> poll_inv (length (st_events s)) (s, (length (st_events s), []), [])"
  by (simp add: poll_inv_def pending_inv_init)

lemma poll_inv_once:
  assumes "poll_inv n (s, (c, ps), rep)"
  shows "distinct (map tr_key rep) \<and>
    list_all (\<lambda>t. pr_Status (tr_Regression t) = StatusDetected \<and> ev_ID (tr_Event t) \<in> ev_ID ` set (drop n (st_events s))) rep"
proof -
  have "ev_ID ` set (drop n (take c (st_events s))) \<subseteq> ev_ID ` set (drop n (st_events s))"
    by (metis drop_take set_take_subset image_mono)
  then show ?thesis using assms unfolding poll_inv_def pending_inv_def list_all_iff by fast
qed

lemma poll_run_extends:
  "store_inv u \<Longrightarrow> store_inv (fst (fold poll_step ops (u, v))) \<and> prefix (st_events u) (st_events (fst (fold poll_step ops (u, v))))"
proof (induction ops arbitrary: u v)
  case (Cons op ops)
  show ?case
  proof (cases op)
    case (PollDeliver ev)
    then show ?thesis using Cons.IH [OF store_Add_inv [OF Cons.prems, of ev], of v] store_Add_extends [OF Cons.prems, of ev]
      by (cases v) (auto intro: prefix_order.trans)
  next
    case (PollTick e an now)
    obtain st rep where v: "v = (st, rep)" by (cases v)
    obtain st' trs where "poll_core e an now u st = (st', trs)" by (metis prod.exhaust)
    then show ?thesis using Cons.IH [OF Cons.prems] by (simp add: v PollTick)
  qed
qed simp

lemma tr_key_fun: "tr_key = (\<lambda>t. (ev_ID (tr_Event t), pr_QueryID (tr_Regression t)))"
  by (simp add: fun_eq_iff tr_key_def tr_query_def)

lemma poll_inv_fresh:
  assumes "poll_inv (length (st_events s0)) (s, st, rep)" "prefix (st_events s0) (st_events s)"
  shows "distinct (map tr_key rep) \<and>
    list_all (\<lambda>t. pr_Status (tr_Regression t) = StatusDetected \<and> ev_ID (tr_Event t) \<in> ev_ID ` set (st_events s) \<and>
      ev_ID (tr_Event t) \<notin> ev_ID ` set (st_events s0)) rep"
proof -
  let ?new = "drop (length (st_events s0)) (st_events s)"
  obtain c ps where inv: "poll_inv (length (st_events s0)) (s, (c, ps), rep)" using assms(1) by (cases st) simp
  have split: "st_events s = st_events s0 @ ?new" using assms(2) by (auto simp: prefix_def)
  have "distinct (map ev_ID (st_events s))" using inv by (simp add: poll_inv_def store_inv_def)
  then have "ev_ID ` set ?new \<inter> ev_ID ` set (st_events s0) = {}" and "ev_ID ` set ?new \<subseteq> ev_ID ` set (st_events s)"
    using arg_cong [OF split, of "map ev_ID"] by (auto simp: set_drop_subset image_mono)
  then show ?thesis using poll_inv_once [OF inv] unfolding list_all_iff by blast
qed

text \<open>A webhook request leaves the store as it is, or delivers one event of an authorised request.\<close>

lemma handler_ServeHTTP_store:
  "snd (handler_ServeHTTP d nows src r s) = s \<or>
   (\<exists>ev. snd (handler_ServeHTTP d nows src r s) = store_Add (normalised src ev) s \<and> authorised src r \<and> (ds_AppName src = [] \<or> ev_App ev = ds_AppName src))"
  unfolding handler_ServeHTTP_cases by (cases "parse_payload d (ds_SourceType src) nows (max_bytes_reader (rq_Body r))") auto

section \<open>Workers\<close>

text \<open>What a process needs to be such a worker: it has an event store and the loop's local state, a delivery adds to the store
  and leaves the loop alone, a tick runs \<open>poll_core\<close> on the two, and its other jobs (scrapes, periodic
  detection) touch neither. The operator and a watch runtime of the manager are its instances.\<close>

datatype ('x, 'y) worker_op = WDeliver deploy_event | WTick 'x | WJob 'y

fun worker_run :: "(deploy_event \<Rightarrow> 'w \<Rightarrow> 'w) \<Rightarrow> ('x \<Rightarrow> 'w \<Rightarrow> 'w) \<Rightarrow> ('x \<Rightarrow> 'w \<Rightarrow> tick_result list) \<Rightarrow> ('y \<Rightarrow> 'w \<Rightarrow> 'w) \<Rightarrow>
    ('x, 'y) worker_op list \<Rightarrow> 'w \<times> tick_result list \<Rightarrow> 'w \<times> tick_result list" where
  "worker_run deliver tick results job [] st = st"
| "worker_run deliver tick results job (WDeliver ev # ops) (w, rep) = worker_run deliver tick results job ops (deliver ev w, rep)"
| "worker_run deliver tick results job (WTick x # ops) (w, rep) = worker_run deliver tick results job ops (tick x w, rep @ results x w)"
| "worker_run deliver tick results job (WJob y # ops) (w, rep) = worker_run deliver tick results job ops (job y w, rep)"

lemma worker_run_append:
  "worker_run deliver tick results job (ops @ ops') st = worker_run deliver tick results job ops' (worker_run deliver tick results job ops st)"
  by (induction deliver tick results job ops st rule: worker_run.induct) auto

locale poll_worker =
  fixes store_of :: "'w \<Rightarrow> store"
    and local_of :: "'w \<Rightarrow> nat \<times> pending_event list"
    and deliver :: "deploy_event \<Rightarrow> 'w \<Rightarrow> 'w"
    and tick :: "'x \<Rightarrow> 'w \<Rightarrow> 'w"
    and results :: "'x \<Rightarrow> 'w \<Rightarrow> tick_result list"
    and job :: "'y \<Rightarrow> 'w \<Rightarrow> 'w"
    and engine_of :: "'x \<Rightarrow> 'w \<Rightarrow> engine"
    and analysis_of :: "'x \<Rightarrow> 'w \<Rightarrow> deploy_event \<Rightarrow> performance_regression list"
    and now_of :: "'x \<Rightarrow> gtime"
  assumes deliver_store: "store_of (deliver ev w) = store_Add ev (store_of w)"
    and deliver_local: "local_of (deliver ev w) = local_of w"
    and tick_store: "store_of (tick x w) = store_of w"
    and tick_core: "(local_of (tick x w), results x w) = poll_core (engine_of x w) (analysis_of x w) (now_of x) (store_of w) (local_of w)"
    and job_store: "store_of (job y w) = store_of w"
    and job_local: "local_of (job y w) = local_of w"
begin

lemma worker_run_inv:
  assumes "poll_inv n (store_of w, local_of w, rep)" "worker_run deliver tick results job ops (w, rep) = (w', rep')"
  shows "poll_inv n (store_of w', local_of w', rep')"
  using assms
proof (induction ops arbitrary: w rep)
  case (Cons op ops)
  show ?case
  proof (cases op)
    case (WDeliver ev)
    have "poll_inv n (store_of (deliver ev w), local_of (deliver ev w), rep)"
      using poll_step_inv [OF Cons.prems(1), of "PollDeliver ev"] by (cases "local_of w") (simp add: deliver_store deliver_local)
    then show ?thesis using Cons.IH Cons.prems(2) WDeliver by simp
  next
    case (WTick x)
    have "poll_step (PollTick (engine_of x w) (analysis_of x w) (now_of x)) (store_of w, local_of w, rep) =
        (store_of (tick x w), local_of (tick x w), rep @ results x w)"
      by (simp add: tick_core [symmetric] tick_store)
    then have "poll_inv n (store_of (tick x w), local_of (tick x w), rep @ results x w)"
      using poll_step_inv [OF Cons.prems(1), of "PollTick (engine_of x w) (analysis_of x w) (now_of x)"] by simp
    then show ?thesis using Cons.IH Cons.prems(2) WTick by simp
  next
    case (WJob y)
    then show ?thesis using Cons.IH [of "job y w" rep] Cons.prems by (simp add: job_store job_local)
  qed
qed simp

lemma worker_run_store:
  assumes "store_inv (store_of w)" "worker_run deliver tick results job ops (w, rep) = (w', rep')"
  shows "prefix (st_events (store_of w)) (st_events (store_of w'))"
  using assms
proof (induction ops arbitrary: w rep)
  case (Cons op ops)
  show ?case
  proof (cases op)
    case (WDeliver ev)
    have "prefix (st_events (store_of (deliver ev w))) (st_events (store_of w'))"
      using Cons.IH [of "deliver ev w" rep] Cons.prems store_Add_inv [OF Cons.prems(1), of ev] by (simp add: WDeliver deliver_store)
    then show ?thesis using store_Add_extends [OF Cons.prems(1), of ev] by (auto simp: deliver_store intro: prefix_order.trans)
  next
    case (WTick x)
    then show ?thesis using Cons.IH [of "tick x w" "rep @ results x w"] Cons.prems by (simp add: tick_store)
  next
    case (WJob y)
    then show ?thesis using Cons.IH [of "job y w" rep] Cons.prems by (simp add: job_store)
  qed
qed simp

lemma worker_reports_once:
  assumes "store_inv (store_of w)" "local_of w = (length (st_events (store_of w)), [])" "worker_run deliver tick results job ops (w, []) = (w', rep)"
  shows "distinct (map tr_key rep) \<and>
    list_all (\<lambda>t. pr_Status (tr_Regression t) = StatusDetected \<and> ev_ID (tr_Event t) \<in> ev_ID ` set (st_events (store_of w')) \<and>
      ev_ID (tr_Event t) \<notin> ev_ID ` set (st_events (store_of w))) rep"
proof (rule poll_inv_fresh)
  show "poll_inv (length (st_events (store_of w))) (store_of w', local_of w', rep)"
    using assms(2) poll_inv_start [OF assms(1)] by (intro worker_run_inv [OF _ assms(3)]) simp
qed (rule worker_run_store [OF assms(1,3)])

end

section \<open>Nothing is lost while an event is under analysis\<close>

definition under_analysis :: "duration \<Rightarrow> nat \<Rightarrow> deploy_event \<Rightarrow> poll_state \<Rightarrow> bool" where
  "under_analysis window n ev r = (case r of (s, (c, ps), rep) \<Rightarrow>
     ev \<in> set (drop n (take c (st_events s))) \<longrightarrow> (\<exists>pe\<in>set ps. pe_ev pe = ev \<and> pe_deadline pe = time_add (ev_Timestamp ev) window))"

lemma set_pending_Adds:
  "set (fold (pending_Add e) evs ps) =
    set ps \<union> (\<lambda>ev. \<lparr>pe_ev = ev, pe_deadline = time_add (ev_Timestamp ev) (analysisWindow e), pe_notified = []\<rparr>) ` set evs"
  by (induction evs arbitrary: ps) (auto simp: pending_Add_def)

text \<open>The pending set that a tick analyses.\<close>

lemma poll_core_pending:
  assumes "poll_core e an now s (c, ps) = ((c', ps'), trs)"
  shows "c' = max c (length (st_events s))"
    "ps' = map (ticked an) (filter (\<lambda>pe. now < pe_deadline pe) (fold (pending_Add e) (drop c (st_events s)) ps))"
    "trs = concat (map (news an) (fold (pending_Add e) (drop c (st_events s)) ps))"
  using assms by (auto simp: poll_core_def store_DrainSince_def tick_with_eq split: if_splits)

lemma drained_pending:
  assumes "under_analysis (analysisWindow e) n ev (s, (c, ps), rep)" "ev \<in> set (drop n (st_events s))" "n \<le> c" "c \<le> length (st_events s)"
  shows "\<exists>pe\<in>set (fold (pending_Add e) (drop c (st_events s)) ps). pe_ev pe = ev \<and> pe_deadline pe = time_add (ev_Timestamp ev) (analysisWindow e)"
proof -
  have "ev \<in> set (drop n (take c (st_events s))) \<or> ev \<in> set (drop c (st_events s))"
    using assms(2) drop_split [OF assms(3,4)] by (metis Un_iff set_append)
  then show ?thesis
  proof
    assume "ev \<in> set (drop c (st_events s))"
    then show ?thesis unfolding set_pending_Adds
      by (intro bexI [of _ "\<lparr>pe_ev = ev, pe_deadline = time_add (ev_Timestamp ev) (analysisWindow e), pe_notified = []\<rparr>"]) auto
  qed (use assms(1) in \<open>auto simp: under_analysis_def set_pending_Adds\<close>)
qed

lemma poll_step_under_analysis:
  assumes "poll_inv n r" "under_analysis window n ev r"
    and "\<And>e an now. op = PollTick e an now \<Longrightarrow> analysisWindow e = window \<and> now < time_add (ev_Timestamp ev) window"
  shows "under_analysis window n ev (poll_step op r)"
proof -
  obtain s c ps rep where r: "r = (s, (c, ps), rep)" by (metis prod.exhaust)
  note inv = assms(1) [unfolded r poll_inv_def, simplified]
  show ?thesis
  proof (cases op)
    case (PollDeliver ev')
    have "take c (st_events (store_Add ev' s)) = take c (st_events s)"
      using prefix_take_drop [OF store_Add_extends] inv by blast
    then show ?thesis using assms(2) by (simp add: r PollDeliver under_analysis_def)
  next
    case (PollTick e an now)
    obtain c' ps' trs where core: "poll_core e an now s (c, ps) = ((c', ps'), trs)" by (metis prod.exhaust)
    have tick: "analysisWindow e = window" "now < time_add (ev_Timestamp ev) window" using assms(3) [OF PollTick] by auto
    have "\<exists>pe\<in>set ps'. pe_ev pe = ev \<and> pe_deadline pe = time_add (ev_Timestamp ev) window" if new: "ev \<in> set (drop n (st_events s))"
    proof -
      obtain pe where "pe \<in> set (fold (pending_Add e) (drop c (st_events s)) ps)" "pe_ev pe = ev" "pe_deadline pe = time_add (ev_Timestamp ev) window"
        using drained_pending [of e n ev s c ps rep] assms(2) new inv unfolding tick(1) r by blast
      then show ?thesis using tick(2) unfolding poll_core_pending(2) [OF core] by (intro bexI [of _ "ticked an pe"]) auto
    qed
    moreover have "set (drop n (take c' (st_events s))) \<subseteq> set (drop n (st_events s))" by (metis drop_take set_take_subset)
    ultimately show ?thesis by (auto simp: r PollTick core under_analysis_def)
  qed
qed

text \<open>A detection at a tick has been reported before, or is reported now.\<close>

lemma tick_reports:
  assumes "poll_inv n (s, (c, ps), rep)" "under_analysis (analysisWindow e) n ev (s, (c, ps), rep)" "ev \<in> set (drop n (st_events s))"
    and "poll_core e an now s (c, ps) = ((c', ps'), trs)" "r \<in> set (an ev)" "pr_Status r = StatusDetected"
  shows "(ev_ID ev, pr_QueryID r) \<in> tr_key ` set (rep @ trs)"
proof -
  note inv = assms(1) [unfolded poll_inv_def, simplified]
  let ?ps = "fold (pending_Add e) (drop c (st_events s)) ps"
  obtain pe where pe: "pe \<in> set ?ps" "pe_ev pe = ev" using drained_pending [OF assms(2,3)] inv by blast
  show ?thesis
  proof (cases "pr_QueryID r \<in> set (pe_notified pe)")
    case True
    then have "pe \<in> set ps" using pe(1) by (auto simp: set_pending_Adds)
    then have "pr_QueryID r \<in> tr_query ` {t \<in> set rep. ev_ID (tr_Event t) = ev_ID ev}"
      using inv True pe(2) by (auto simp: pending_inv_def)
    then obtain t where "t \<in> set rep" "tr_key t = (ev_ID ev, pr_QueryID r)" by (auto simp: tr_key_def)
    then show ?thesis by (metis UnI1 imageI set_append)
  next
    case False
    then have "pr_QueryID r \<in> tr_query ` set (news an pe)" using assms(5,6) unfolding news_props(3) pe(2) by blast
    then obtain t where t: "t \<in> set (news an pe)" "tr_query t = pr_QueryID r" by (metis imageE)
    then have "tr_key t = (ev_ID ev, pr_QueryID r)" using news_props(1) [of an pe] pe(2) by (simp add: tr_key_def)
    moreover have "t \<in> set trs" using t(1) pe(1) unfolding poll_core_pending(3) [OF assms(4)] by auto
    ultimately show ?thesis by (metis UnI2 imageI set_append)
  qed
qed

text \<open>A worker whose analysis window does not change.\<close>

locale steady_worker = poll_worker store_of local_of deliver tick results job engine_of analysis_of now_of
  for store_of :: "'w \<Rightarrow> store" and local_of :: "'w \<Rightarrow> nat \<times> pending_event list" and deliver :: "deploy_event \<Rightarrow> 'w \<Rightarrow> 'w"
    and tick :: "'x \<Rightarrow> 'w \<Rightarrow> 'w" and results :: "'x \<Rightarrow> 'w \<Rightarrow> tick_result list" and job :: "'y \<Rightarrow> 'w \<Rightarrow> 'w"
    and engine_of :: "'x \<Rightarrow> 'w \<Rightarrow> engine" and analysis_of :: "'x \<Rightarrow> 'w \<Rightarrow> deploy_event \<Rightarrow> performance_regression list" and now_of :: "'x \<Rightarrow> gtime" +
  fixes window_of :: "'w \<Rightarrow> duration"
  assumes engine_window: "analysisWindow (engine_of x w) = window_of w"
    and deliver_window: "window_of (deliver ev w) = window_of w"
    and tick_window: "window_of (tick x w) = window_of w"
    and job_window: "window_of (job y w) = window_of w"
begin

definition open_during :: "gtime \<Rightarrow> ('x, 'y) worker_op list \<Rightarrow> bool" where
  "open_during deadline ops \<longleftrightarrow> (\<forall>x. WTick x \<in> set ops \<longrightarrow> now_of x < deadline)"

lemma worker_under_analysis:
  assumes "poll_inv n (store_of w, local_of w, rep)" "under_analysis (window_of w) n ev (store_of w, local_of w, rep)"
    and "open_during (time_add (ev_Timestamp ev) (window_of w)) ops" "worker_run deliver tick results job ops (w, rep) = (w', rep')"
  shows "under_analysis (window_of w) n ev (store_of w', local_of w', rep') \<and> window_of w' = window_of w"
  using assms
proof (induction ops arbitrary: w rep)
  case (Cons op ops)
  have later: "open_during (time_add (ev_Timestamp ev) (window_of w)) ops" using Cons.prems(3) by (simp add: open_during_def)
  show ?case
  proof (cases op)
    case (WDeliver e)
    have "poll_step (PollDeliver e) (store_of w, local_of w, rep) = (store_of (deliver e w), local_of (deliver e w), rep)"
      by (cases "local_of w") (simp add: deliver_store deliver_local)
    then show ?thesis
      using Cons.IH [of "deliver e w" rep] Cons.prems(4) later poll_step_inv [OF Cons.prems(1), of "PollDeliver e"]
        poll_step_under_analysis [OF Cons.prems(1,2), of "PollDeliver e"]
      by (simp add: WDeliver deliver_window)
  next
    case (WTick x)
    let ?op = "PollTick (engine_of x w) (analysis_of x w) (now_of x)"
    have "poll_step ?op (store_of w, local_of w, rep) = (store_of (tick x w), local_of (tick x w), rep @ results x w)"
      by (simp add: tick_core [symmetric] tick_store)
    moreover have "now_of x < time_add (ev_Timestamp ev) (window_of w)" using Cons.prems(3) by (simp add: open_during_def WTick)
    ultimately show ?thesis
      using Cons.IH [of "tick x w" "rep @ results x w"] Cons.prems(4) later poll_step_inv [OF Cons.prems(1), of ?op]
        poll_step_under_analysis [OF Cons.prems(1,2), of ?op]
      by (simp add: WTick tick_window engine_window)
  next
    case (WJob y)
    then show ?thesis using Cons.IH [of "job y w" rep] Cons.prems later by (simp add: job_store job_local job_window)
  qed
qed simp

lemma worker_reports_all:
  assumes "store_inv (store_of w)" "local_of w = (length (st_events (store_of w)), [])" "worker_run deliver tick results job ops (w, []) = (w', rep)"
    and "ev \<in> set (st_events (store_of w'))" "ev \<notin> set (st_events (store_of w))"
    and "open_during (time_add (ev_Timestamp ev) (window_of w)) ops"
    and "r \<in> set (analysis_of x w' ev)" "pr_Status r = StatusDetected"
  shows "(ev_ID ev, pr_QueryID r) \<in> tr_key ` set (rep @ results x w')"
proof -
  let ?n = "length (st_events (store_of w))"
  have inv: "poll_inv ?n (store_of w, local_of w, [])" using assms(2) poll_inv_start [OF assms(1)] by simp
  have ua: "under_analysis (window_of w) ?n ev (store_of w', local_of w', rep)" "window_of w' = window_of w"
    using worker_under_analysis [OF inv _ assms(6,3)] assms(2) by (simp_all add: under_analysis_def)
  have "prefix (st_events (store_of w)) (st_events (store_of w'))" by (rule worker_run_store [OF assms(1,3)])
  then have new: "ev \<in> set (drop ?n (st_events (store_of w')))" using assms(4,5) by (auto simp: prefix_def)
  obtain c ps c' ps' where l: "local_of w' = (c, ps)" "local_of (tick x w') = (c', ps')" by (metis prod.exhaust)
  then have "poll_core (engine_of x w') (analysis_of x w') (now_of x) (store_of w') (c, ps) = ((c', ps'), results x w')" using tick_core [of x w'] by simp
  from tick_reports [OF _ _ new this assms(7,8)] show ?thesis
    using worker_run_inv [OF inv assms(3)] ua by (simp add: l(1) engine_window)
qed

end

section \<open>Properties\<close>

text \<open>End to end, a deploy is reported at most once per query. Start from an empty store, seeded with
  persisted history as the operator does or not at all as the manager does, with the cursor past the
  history; then let deliveries (with any redeliveries) and ticks alternate in any order, each tick
  with its own samples. No pair of deploy and query is handed to alerting twice, everything handed
  on is a detected regression, and none of it is about a deploy of the history.\<close>

theorem deploys_reported_once:
  assumes "s00 \<in> {new_store, zero_store}" "store_Backfill hist s00 = (s0, n)"
    and "fold poll_step ops (s0, (n, []), []) = (s, st, reported)"
  shows "distinct (map (\<lambda>t. (ev_ID (tr_Event t), pr_QueryID (tr_Regression t))) reported) \<and>
    list_all (\<lambda>t. pr_Status (tr_Regression t) = StatusDetected \<and> ev_ID (tr_Event t) \<in> ev_ID ` set (st_events s) \<and>
      ev_ID (tr_Event t) \<notin> ev_ID ` set (st_events s0)) reported"
proof -
  have inv0: "store_inv s0" and n: "n = length (st_events s0)"
    using store_Backfill_inv [of s00 hist] assms(1,2) store_inv_new by auto
  have "poll_inv n (s, st, reported)"
    using poll_run_inv [OF poll_inv_start [OF inv0], of ops] assms(3) by (simp add: n)
  moreover have "prefix (st_events s0) (st_events s)" using poll_run_extends [OF inv0, of ops "((n, []), [])"] assms(3) by simp
  ultimately show ?thesis using poll_inv_fresh [of s0 s st reported] by (simp add: n tr_key_fun)
qed

definition sample_poll_run :: poll_state where
  "sample_poll_run = fold poll_step [PollDeliver (sample_event ''a'' 0), PollDeliver (sample_event ''a'' 0), PollTick sample_engine detected_now 1,
     PollDeliver (sample_event ''a'' 0), PollTick sample_engine detected_now 2] (new_store, (0, []), [])"

theorem deploys_reported_once_witness:
  "map (\<lambda>t. pr_QueryID (tr_Regression t)) (snd (snd sample_poll_run)) = [7] \<and>
   distinct (map (\<lambda>t. (ev_ID (tr_Event t), pr_QueryID (tr_Regression t))) (snd (snd sample_poll_run)))"
proof
  have "store_Backfill [] new_store = (new_store, 0)" by (simp add: store_Backfill_def new_store_def)
  then show "distinct (map (\<lambda>t. (ev_ID (tr_Event t), pr_QueryID (tr_Regression t))) (snd (snd sample_poll_run)))"
    using deploys_reported_once [of new_store "[]" new_store 0 _ "fst sample_poll_run" "fst (snd sample_poll_run)" "snd (snd sample_poll_run)"]
    unfolding sample_poll_run_def by (simp only: prod.collapse insert_iff simp_thms)
qed (code_simp)

end
