(* ===== verification/Watch_Controller.thy ===== *)
theory Watch_Controller
  imports Watch_Runtime Secret_Access Poll_Loop
begin

text \<open>
  The PostgresWatch reconciler (\<open>internal/controller/postgreswatch_controller.go\<close>) and the abort of a
  canary (\<open>internal/actuation/argorollouts.go\<close>): starting, restarting and stopping the worker of a
  watch, its two poll loops, and the PerformanceRegression objects it writes. One iteration of a loop
  is a step; within a step the collector does not change. Everything outside the repository is a
  field of the record \<open>world\<close> or of the record \<open>api\<close> (the Kubernetes API server).
\<close>

section \<open>Outside world\<close>

record world =
  wd_Open :: "string \<Rightarrow> string option"
  wd_ParseURL :: url_parser
  wd_ParseTemplate :: "string \<Rightarrow> string + tmpl"
  wd_ParseFloat :: "string \<Rightarrow> go_float option"
  wd_HashSpec :: "watch_spec \<Rightarrow> string"
  wd_Lib :: client_lib
  wd_Hub :: hub
  wd_PromHTTP :: prom_http
  wd_PromDecode :: prom_decode

record reconciler_cfg =
  rcf_AllowedAlertDestinations :: "string list"
  rcf_AlertingDestinationPolicy :: string
  rcf_RelayURL :: string
  rcf_SecurityProfile :: security_profile
  rcf_HasAborter :: bool

section \<open>Helpers\<close>

definition statusRefreshInterval :: duration where "statusRefreshInterval = 30 * second_d"

definition usesPrometheusSampleSource :: "watch_spec \<Rightarrow> bool" where
  "usesPrometheusSampleSource sp = (case wsp_SampleSource sp of None \<Rightarrow> False | Some s \<Rightarrow> ss_Type s = ''prometheus'')"

definition hashPostgresWatchSpec :: "(watch_spec \<Rightarrow> string) \<Rightarrow> watch_spec \<Rightarrow> string \<Rightarrow> string" where
  "hashPostgresWatchSpec h sp resolvedDSN =
     h (sp\<lparr>wsp_DSN := resolvedDSN, wsp_DSNSecretRef := None, wsp_RemoteClusterSecretRef := None, wsp_RemoteClusterRef := []\<rparr>)"

definition parseFloatOr :: "(string \<Rightarrow> go_float option) \<Rightarrow> string \<Rightarrow> real \<Rightarrow> real" where
  "parseFloatOr pf s fallback = (if s = [] then fallback else case pf s of None \<Rightarrow> fallback | Some v \<Rightarrow> finite_value v)"

definition mergeAlertingDestinationPolicy :: "string \<Rightarrow> string \<Rightarrow> string" where
  "mergeAlertingDestinationPolicy globalPolicy watchPolicy = (if globalPolicy \<noteq> [] then globalPolicy else watchPolicy)"

definition name_char :: "char \<Rightarrow> bool" where
  "name_char c \<longleftrightarrow> is_lower c \<or> is_digit c \<or> c = CHR ''-''"

text \<open>\<open>ReplaceAllString\<close> with the pattern \<open>[^a-z0-9-]+\<close>: every maximal run of other characters becomes one dash.
  The flag says whether the run before was already replaced.\<close>

fun replace_invalid :: "bool \<Rightarrow> string \<Rightarrow> string" where
  "replace_invalid inrun [] = []"
| "replace_invalid inrun (c # cs) =
     (if name_char c then c # replace_invalid False cs
      else if inrun then replace_invalid True cs else CHR ''-'' # replace_invalid True cs)"

definition trim_dashes :: "string \<Rightarrow> string" where
  "trim_dashes s = (let d = (\<lambda>c. c = CHR ''-'') in rev (dropWhile d (rev (dropWhile d s))))"

definition regressionResourceName :: "trigger_type \<Rightarrow> string \<Rightarrow> queryid \<Rightarrow> string" where
  "regressionResourceName triggerType deployEventID queryID =
     (if triggerType = TriggerTypePeriodic then ''periodic-q'' @ format_int queryID
      else let base0 = trim_dashes (replace_invalid False (to_lower deployEventID));
               base1 = (if base0 = [] then ''event'' else base0);
               suffix = ''-q'' @ format_int queryID;
               maxBaseLen = 253 - int (length suffix);
               base = (if int (length base1) > maxBaseLen then take (nat maxBaseLen) base1 else base1)
           in trim_dashes base @ suffix)"

section \<open>Starting and stopping a worker\<close>

definition watch_alert_config :: "reconciler_cfg \<Rightarrow> watch_spec \<Rightarrow> build_config" where
  "watch_alert_config cfg sp =
     (let base = \<lparr>bc_Format = [], bc_URL = [], bc_PagerDutyRoutingKey = [], bc_CustomTemplate = [], bc_CustomContentType = [],
            bc_AllowedDestinations = rcf_AllowedAlertDestinations cfg, bc_DestinationPolicy = rcf_AlertingDestinationPolicy cfg,
            bc_RelayURL = rcf_RelayURL cfg, bc_ClusterName = wsp_ClusterName sp, bc_Timeout = 0\<rparr>
      in case wsp_Alerting sp of
           Some al \<Rightarrow> base\<lparr>bc_Format := al_Format al, bc_URL := al_URL al, bc_PagerDutyRoutingKey := al_PagerDutyRoutingKey al,
             bc_CustomTemplate := al_CustomTemplate al,
             bc_DestinationPolicy := mergeAlertingDestinationPolicy (rcf_AlertingDestinationPolicy cfg) (al_DestinationPolicy al)\<rparr>
         | None \<Rightarrow> base\<lparr>bc_URL := wsp_SlackWebhookURL sp\<rparr>)"

definition watch_engine_config :: "world \<Rightarrow> string \<Rightarrow> watch_spec \<Rightarrow> engine_config" where
  "watch_engine_config w ns sp =
     \<lparr>ec_Namespace = ns,
      ec_WindowMinutes = (if wsp_WindowMinutes sp \<le> 0 then 30 else wsp_WindowMinutes sp),
      ec_MinExecutions = (if wsp_MinExecutions sp \<le> 0 then 10 else wsp_MinExecutions sp),
      ec_LatencyChangeThreshold = parseFloatOr (wd_ParseFloat w) (wsp_LatencyChangeThreshold sp) (1 / 5),
      ec_PValueThreshold = parseFloatOr (wd_ParseFloat w) (wsp_PValueThreshold sp) (1 / 20),
      ec_PeriodicWindowMinutes = (case wsp_PeriodicDetection sp of None \<Rightarrow> 60
        | Some p \<Rightarrow> if pd_WindowMinutes p > 0 then pd_WindowMinutes p else 60),
      ec_ChangePointTolerance = 0\<rparr>"

text \<open>The sample source: a new collector, or a configured Prometheus source.\<close>

definition watch_source :: "world \<Rightarrow> postgres_watch \<Rightarrow> string \<Rightarrow> string + (collector option \<times> prom_config option)" where
  "watch_source w watch dsn =
     (let sp = pw_Spec watch;
          scrapeInterval = (let d = dur_mul (wsp_ScrapeIntervalSeconds sp) second_d in if d \<le> 0 then 60 * second_d else d)
      in if usesPrometheusSampleSource sp then
           (case (case wsp_SampleSource sp of None \<Rightarrow> None | Some s \<Rightarrow> ss_Prometheus s) of
              None \<Rightarrow> Inl (''postgreswatch '' @ nn_String (pw_Key watch) @ '': sampleSource.type is \"prometheus\" but sampleSource.prometheus is unset'')
            | Some p \<Rightarrow>
                (case prom_New (wd_ParseURL w) \<lparr>pm_BaseURL = pcf_URL p, pm_MetricName = pcf_MetricName p, pm_QueryIDLabel = pcf_QueryIDLabel p,
                        pm_QueryTextLabel = pcf_QueryTextLabel p, pm_Step = dur_mul (pcf_StepSeconds p) second_d, pm_Timeout = 0\<rparr> of
                   Inl err \<Rightarrow> Inl (''create prometheus sample source: '' @ err)
                 | Inr src \<Rightarrow> Inr (None, Some src)))
         else
           (case wd_Open w dsn of
              Some err \<Rightarrow> Inl (''create collector: collector: open db: '' @ err)
            | None \<Rightarrow> Inr (Some (new_collector \<lparr>cc_ScrapeInterval = scrapeInterval, cc_ClusterName = wsp_ClusterName sp,
                             cc_Namespace = nn_Namespace (pw_Key watch), cc_MaxQueryTextLen = 0, cc_RetentionDuration = 0,
                             cc_CapturePlans = wsp_CapturePlans sp\<rparr>), None)))"

definition startWatch :: "world \<Rightarrow> reconciler_cfg \<Rightarrow> postgres_watch \<Rightarrow> string \<Rightarrow> string \<Rightarrow> string + watch_runtime" where
  "startWatch w cfg watch dsn specHash =
     (let sp = pw_Spec watch
      in if wsp_CapturePlans sp \<and> usesPrometheusSampleSource sp
         then Inl (''postgreswatch '' @ nn_String (pw_Key watch) @ '': capturePlans is not supported with sampleSource.type=prometheus (plan-diff capture needs the direct database connection that sample source deliberately doesn't have) '' @ em_dash @ '' see docs/otel-prometheus-source.md'')
         else (case watch_source w watch dsn of
                 Inl err \<Rightarrow> Inl err
               | Inr (col, prom) \<Rightarrow>
                   (case buildNotifier (wd_ParseURL w) (wd_ParseTemplate w) (watch_alert_config cfg sp) of
                      Inl err \<Rightarrow> Inl (''build alert notifier: '' @ err)
                    | Inr notifier \<Rightarrow>
                        Inr \<lparr>rt_Store = zero_store, rt_Collector = col, rt_Prom = prom,
                          rt_EngineCfg = watch_engine_config w (nn_Namespace (pw_Key watch)) sp, rt_Notifier = notifier,
                          rt_SpecHash = specHash, rt_ClusterName = wsp_ClusterName sp, rt_CapturePlans = wsp_CapturePlans sp,
                          rt_AutoAbortEnabled = (rcf_HasAborter cfg \<and> (case wsp_AutoAbort sp of None \<Rightarrow> False | Some aa \<Rightarrow> aa_Enabled aa)),
                          rt_AutoAbortThreshold = (case wsp_AutoAbort sp of None \<Rightarrow> 99 / 100
                            | Some aa \<Rightarrow> parseFloatOr (wd_ParseFloat w) (aa_ConfidenceThreshold aa) (99 / 100)),
                          rt_PeriodicTracker = newPeriodicTracker,
                          rt_PeriodicEnabled = (case wsp_PeriodicDetection sp of None \<Rightarrow> False | Some p \<Rightarrow> pd_Enabled p),
                          rt_PeriodicIntervalMinutes = (case wsp_PeriodicDetection sp of None \<Rightarrow> 15
                            | Some p \<Rightarrow> if pd_IntervalMinutes p > 0 then pd_IntervalMinutes p else 15),
                          rt_cursor = 0, rt_pending = [], rt_cancelled = False\<rparr>)))"

definition stopWatch :: "nsname \<Rightarrow> manager \<Rightarrow> manager" where
  "stopWatch key m =
     (case registry_Get key m of
        None \<Rightarrow> m
      | Some a \<Rightarrow> registry_Delete key (update_runtime a (\<lambda>rt. rt\<lparr>rt_cancelled := True\<rparr>) m))"

definition alloc_runtime :: "watch_runtime \<Rightarrow> manager \<Rightarrow> addr \<times> manager" where
  "alloc_runtime rt m = (length (mg_heap m), m\<lparr>mg_heap := mg_heap m @ [rt]\<rparr>)"

section \<open>Reconcile\<close>

definition runtime_src :: "world \<Rightarrow> gtime \<Rightarrow> watch_runtime \<Rightarrow> sample_src" where
  "runtime_src w now rt =
     (case rt_Collector rt of
        Some c \<Rightarrow> collector_src c
      | None \<Rightarrow>
          (case rt_Prom rt of
             Some p \<Rightarrow> \<lparr>src_SamplesInRange = prom_SamplesInRange (wd_PromHTTP w) (wd_PromDecode w) (wd_ParseFloat w) p,
                        src_AllQueryIDs = prom_AllQueryIDs (wd_PromHTTP w) (wd_PromDecode w) now p\<rparr>
           | None \<Rightarrow> \<lparr>src_SamplesInRange = (\<lambda>q lo hi. []), src_AllQueryIDs = []\<rparr>))"

definition runtime_engine :: "world \<Rightarrow> gtime \<Rightarrow> watch_runtime \<Rightarrow> engine" where
  "runtime_engine w now rt = new_engine (rt_EngineCfg rt) (runtime_src w now rt)"

definition markFailed :: "(postgres_watch \<Rightarrow> string option) \<Rightarrow> gtime \<Rightarrow> string \<Rightarrow> postgres_watch \<Rightarrow> reconcile_result \<times> postgres_watch option" where
  "markFailed update now cause watch =
     (let st = pw_Status watch
      in status_update_result update
           (watch\<lparr>pw_Status := st\<lparr>wst_Phase := Some PhaseFailed, wst_Message := cause,
              wst_Conditions := setCondition now (ready_condition ''False'' ''WorkerStartFailed'' cause (pw_Generation watch)) (wst_Conditions st)\<rparr>\<rparr>)
           (ReconcileError cause))"

definition refreshStatus :: "(postgres_watch \<Rightarrow> string option) \<Rightarrow> world \<Rightarrow> gtime \<Rightarrow> watch_runtime \<Rightarrow> postgres_watch \<Rightarrow> reconcile_result \<times> postgres_watch option" where
  "refreshStatus update w now rt watch =
     (let st = pw_Status watch;
          st1 = st\<lparr>wst_Phase := Some PhaseRunning, wst_ObservedGeneration := pw_Generation watch,
                  wst_TrackedQueryIDs := int (length (src_AllQueryIDs (runtime_src w now rt)))\<rparr>;
          st2 = (case rt_Collector rt of
                   None \<Rightarrow> st1
                 | Some c \<Rightarrow> if is_zero (lastScrapeTime c) then st1 else st1\<lparr>wst_LastScrapeTime := Some (lastScrapeTime c)\<rparr>)
      in status_update_result update (watch\<lparr>pw_Status := st2\<rparr>) (RequeueAfter statusRefreshInterval))"

definition started_status :: "gtime \<Rightarrow> postgres_watch \<Rightarrow> postgres_watch" where
  "started_status now watch =
     (let st = pw_Status watch
      in watch\<lparr>pw_Status := st\<lparr>wst_Phase := Some PhaseRunning, wst_ObservedGeneration := pw_Generation watch, wst_Message := [],
           wst_Conditions := setCondition now (ready_condition ''True'' ''WorkerStarted'' ''Collector and Correlation Engine are running.'' (pw_Generation watch))
             (wst_Conditions st)\<rparr>\<rparr>)"

definition watch_dsn :: "world \<Rightarrow> reconciler_cfg \<Rightarrow> gtime \<Rightarrow> postgres_watch \<Rightarrow> client_cache \<Rightarrow> (string + string) \<times> client_cache" where
  "watch_dsn w cfg now watch cache =
     (if usesPrometheusSampleSource (pw_Spec watch) then (Inr [], cache)
      else resolveDSN (wd_Lib w) now (rcf_SecurityProfile cfg) (wd_Hub w) watch cache)"

definition watch_Reconcile :: "world \<Rightarrow> reconciler_cfg \<Rightarrow> (postgres_watch \<Rightarrow> string option) \<Rightarrow> gtime \<Rightarrow> postgres_watch kget \<Rightarrow> nsname \<Rightarrow>
    client_cache \<Rightarrow> manager \<Rightarrow> (reconcile_result \<times> postgres_watch option) \<times> client_cache \<times> manager" where
  "watch_Reconcile w cfg update now got key cache m =
     (case got of
        NotFound err \<Rightarrow> ((Done, None), cache, stopWatch key m)
      | GetError err \<Rightarrow> ((ReconcileError err, None), cache, m)
      | Found watch \<Rightarrow>
          (case watch_dsn w cfg now watch cache of
             (Inl err, cache') \<Rightarrow> (markFailed update now err watch, cache', m)
           | (Inr dsn, cache') \<Rightarrow>
               (let specHash = hashPostgresWatchSpec (wd_HashSpec w) (pw_Spec watch) dsn;
                    current = (case registry_Get key m of None \<Rightarrow> None
                      | Some a \<Rightarrow> if rt_SpecHash (at_addr m a) = specHash then Some a else None)
                in case current of
                     Some a \<Rightarrow> (refreshStatus update w now (at_addr m a) watch, cache', m)
                   | None \<Rightarrow>
                       (let m1 = stopWatch key m
                        in case startWatch w cfg watch dsn specHash of
                             Inl err \<Rightarrow> (markFailed update now err watch, cache', m1)
                           | Inr rt \<Rightarrow>
                               (let (a, m2) = alloc_runtime rt m1
                                in (status_update_result update (started_status now watch) (RequeueAfter statusRefreshInterval),
                                    cache', registry_Set key a m2))))))"

section \<open>PerformanceRegression objects\<close>

record regression_spec =
  rs_PostgresWatchRef :: string
  rs_ClusterName :: string
  rs_DeployEventID :: string
  rs_QueryID :: queryid
  rs_QueryText :: string
  rs_TriggerType :: string

record regression_cr_status =
  rst_Status :: string
  rst_ConfidenceScore :: string
  rst_MeanLatencyBeforeMs :: string
  rst_MeanLatencyAfterMs :: string
  rst_LatencyChangeFactor :: string
  rst_ExternalCauseSuspected :: bool
  rst_AutoAbortTriggered :: bool
  rst_AutoAbortError :: string
  rst_PlanDiffSummary :: string
  rst_DetectedAt :: "gtime option"
  rst_Conditions :: "condition list"

record regression_object =
  ro_Key :: nsname
  ro_Labels :: "(string, string) gomap"
  ro_Owner :: "nsname option"
  ro_Spec :: regression_spec
  ro_Status :: regression_cr_status

definition empty_status :: regression_cr_status where
  "empty_status = \<lparr>rst_Status = [], rst_ConfidenceScore = [], rst_MeanLatencyBeforeMs = [], rst_MeanLatencyAfterMs = [], rst_LatencyChangeFactor = [],
     rst_ExternalCauseSuspected = False, rst_AutoAbortTriggered = False, rst_AutoAbortError = [], rst_PlanDiffSummary = [], rst_DetectedAt = None,
     rst_Conditions = []\<rparr>"

text \<open>The API server: what a lookup of a watch or a source gives, and which operations on regression
  objects fail. The regression objects themselves are the state that \<open>recordRegression\<close> changes.\<close>

record api =
  api_watch :: "nsname \<Rightarrow> postgres_watch kget"
  api_source :: "nsname \<Rightarrow> source_object kget"
  api_get_fault :: "nsname \<Rightarrow> string option"
  api_owner_fault :: "nsname \<Rightarrow> string option"
  api_create_fault :: "nsname \<Rightarrow> string option"
  api_status_fault :: "nsname \<Rightarrow> string option"

type_synonym regressions = "(nsname, regression_object) gomap"

definition detected_message :: "performance_regression \<Rightarrow> string" where
  "detected_message res = ''query '' @ format_int (pr_QueryID res) @ '' latency changed by '' @ format_fixed 2 (pr_LatencyChangeFactor res) @
     ''x (confidence '' @ format_fixed 0 (pr_ConfidenceScore res * 100) @ ''%)''"

definition applyRegressionStatus :: "gtime \<Rightarrow> performance_regression \<Rightarrow> regression_object \<Rightarrow> regression_object" where
  "applyRegressionStatus now res obj =
     obj\<lparr>ro_Status := \<lparr>rst_Status = status_string (pr_Status res), rst_ConfidenceScore = format_fixed 4 (pr_ConfidenceScore res),
       rst_MeanLatencyBeforeMs = format_fixed 4 (pr_MeanLatencyBefore res), rst_MeanLatencyAfterMs = format_fixed 4 (pr_MeanLatencyAfter res),
       rst_LatencyChangeFactor = format_fixed 4 (pr_LatencyChangeFactor res), rst_ExternalCauseSuspected = pr_ExternalCauseSuspected res,
       rst_AutoAbortTriggered = pr_AutoAbortTriggered res, rst_AutoAbortError = pr_AutoAbortError res,
       rst_PlanDiffSummary = pr_PlanDiffSummary res, rst_DetectedAt = Some (pr_CreatedAt res),
       rst_Conditions = setCondition now \<lparr>co_Type = ''Detected'', co_Status = ''True'', co_Reason = ''RegressionDetected'',
         co_Message = detected_message res, co_ObservedGeneration = 0, co_LastTransitionTime = 0\<rparr> (rst_Conditions (ro_Status obj))\<rparr>\<rparr>"

definition new_regression_object :: "nsname \<Rightarrow> nsname \<Rightarrow> performance_regression \<Rightarrow> regression_object" where
  "new_regression_object watchKey nsName res =
     \<lparr>ro_Key = nsName, ro_Labels = [(''radar.pgregressionradar.io/postgres-watch'', nn_Name watchKey)], ro_Owner = None,
      ro_Spec = \<lparr>rs_PostgresWatchRef = nn_Name watchKey, rs_ClusterName = [], rs_DeployEventID = pr_DeployEventID res, rs_QueryID = pr_QueryID res,
        rs_QueryText = pr_QueryText res,
        rs_TriggerType = (if pr_TriggerType res = TriggerTypePeriodic then ''periodic'' else ''deploy'')\<rparr>,
      ro_Status = empty_status\<rparr>"

definition owned_object :: "api \<Rightarrow> nsname \<Rightarrow> regression_object \<Rightarrow> string + regression_object" where
  "owned_object ap watchKey obj =
     (case api_watch ap watchKey of
        Found owner \<Rightarrow>
          (case api_owner_fault ap (ro_Key obj) of
             Some err \<Rightarrow> Inl (''set owner reference: '' @ err)
           | None \<Rightarrow> Inr (obj\<lparr>ro_Spec := (ro_Spec obj)\<lparr>rs_ClusterName := wsp_ClusterName (pw_Spec owner)\<rparr>, ro_Owner := Some watchKey\<rparr>))
      | _ \<Rightarrow> Inr obj)"

definition recordRegression :: "api \<Rightarrow> gtime \<Rightarrow> nsname \<Rightarrow> performance_regression \<Rightarrow> regressions \<Rightarrow> string option \<times> regressions" where
  "recordRegression ap now watchKey res regs =
     (let nsName = \<lparr>nn_Namespace = nn_Namespace watchKey,
            nn_Name = regressionResourceName (pr_TriggerType res) (pr_DeployEventID res) (pr_QueryID res)\<rparr>
      in case api_get_fault ap nsName of
           Some err \<Rightarrow> (Some (''get performanceregression: '' @ err), regs)
         | None \<Rightarrow>
             (case map_of regs nsName of
                None \<Rightarrow>
                  (case owned_object ap watchKey (new_regression_object watchKey nsName res) of
                     Inl err \<Rightarrow> (Some err, regs)
                   | Inr obj \<Rightarrow>
                       (case api_create_fault ap nsName of
                          Some err \<Rightarrow> (Some (''create performanceregression: '' @ err), regs)
                        | None \<Rightarrow>
                            (case api_status_fault ap nsName of
                               Some err \<Rightarrow> (Some (''update performanceregression status: '' @ err), AList.update nsName obj regs)
                             | None \<Rightarrow> (None, AList.update nsName (applyRegressionStatus now res obj) regs))))
              | Some existing \<Rightarrow>
                  (case api_status_fault ap nsName of
                     Some err \<Rightarrow> (Some err, regs)
                   | None \<Rightarrow> (None, AList.update nsName (applyRegressionStatus now res existing) regs))))"

section \<open>Aborting a canary\<close>

definition argo_Abort :: "(string \<Rightarrow> string \<Rightarrow> string option) \<Rightarrow> string \<Rightarrow> string \<Rightarrow> string option" where
  "argo_Abort patch ns name =
     (case patch ns name of None \<Rightarrow> None | Some err \<Rightarrow> Some (''abort rollout '' @ ns @ ''/'' @ name @ '': '' @ err))"

text \<open>A call of the aborter: its error, and the request as a pair of namespace and rollout.\<close>

definition abort_call :: "(string \<Rightarrow> string \<Rightarrow> string option) \<Rightarrow> string \<Rightarrow> string \<Rightarrow> string option \<times> (string \<times> string) list" where
  "abort_call abort ns app = (abort ns app, [(ns, app)])"

text \<open>The result carries the aborts requested.\<close>

definition maybeAutoAbort :: "api \<Rightarrow> (string \<Rightarrow> string \<Rightarrow> string option) \<Rightarrow> nsname \<Rightarrow> deploy_event \<Rightarrow> performance_regression \<Rightarrow>
    performance_regression \<times> (string \<times> string) list" where
  "maybeAutoAbort ap abort watchKey ev res =
     (case api_source ap \<lparr>nn_Namespace = nn_Namespace watchKey, nn_Name = ev_Source ev\<rparr> of
        Found src \<Rightarrow>
          (if dss_SourceType (so_Spec src) \<noteq> ''argo-rollouts'' then (res, [])
           else (case abort_call abort (ev_Namespace ev) (ev_App ev) of (failed, aborts) \<Rightarrow>
             (res\<lparr>pr_AutoAbortTriggered := True,
                  pr_AutoAbortError := (case failed of Some err \<Rightarrow> err | None \<Rightarrow> pr_AutoAbortError res)\<rparr>, aborts)))
      | _ \<Rightarrow> (res, []))"

section \<open>Poll loops\<close>

text \<open>What a step does to the outside: aborts requested, alerts sent, and the regression objects.\<close>

record effects =
  ef_aborts :: "(string \<times> string) list"
  ef_posts :: "post list"
  ef_regressions :: regressions

record loop_env =
  le_api :: api
  le_abort :: "string \<Rightarrow> string \<Rightarrow> string option"
  le_http :: "post \<Rightarrow> http_result"
  le_now :: gtime

definition with_plan_diff :: "watch_runtime \<Rightarrow> performance_regression \<Rightarrow> performance_regression" where
  "with_plan_diff rt res =
     (if rt_CapturePlans rt then
        (case rt_Collector rt of
           None \<Rightarrow> res
         | Some c \<Rightarrow> (case plansAround (pr_QueryID res) (pr_DetectedChangeAt res) c of
                        (before, after) \<Rightarrow> res\<lparr>pr_PlanDiffSummary := plan_diff before after\<rparr>))
      else res)"

definition deliver :: "loop_env \<Rightarrow> nsname \<Rightarrow> performance_regression \<Rightarrow> notifier \<times> effects \<Rightarrow> notifier \<times> effects" where
  "deliver le key res st =
     (case st of (n, ef) \<Rightarrow>
        (case notify (le_http le) res (observeDetectedRegression res n) of
           (err, n', posts) \<Rightarrow>
             (n', ef\<lparr>ef_posts := ef_posts ef @ posts,
                     ef_regressions := snd (recordRegression (le_api le) (le_now le) key res (ef_regressions ef))\<rparr>)))"

definition poll_result :: "loop_env \<Rightarrow> nsname \<Rightarrow> watch_runtime \<Rightarrow> tick_result \<Rightarrow> notifier \<times> effects \<Rightarrow> notifier \<times> effects" where
  "poll_result le key rt tr st =
     (case st of (n, ef) \<Rightarrow>
       (let res = with_plan_diff rt (tr_Regression tr);
            (res', aborts) = (if rt_AutoAbortEnabled rt \<and> pr_ConfidenceScore res \<ge> rt_AutoAbortThreshold rt
                              then maybeAutoAbort (le_api le) (le_abort le) key (tr_Event tr) res else (res, []))
        in deliver le key res' (n, ef\<lparr>ef_aborts := ef_aborts ef @ aborts\<rparr>)))"

definition pollLoop_step :: "world \<Rightarrow> loop_env \<Rightarrow> nsname \<Rightarrow> (deploy_event \<Rightarrow> nat \<Rightarrow> gtime) \<Rightarrow> watch_runtime \<Rightarrow> effects \<Rightarrow> watch_runtime \<times> effects" where
  "pollLoop_step w le key clock rt ef =
     (let e = runtime_engine w (le_now le) rt;
          ((cursor', pending'), trs) = poll_core e (\<lambda>ev. analyse e (clock ev) ev) (le_now le) (rt_Store rt) (rt_cursor rt, rt_pending rt);
          (n', ef') = fold (poll_result le key rt) trs (rt_Notifier rt, ef)
      in (rt\<lparr>rt_cursor := cursor', rt_pending := pending', rt_Notifier := n'\<rparr>, ef'))"

definition periodicPollLoop_step :: "world \<Rightarrow> loop_env \<Rightarrow> nsname \<Rightarrow> (nat \<Rightarrow> gtime) \<Rightarrow> watch_runtime \<Rightarrow> effects \<Rightarrow> watch_runtime \<times> effects" where
  "periodicPollLoop_step w le key clock rt ef =
     (let (p', rs) = periodic_Tick (runtime_engine w (le_now le) rt) clock (le_now le) (rt_PeriodicTracker rt);
          (n', ef') = fold (\<lambda>res. deliver le key (with_plan_diff rt res)) rs (rt_Notifier rt, ef)
      in (rt\<lparr>rt_PeriodicTracker := p', rt_Notifier := n'\<rparr>, ef'))"

type_synonym runtime_tick = "world \<times> loop_env \<times> nsname \<times> (deploy_event \<Rightarrow> nat \<Rightarrow> gtime) \<times> effects"

definition runtime_deliver :: "deploy_event \<Rightarrow> watch_runtime \<Rightarrow> watch_runtime" where
  "runtime_deliver ev rt = rt\<lparr>rt_Store := store_Add ev (rt_Store rt)\<rparr>"

definition runtime_tick_state :: "runtime_tick \<Rightarrow> watch_runtime \<Rightarrow> watch_runtime" where
  "runtime_tick_state x rt = (case x of (w, le, key, clock, ef) \<Rightarrow> fst (pollLoop_step w le key clock rt ef))"

definition tick_engine :: "runtime_tick \<Rightarrow> watch_runtime \<Rightarrow> engine" where
  "tick_engine x rt = (case x of (w, le, key, clock, ef) \<Rightarrow> runtime_engine w (le_now le) rt)"

definition tick_analysis :: "runtime_tick \<Rightarrow> watch_runtime \<Rightarrow> deploy_event \<Rightarrow> performance_regression list" where
  "tick_analysis x rt = (case x of (w, le, key, clock, ef) \<Rightarrow> (\<lambda>ev. analyse (runtime_engine w (le_now le) rt) (clock ev) ev))"

definition runtime_results :: "runtime_tick \<Rightarrow> watch_runtime \<Rightarrow> tick_result list" where
  "runtime_results x rt = snd (poll_core (tick_engine x rt) (tick_analysis x rt) (le_now (fst (snd x))) (rt_Store rt) (rt_cursor rt, rt_pending rt))"

datatype runtime_job =
    RtScrape json_parser "(collector_db \<times> gtime \<times> (queryid \<Rightarrow> gtime)) list"
  | RtPeriodic world loop_env nsname "nat \<Rightarrow> gtime" effects
  | RtCancel

fun runtime_job_state :: "runtime_job \<Rightarrow> watch_runtime \<Rightarrow> watch_runtime" where
  "runtime_job_state (RtScrape parse ticks) rt = rt\<lparr>rt_Collector := map_option (collector_Run parse ticks) (rt_Collector rt)\<rparr>"
| "runtime_job_state (RtPeriodic w le key clock ef) rt = fst (periodicPollLoop_step w le key clock rt ef)"
| "runtime_job_state RtCancel rt = rt\<lparr>rt_cancelled := True\<rparr>"

lemma runtime_job_keeps:
  "rt_Store (runtime_job_state y rt) = rt_Store rt" "rt_cursor (runtime_job_state y rt) = rt_cursor rt"
  "rt_pending (runtime_job_state y rt) = rt_pending rt"
  by (cases y; simp add: periodicPollLoop_step_def Let_def split: prod.splits)+

interpretation runtime_worker: poll_worker rt_Store "\<lambda>rt. (rt_cursor rt, rt_pending rt)" runtime_deliver runtime_tick_state runtime_results
  runtime_job_state tick_engine tick_analysis "\<lambda>x. le_now (fst (snd x))"
  by unfold_locales
     (auto simp: runtime_deliver_def runtime_tick_state_def runtime_results_def tick_engine_def tick_analysis_def pollLoop_step_def
       runtime_job_keeps Let_def split: prod.splits)

lemma runtime_tick_cfg: "rt_EngineCfg (runtime_tick_state x rt) = rt_EngineCfg rt"
  by (cases x) (simp add: runtime_tick_state_def pollLoop_step_def Let_def split: prod.splits)

lemma runtime_job_cfg: "rt_EngineCfg (runtime_job_state y rt) = rt_EngineCfg rt"
  by (cases y; simp add: periodicPollLoop_step_def Let_def split: prod.splits)

interpretation runtime_steady: steady_worker rt_Store "\<lambda>rt. (rt_cursor rt, rt_pending rt)" runtime_deliver runtime_tick_state runtime_results
  runtime_job_state tick_engine tick_analysis "\<lambda>x. le_now (fst (snd x))" "\<lambda>rt. dur_mul (ec_WindowMinutes (engine_defaults (rt_EngineCfg rt))) minute_d"
  by unfold_locales (simp_all add: analysisWindow_def tick_engine_def runtime_engine_def new_engine_def runtime_deliver_def runtime_tick_cfg
    runtime_job_cfg split: prod.splits)

text \<open>A runtime that \<open>startWatch\<close> returned hands a pair of deploy and query to alerting at most once.\<close>

lemma runtime_reports_once:
  assumes "startWatch w cfg watch dsn specHash = Inr rt"
    and "worker_run runtime_deliver runtime_tick_state runtime_results runtime_job_state ops (rt, []) = (rt', rep)"
  shows "distinct (map tr_key rep) \<and>
    list_all (\<lambda>t. pr_Status (tr_Regression t) = StatusDetected \<and> ev_ID (tr_Event t) \<in> ev_ID ` set (st_events (rt_Store rt'))) rep"
proof -
  have "rt_Store rt = zero_store \<and> rt_cursor rt = 0 \<and> rt_pending rt = []"
    using assms(1) by (auto simp: startWatch_def Let_def split: sum.splits prod.splits if_splits)
  then show ?thesis using runtime_worker.worker_reports_once [OF _ _ assms(2)] store_inv_new(2)
    by (auto simp: zero_store_def list_all_iff)
qed

section \<open>Names of regression objects\<close>

definition dns_name :: "string \<Rightarrow> bool" where
  "dns_name s \<longleftrightarrow> s \<noteq> [] \<and> length s \<le> 253 \<and> list_all name_char s \<and> hd s \<noteq> CHR ''-'' \<and> last s \<noteq> CHR ''-''"

lemma format_uint_length: "n < 10 ^ k \<Longrightarrow> 0 < k \<Longrightarrow> length (format_uint 10 n) \<le> k"
proof (induction "10 :: nat" n arbitrary: k rule: format_uint.induct)
  case (1 n)
  show ?case
  proof (cases "n < 10")
    case False
    then have "k \<noteq> 0" "k \<noteq> 1" using "1.prems" by auto
    then obtain k' where k: "k = Suc k'" "0 < k'" by (cases k) auto
    then have "n div 10 < 10 ^ k'" using "1.prems" by (simp add: less_mult_imp_div_less mult.commute)
    with "1.hyps" [OF _ this k(2)] False k show ?thesis by (subst format_uint.simps) auto
  qed (use "1.prems" in \<open>subst format_uint.simps, simp\<close>)
qed

lemma format_int_name:
  shows "list_all name_char (format_int q)" "is_digit (last (format_int q))" "format_int q \<noteq> []"
proof -
  have u: "list_all name_char (format_uint 10 n)" "is_digit (last (format_uint 10 n))" for n
    using format_uint_digits [of n] by (auto simp: list_all_iff name_char_def)
  show "list_all name_char (format_int q)" "is_digit (last (format_int q))" "format_int q \<noteq> []"
    using u by (auto simp: format_int_def name_char_def)
qed

lemma format_int_length: "- (2 ^ 63) \<le> q \<Longrightarrow> q < 2 ^ 63 \<Longrightarrow> length (format_int q) \<le> 20"
  using format_uint_length [of "nat q" 19] format_uint_length [of "nat (- q)" 19]
  by (cases "q < 0") (simp_all add: format_int_def nat_less_iff)

lemma replace_invalid_chars: "list_all name_char (replace_invalid inrun s)"
  by (induction inrun s rule: replace_invalid.induct) (auto simp: name_char_def)

lemma trim_dashes_chars: "set (trim_dashes s) \<subseteq> set s"
  by (auto simp: trim_dashes_def Let_def dest!: set_dropWhileD)

lemma trim_dashes_length: "length (trim_dashes s) \<le> length s"
  unfolding trim_dashes_def Let_def by (metis length_dropWhile_le length_rev order_trans)

lemma trim_dashes_ends:
  assumes "trim_dashes s \<noteq> []"
  shows "hd (trim_dashes s) \<noteq> CHR ''-''" "last (trim_dashes s) \<noteq> CHR ''-''"
proof -
  let ?d = "\<lambda>c. c = CHR ''-''" and ?s = "dropWhile (\<lambda>c. c = CHR ''-'') s"
  have e: "trim_dashes s = rev (dropWhile ?d (rev ?s))" by (simp add: trim_dashes_def Let_def)
  then have "\<not> ?d (hd (dropWhile ?d (rev ?s)))" using assms by (intro hd_dropWhile_not) auto
  then show "last (trim_dashes s) \<noteq> CHR ''-''" using assms e by (simp add: last_rev)
  have "prefix (trim_dashes s) ?s"
    unfolding e using suffix_dropWhile [of ?d "rev ?s"] by (simp only: suffix_to_prefix rev_rev_ident)
  then obtain zs where "?s = trim_dashes s @ zs" by (rule prefixE)
  then have "hd (trim_dashes s) = hd ?s" "?s \<noteq> []" using assms by (metis hd_append2, metis append_is_Nil_conv)
  then show "hd (trim_dashes s) \<noteq> CHR ''-''" using hd_dropWhile_not [of ?d s] by simp
qed

lemma trim_dashes_keeps: "s \<noteq> [] \<Longrightarrow> hd s \<noteq> CHR ''-'' \<Longrightarrow> trim_dashes s \<noteq> []"
  by (cases s) (auto simp: trim_dashes_def Let_def)

lemma take_hd: "0 < n \<Longrightarrow> s \<noteq> [] \<Longrightarrow> hd (take n s) = hd s \<and> take n s \<noteq> []"
  by (cases s; cases n) auto

lemma regression_name_dns:
  assumes "- (2 ^ 63) \<le> q" "q < 2 ^ 63"
  shows "dns_name (regressionResourceName t ev q)"
proof (cases "t = TriggerTypePeriodic")
  case True
  then show ?thesis using format_int_name [of q] format_int_length [OF assms]
    by (auto simp: regressionResourceName_def dns_name_def name_char_def is_digit_def char_in_def byte_def is_lower_def)
next
  case False
  define base0 where "base0 = trim_dashes (replace_invalid False (to_lower ev))"
  define base1 where "base1 = (if base0 = [] then ''event'' else base0)"
  define suffix where "suffix = ''-q'' @ format_int q"
  define base where "base = (if int (length base1) > 253 - int (length suffix) then take (nat (253 - int (length suffix))) base1 else base1)"
  have name: "regressionResourceName t ev q = trim_dashes base @ suffix"
    using False by (simp add: regressionResourceName_def base0_def base1_def suffix_def base_def Let_def)
  have suf: "length suffix \<le> 22" "list_all name_char suffix" "last suffix \<noteq> CHR ''-''" "suffix \<noteq> []"
    using format_int_name [of q] format_int_length [OF assms]
    by (auto simp: suffix_def name_char_def is_digit_def char_in_def byte_def is_lower_def)
  have b1: "base1 \<noteq> []" "hd base1 \<noteq> CHR ''-''" "list_all name_char base1"
    using trim_dashes_ends(1) [of "replace_invalid False (to_lower ev)"] trim_dashes_chars [of "replace_invalid False (to_lower ev)"]
      replace_invalid_chars [of False "to_lower ev"]
    by (auto simp: base1_def base0_def list_all_iff name_char_def is_lower_def char_in_def byte_def)
  have b: "base \<noteq> []" "hd base \<noteq> CHR ''-''" "list_all name_char base" "length base + length suffix \<le> 253"
    using take_hd [of "nat (253 - int (length suffix))" base1] b1 suf(1)
    by (auto simp: base_def list_all_iff dest: in_set_takeD)
  have t: "trim_dashes base \<noteq> []" "hd (trim_dashes base) \<noteq> CHR ''-''" "list_all name_char (trim_dashes base)" "length (trim_dashes base) \<le> length base"
    using trim_dashes_keeps [OF b(1,2)] trim_dashes_ends(1) [of base] trim_dashes_chars [of base] b(3) trim_dashes_length [of base]
    by (auto simp: list_all_iff)
  then show ?thesis unfolding name dns_name_def using b(4) suf by simp
qed

section \<open>Recording again\<close>

lemma setCondition_again: "setCondition now' cond (setCondition now cond cs) = setCondition now cond cs"
  by (induction now cond cs rule: setCondition.induct) auto

lemma applyRegressionStatus_again: "applyRegressionStatus now' res (applyRegressionStatus now res obj) = applyRegressionStatus now res obj"
  by (simp add: applyRegressionStatus_def setCondition_again)

lemma alist_update_again: "map_of m k = Some v \<Longrightarrow> AList.update k v m = m"
  by (induction m) (auto split: if_splits)

lemma recordRegression_Ok:
  assumes "recordRegression ap now key res regs = (None, regs')"
  shows "\<exists>name obj. name = \<lparr>nn_Namespace = nn_Namespace key, nn_Name = regressionResourceName (pr_TriggerType res) (pr_DeployEventID res) (pr_QueryID res)\<rparr> \<and>
    regs' = AList.update name (applyRegressionStatus now res obj) regs \<and> api_get_fault ap name = None \<and> api_status_fault ap name = None"
  using assms by (auto simp: recordRegression_def Let_def split: option.splits sum.splits)

section \<open>The abort gate\<close>

text \<open>What a result of a tick needs for an abort: the watch's switch, the threshold, and an Argo Rollouts source in the watch's
  namespace with the name the event carries.\<close>

definition abort_gate :: "api \<Rightarrow> nsname \<Rightarrow> watch_runtime \<Rightarrow> tick_result \<Rightarrow> bool" where
  "abort_gate ap key rt tr \<longleftrightarrow> rt_AutoAbortEnabled rt \<and> rt_AutoAbortThreshold rt \<le> pr_ConfidenceScore (tr_Regression tr) \<and>
     (\<exists>src. api_source ap \<lparr>nn_Namespace = nn_Namespace key, nn_Name = ev_Source (tr_Event tr)\<rparr> = Found src \<and> dss_SourceType (so_Spec src) = ''argo-rollouts'')"

lemma with_plan_diff_confidence [simp]: "pr_ConfidenceScore (with_plan_diff rt res) = pr_ConfidenceScore res"
  by (auto simp: with_plan_diff_def split: option.splits prod.splits)

lemma maybeAutoAbort_aborts:
  "snd (maybeAutoAbort ap abort key ev res) =
     (case api_source ap \<lparr>nn_Namespace = nn_Namespace key, nn_Name = ev_Source ev\<rparr> of
        Found src \<Rightarrow> if dss_SourceType (so_Spec src) = ''argo-rollouts'' then [(ev_Namespace ev, ev_App ev)] else []
      | _ \<Rightarrow> [])"
  by (auto simp: maybeAutoAbort_def abort_call_def split: kget.splits)

lemma deliver_aborts [simp]: "ef_aborts (snd (deliver le key res st)) = ef_aborts (snd st)"
  by (auto simp: deliver_def split: prod.splits)

definition result_aborts :: "loop_env \<Rightarrow> nsname \<Rightarrow> watch_runtime \<Rightarrow> tick_result \<Rightarrow> (string \<times> string) list" where
  "result_aborts le key rt tr =
     (if rt_AutoAbortEnabled rt \<and> rt_AutoAbortThreshold rt \<le> pr_ConfidenceScore (tr_Regression tr)
      then snd (maybeAutoAbort (le_api le) (le_abort le) key (tr_Event tr) (with_plan_diff rt (tr_Regression tr))) else [])"

lemma poll_result_aborts: "ef_aborts (snd (poll_result le key rt tr st)) = ef_aborts (snd st) @ result_aborts le key rt tr"
  by (auto simp: poll_result_def result_aborts_def Let_def split: prod.splits)

lemma fold_poll_result_aborts:
  "ef_aborts (snd (fold (poll_result le key rt) trs st)) = ef_aborts (snd st) @ concat (map (result_aborts le key rt) trs)"
  by (induction trs arbitrary: st) (simp_all add: poll_result_aborts)

lemma result_aborts_gate:
  "result_aborts le key rt tr = (if abort_gate (le_api le) key rt tr then [(ev_Namespace (tr_Event tr), ev_App (tr_Event tr))] else [])"
  by (auto simp: result_aborts_def abort_gate_def maybeAutoAbort_aborts split: kget.splits)

lemma poll_core_results:
  assumes "poll_core e an now s (c, ps) = (st', trs)" "t \<in> set trs"
  shows "tr_Regression t \<in> set (an (tr_Event t)) \<and> pr_Status (tr_Regression t) = StatusDetected \<and>
    tr_Event t \<in> pe_ev ` set ps \<union> set (drop c (st_events s))"
proof -
  have "trs = concat (map (news an) (fold (pending_Add e) (drop c (st_events s)) ps))"
    using assms(1) by (auto simp: poll_core_def tick_with_eq store_DrainSince_def split: prod.splits if_splits)
  with assms(2) obtain pe where "pe \<in> set (fold (pending_Add e) (drop c (st_events s)) ps)" "t \<in> set (news an pe)" by auto
  with news_props(1) [of an pe] show ?thesis unfolding set_pending_Adds by force
qed

section \<open>Reachable managers\<close>

text \<open>Every way the manager's state changes: the three reconcilers, a webhook request, a step of either
  poll loop of a runtime (stopped ones included, as a last tick may still be taken), and scrapes. A step is labelled with
  what it hands to alerting: the address of the runtime and the result of its tick.\<close>

inductive manager_step :: "manager \<Rightarrow> (addr \<times> tick_result) list \<Rightarrow> manager \<Rightarrow> bool" where
  watch: "watch_Reconcile w cfg update now got key cache m = (r, cache', m') \<Longrightarrow> manager_step m [] m'"
| source: "deploysource_Reconcile upd now sgot key m = (rs, m') \<Longrightarrow> manager_step m [] m'"
| workload: "workload_Reconcile clock listed gotD gotS key m = (rw, m') \<Longrightarrow> manager_step m [] m'"
| request: "mux_ServeHTTP d nows path req m = (resp, m') \<Longrightarrow> manager_step m [] m'"
| poll: "a < length (mg_heap m) \<Longrightarrow>
    manager_step m (map (Pair a) (runtime_results (w, le, key, eclock, ef) (at_addr m a)))
      (update_runtime a (runtime_tick_state (w, le, key, eclock, ef)) m)"
| job: "a < length (mg_heap m) \<Longrightarrow> y \<noteq> RtCancel \<Longrightarrow> manager_step m [] (update_runtime a (runtime_job_state y) m)"

inductive manager_reach :: "manager \<Rightarrow> bool" where
  start: "manager_reach new_manager"
| step: "manager_reach m \<Longrightarrow> manager_step m new m' \<Longrightarrow> manager_reach m'"

lemma delete_registry:
  assumes "distinct (map fst r)" "distinct (map snd r)" "map_of r key = Some a"
  shows "snd ` set (AList.delete key r) = snd ` set r - {a}"
proof
  have a: "(key, a) \<in> set r" using assms(3) by (rule map_of_SomeD)
  show "snd ` set (AList.delete key r) \<subseteq> snd ` set r - {a}"
  proof
    fix b assume "b \<in> snd ` set (AList.delete key r)"
    then obtain k where k: "(k, b) \<in> set r" "k \<noteq> key" by (auto simp: AList.delete_eq)
    with a have "b \<noteq> a" using assms(2) by (metis eq_key_imp_eq_value distinct_map inj_on_eq_iff prod.inject snd_conv)
    with k show "b \<in> snd ` set r - {a}" by force
  qed
  show "snd ` set r - {a} \<subseteq> snd ` set (AList.delete key r)"
  proof
    fix b assume "b \<in> snd ` set r - {a}"
    then obtain k where "(k, b) \<in> set r" "b \<noteq> a" by auto
    moreover from this have "k \<noteq> key" using a assms(1) by (metis eq_key_imp_eq_value)
    ultimately show "b \<in> snd ` set (AList.delete key r)" by (force simp: AList.delete_eq)
  qed
qed

lemma stopWatch_inv:
  assumes "manager_inv m"
  shows "manager_inv (stopWatch key m)" "registry_Get key (stopWatch key m) = None" "length (mg_heap (stopWatch key m)) = length (mg_heap m)"
proof -
  show "registry_Get key (stopWatch key m) = None" "length (mg_heap (stopWatch key m)) = length (mg_heap m)"
    by (auto simp: stopWatch_def registry_Get_def registry_Delete_def update_runtime_def map_of_delete split: option.splits)
  show "manager_inv (stopWatch key m)"
  proof (cases "registry_Get key m")
    case (Some a)
    let ?r = "AList.delete key (mg_registry m)"
    note inv = assms [unfolded manager_inv_def]
    have a: "a < length (mg_heap m)" by (rule registry_Get_bound [OF assms Some])
    have del: "snd ` set ?r = snd ` set (mg_registry m) - {a}"
      using inv Some by (intro delete_registry) (auto simp: registry_Get_def)
    have ok: "runtime_ok (rt\<lparr>rt_cancelled := True\<rparr>) = runtime_ok rt" for rt by (simp add: runtime_ok_def)
    have "distinct (map fst ?r)" "distinct (map snd ?r)"
      using inv by (auto simp: AList.delete_eq distinct_map_filter)
    then show ?thesis using inv a del Some
      unfolding manager_inv_def stopWatch_def by (auto simp: registry_Delete_def update_runtime_def nth_list_update ok simp del: set_map)
  qed (simp add: stopWatch_def assms)
qed

lemma update_absent: "map_of r key = None \<Longrightarrow> AList.update key a r = r @ [(key, a)]"
  by (induction r) (auto split: if_splits)

lemma start_inv:
  assumes "manager_inv m" "registry_Get key m = None" "runtime_ok rt" "\<not> rt_cancelled rt"
  shows "manager_inv (registry_Set key (length (mg_heap m)) (m\<lparr>mg_heap := mg_heap m @ [rt]\<rparr>))"
proof -
  note inv = assms(1) [unfolded manager_inv_def]
  have r: "AList.update key (length (mg_heap m)) (mg_registry m) = mg_registry m @ [(key, length (mg_heap m))]"
    using assms(2) by (intro update_absent) (simp add: registry_Get_def)
  have "key \<notin> fst ` set (mg_registry m)" using assms(2) by (simp add: registry_Get_def map_of_eq_None_iff)
  moreover have new: "length (mg_heap m) \<notin> snd ` set (mg_registry m)" using inv by fastforce
  ultimately have d: "distinct (map fst (mg_registry m @ [(key, length (mg_heap m))]))" "distinct (map snd (mg_registry m @ [(key, length (mg_heap m))]))"
    using inv by simp_all
  have "runtime_ok ((mg_heap m @ [rt]) ! a) \<and>
      (\<not> rt_cancelled ((mg_heap m @ [rt]) ! a) \<longleftrightarrow> a \<in> snd ` set (mg_registry m @ [(key, length (mg_heap m))]))"
    if "a < length (mg_heap m @ [rt])" for a
    using that inv assms(3,4) new by (cases "a = length (mg_heap m)") (auto simp: nth_append)
  moreover have "\<forall>(p, src, a)\<in>set (mg_routes m). a < length (mg_heap m @ [rt])" using inv by fastforce
  moreover have "\<forall>a\<in>snd ` set (mg_registry m @ [(key, length (mg_heap m))]). a < length (mg_heap m @ [rt])" using inv by fastforce
  ultimately show ?thesis using d unfolding manager_inv_def registry_Set_def by (simp add: r)
qed

lemma startWatch_fresh: "startWatch w cfg watch dsn h = Inr rt \<Longrightarrow> runtime_ok rt \<and> \<not> rt_cancelled rt \<and> rt_SpecHash rt = h"
  by (auto simp: startWatch_def watch_source_def runtime_ok_def Let_def store_inv_new split: if_splits sum.splits option.splits)

text \<open>The outcomes of \<open>Reconcile\<close> on an existing watch.\<close>

lemma watch_Reconcile_cases:
  assumes "watch_Reconcile w cfg update now (Found watch) key cache m = (r, cache', m')"
  obtains (no_dsn) err where "watch_dsn w cfg now watch cache = (Inl err, cache')" "r = markFailed update now err watch" "m' = m"
  | (current) dsn a where "watch_dsn w cfg now watch cache = (Inr dsn, cache')" "registry_Get key m = Some a"
      "rt_SpecHash (at_addr m a) = hashPostgresWatchSpec (wd_HashSpec w) (pw_Spec watch) dsn"
      "r = refreshStatus update w now (at_addr m a) watch" "m' = m"
  | (failed) dsn err where "watch_dsn w cfg now watch cache = (Inr dsn, cache')"
      "r = markFailed update now err watch" "m' = stopWatch key m"
  | (started) dsn rt where "watch_dsn w cfg now watch cache = (Inr dsn, cache')"
      "registry_Get key m = None \<or> (\<exists>a. registry_Get key m = Some a \<and> rt_SpecHash (at_addr m a) \<noteq> hashPostgresWatchSpec (wd_HashSpec w) (pw_Spec watch) dsn)"
      "startWatch w cfg watch dsn (hashPostgresWatchSpec (wd_HashSpec w) (pw_Spec watch) dsn) = Inr rt"
      "r = status_update_result update (started_status now watch) (RequeueAfter statusRefreshInterval)"
      "m' = registry_Set key (length (mg_heap (stopWatch key m))) ((stopWatch key m)\<lparr>mg_heap := mg_heap (stopWatch key m) @ [rt]\<rparr>)"
proof -
  obtain d c where dsn: "watch_dsn w cfg now watch cache = (d, c)" by (metis prod.exhaust)
  show thesis
  proof (cases d)
    case (Inl err)
    then show thesis using assms dsn by (intro no_dsn [of err]) (simp_all add: watch_Reconcile_def)
  next
    case (Inr dn)
    let ?h = "hashPostgresWatchSpec (wd_HashSpec w) (pw_Spec watch) dn"
    let ?old = "registry_Get key m = None \<or> (\<exists>a. registry_Get key m = Some a \<and> rt_SpecHash (at_addr m a) \<noteq> ?h)"
    consider (cur) a where "registry_Get key m = Some a" "rt_SpecHash (at_addr m a) = ?h" | (old) ?old
      by (cases "registry_Get key m") auto
    then show thesis
    proof cases
      case cur
      then show thesis using assms dsn Inr by (intro current [of dn a]) (auto simp: watch_Reconcile_def)
    next
      case old
      then have none: "(case registry_Get key m of None \<Rightarrow> None | Some a \<Rightarrow> if rt_SpecHash (at_addr m a) = ?h then Some a else None) = None"
        by auto
      show thesis
      proof (cases "startWatch w cfg watch dn ?h")
        case (Inl err)
        then show thesis using assms dsn Inr none by (intro failed [of dn err]) (simp_all add: watch_Reconcile_def)
      next
        case st: (Inr rt)
        then show thesis using assms dsn Inr none old
          by (intro started [of dn rt]) (simp_all add: watch_Reconcile_def alloc_runtime_def Let_def)
      qed
    qed
  qed
qed

lemma watch_Reconcile_inv:
  assumes "manager_inv m" "watch_Reconcile w cfg update now got key cache m = (r, cache', m')"
  shows "manager_inv m'"
proof (cases got)
  case (Found watch)
  from assms(2) [unfolded Found] show ?thesis
  proof (cases rule: watch_Reconcile_cases)
    case (started dsn rt)
    then show ?thesis using start_inv [OF stopWatch_inv(1,2) [OF assms(1)], of rt key] startWatch_fresh by simp
  qed (use assms(1) stopWatch_inv in simp_all)
qed (use assms stopWatch_inv in \<open>auto simp: watch_Reconcile_def\<close>)

lemma runtime_tick_frame:
  "runtime_ok (runtime_tick_state x rt) = runtime_ok rt \<and> rt_cancelled (runtime_tick_state x rt) = rt_cancelled rt"
  by (cases x) (auto simp: runtime_tick_state_def pollLoop_step_def runtime_ok_def Let_def split: prod.splits)

lemma runtime_job_frame:
  "y \<noteq> RtCancel \<Longrightarrow> runtime_ok (runtime_job_state y rt) = runtime_ok rt \<and> rt_cancelled (runtime_job_state y rt) = rt_cancelled rt"
  by (cases y) (auto simp: periodicPollLoop_step_def runtime_ok_def Let_def split: prod.splits)

lemma manager_step_inv: "manager_step m new m' \<Longrightarrow> manager_inv m \<Longrightarrow> manager_inv m'"
proof (induction rule: manager_step.induct)
  case (watch w cfg update now got key cache m r cache' m')
  then show ?case by (simp add: watch_Reconcile_inv)
next
  case (source upd now sgot key m rs m')
  then show ?case using deploysource_Reconcile_inv by (metis snd_conv)
next
  case (workload clock listed gotD gotS key m rw m')
  then show ?case using workload_Reconcile_inv by (metis snd_conv)
next
  case (request d nows path req m resp m')
  then show ?case using mux_ServeHTTP_inv by (metis snd_conv)
next
  case (poll a m w le key eclock ef)
  then show ?case using runtime_tick_frame by (intro manager_inv_update) simp_all
next
  case (job a m y)
  then show ?case using runtime_job_frame by (intro manager_inv_update) simp_all
qed

lemma manager_reach_inv: "manager_reach m \<Longrightarrow> manager_inv m"
  by (induction rule: manager_reach.induct) (use manager_inv_new manager_step_inv in blast)+

lemma markFailed_not_requeued: "markFailed update now err watch \<noteq> (RequeueAfter d, obj)"
  by (simp add: markFailed_def status_update_result_def Let_def split: option.splits)

section \<open>Properties\<close>

text \<open>C9: In every state the manager can reach, through any interleaving of reconciliations, webhook requests,
  poll ticks and scrapes, the live workers are exactly the registered ones, each watch has its own,
  every event store is well formed, and a worker that captures plans has a collector.\<close>

theorem manager_workers_invariant: "manager_reach m \<Longrightarrow> manager_inv m"
  by (rule manager_reach_inv)

text \<open>C25: A change of a watch's spec strands its webhook routes. The reconciler replaces the runtime, but the
  route keeps the store of the stopped one: whatever request is served on it afterwards, the worker
  that runs now never sees it.\<close>

theorem stale_webhook_route:
  assumes "manager_inv m" "registry_Get key m = Some a" "map_of (mg_routes m) path = Some (src, a)"
    and "watch_dsn w cfg now watch cache = (Inr dsn, cache')"
    and "rt_SpecHash (at_addr m a) \<noteq> hashPostgresWatchSpec (wd_HashSpec w) (pw_Spec watch) dsn"
    and "watch_Reconcile w cfg update now (Found watch) key cache m = ((RequeueAfter d, obj), cache', m')"
  shows "\<exists>b. registry_Get key m' = Some b \<and> rt_cancelled (at_addr m' a) \<and> \<not> rt_cancelled (at_addr m' b) \<and>
     map_of (mg_routes m') path = Some (src, a) \<and>
     (\<forall>dec nows req. at_addr (snd (mux_ServeHTTP dec nows path req m')) b = at_addr m' b)"
proof -
  have inv': "manager_inv m'" by (rule watch_Reconcile_inv [OF assms(1,6)])
  have a: "a < length (mg_heap m)" by (rule registry_Get_bound [OF assms(1,2)])
  obtain rt where st: "startWatch w cfg watch dsn (hashPostgresWatchSpec (wd_HashSpec w) (pw_Spec watch) dsn) = Inr rt"
    and m': "m' = registry_Set key (length (mg_heap (stopWatch key m))) ((stopWatch key m)\<lparr>mg_heap := mg_heap (stopWatch key m) @ [rt]\<rparr>)"
    using watch_Reconcile_cases [OF assms(6)] assms(2,4,5)
    by (smt (verit) markFailed_not_requeued prod.inject sum.inject(2) option.inject)
  let ?b = "length (mg_heap m)"
  have len: "length (mg_heap (stopWatch key m)) = ?b" by (rule stopWatch_inv(3) [OF assms(1)])
  have b: "registry_Get key m' = Some ?b" by (simp add: m' registry_Set_def registry_Get_def map_of_update len)
  have "at_addr m' ?b = rt" by (simp add: m' registry_Set_def at_addr_def len nth_append)
  then have live: "\<not> rt_cancelled (at_addr m' ?b)" using startWatch_fresh [OF st] by simp
  have old: "rt_cancelled (at_addr m' a)"
    using a assms(2) len by (simp add: m' registry_Set_def at_addr_def nth_append)
       (simp add: stopWatch_def registry_Delete_def update_runtime_def)
  have route: "map_of (mg_routes m') path = Some (src, a)"
    using assms(2,3) by (simp add: m' registry_Set_def stopWatch_def registry_Delete_def)
  have "at_addr (snd (mux_ServeHTTP dec nows path req m')) ?b = at_addr m' ?b" for dec nows req
    using a registry_Get_bound [OF inv' b] by (auto simp: mux_ServeHTTP_def route at_addr_update split: prod.splits)
  with b live old route show ?thesis by blast
qed

text \<open>C12: The manager aborts a rollout only through the gate, and aborts the right one. The aborts of a tick are exactly those of
  the rollouts, by namespace and application, of the reported results for which auto-abort is on, the confidence reaches the watch's
  threshold, and the event's source in the watch's own namespace is an Argo Rollouts source: one per result, in
  their order. Every reported result is a detected regression of an event that was pending or newly stored.\<close>

theorem auto_abort_gated:
  "ef_aborts (snd (pollLoop_step w le key clock rt ef)) = ef_aborts ef @
     map (\<lambda>t. (ev_Namespace (tr_Event t), ev_App (tr_Event t))) (filter (abort_gate (le_api le) key rt) (runtime_results (w, le, key, clock, ef) rt)) \<and>
   (\<forall>t\<in>set (runtime_results (w, le, key, clock, ef) rt).
      tr_Event t \<in> pe_ev ` set (rt_pending rt) \<union> set (drop (rt_cursor rt) (st_events (rt_Store rt))) \<and>
      tr_Regression t \<in> set (analyse (runtime_engine w (le_now le) rt) (clock (tr_Event t)) (tr_Event t)) \<and>
      pr_Status (tr_Regression t) = StatusDetected)"
proof -
  let ?e = "runtime_engine w (le_now le) rt"
  obtain st trs where core: "poll_core ?e (\<lambda>ev. analyse ?e (clock ev) ev) (le_now le) (rt_Store rt) (rt_cursor rt, rt_pending rt) = (st, trs)"
    by (metis prod.exhaust)
  then have trs: "runtime_results (w, le, key, clock, ef) rt = trs" by (simp add: runtime_results_def tick_engine_def tick_analysis_def)
  have "ef_aborts (snd (pollLoop_step w le key clock rt ef)) = ef_aborts ef @ concat (map (result_aborts le key rt) trs)"
    using core fold_poll_result_aborts [of le key rt trs "(rt_Notifier rt, ef)"]
    by (auto simp: pollLoop_step_def Let_def split: prod.splits)
  moreover have "concat (map (result_aborts le key rt) trs) =
      map (\<lambda>t. (ev_Namespace (tr_Event t), ev_App (tr_Event t))) (filter (abort_gate (le_api le) key rt) trs)"
    by (induction trs) (simp_all add: result_aborts_gate)
  ultimately show ?thesis using poll_core_results [OF core] unfolding trs by auto
qed

text \<open>C29: The name of a regression object is always one that the API server accepts, whatever the deploy
  event's id is: not empty, at most 253 bytes, only lower-case letters, digits and dashes, no dash at
  either end.\<close>

theorem regression_name_valid:
  assumes "- (2 ^ 63) \<le> q" "q < 2 ^ 63"
  shows "dns_name (regressionResourceName t ev q)"
  using assms by (rule regression_name_dns)

text \<open>Recording a regression again changes nothing: after a recording that succeeded, a second one of
  the same result at any later time succeeds and leaves all objects as they are.\<close>

theorem record_regression_idempotent:
  assumes "recordRegression ap now key res regs = (None, regs')"
  shows "recordRegression ap now' key res regs' = (None, regs')"
proof -
  from recordRegression_Ok [OF assms] obtain name obj where
    name: "name = \<lparr>nn_Namespace = nn_Namespace key, nn_Name = regressionResourceName (pr_TriggerType res) (pr_DeployEventID res) (pr_QueryID res)\<rparr>"
    and regs': "regs' = AList.update name (applyRegressionStatus now res obj) regs"
    and ok: "api_get_fault ap name = None" "api_status_fault ap name = None" by blast
  have "map_of regs' name = Some (applyRegressionStatus now res obj)" by (simp add: regs' map_of_update)
  then show ?thesis using ok
    by (simp add: recordRegression_def Let_def name [symmetric] applyRegressionStatus_again alist_update_again)
qed

text \<open>C40: A watch that recovers from a transient failure to resolve its DSN is reported as running and not
  ready at once: the failure leaves the worker alive, and the next reconciliation finds it current and
  refreshes the phase only, so the error message and the Ready=False condition stay.\<close>

theorem recovered_watch_not_ready:
  assumes "watch_Reconcile w cfg (\<lambda>u. None) now (Found watch) key cache m = ((ReconcileError err, Some failed), cache1, m)"
    and "watch_dsn w cfg now watch cache = (Inl err, cache1)"
    and "watch_dsn w' cfg now' failed cache1 = (Inr dsn, cache2)" "registry_Get key m = Some a"
    and "rt_SpecHash (at_addr m a) = hashPostgresWatchSpec (wd_HashSpec w') (pw_Spec failed) dsn"
    and "watch_Reconcile w' cfg (\<lambda>u. None) now' (Found failed) key cache1 m = ((r, Some recovered), cache2, m2)"
  shows "wst_Phase (pw_Status recovered) = Some PhaseRunning \<and> wst_Message (pw_Status recovered) = err \<and>
    (\<exists>c\<in>set (wst_Conditions (pw_Status recovered)). co_Type c = ''Ready'' \<and> co_Status c = ''False'') \<and> m2 = m"
proof -
  have failed: "failed = the (snd (markFailed (\<lambda>u. None) now err watch))"
    using assms(1,2) by (auto simp: watch_Reconcile_def)
  have rec: "(r, Some recovered) = refreshStatus (\<lambda>u. None) w' now' (at_addr m a) failed \<and> m2 = m"
    using assms(3-6) by (auto simp: watch_Reconcile_def)
  have set: "\<exists>c\<in>set (setCondition now cond cs). co_Type c = co_Type cond \<and> co_Status c = co_Status cond" for now cond cs
    by (induction now cond cs rule: setCondition.induct) auto
  have "wst_Message (pw_Status failed) = err"
    "\<exists>c\<in>set (wst_Conditions (pw_Status failed)). co_Type c = ''Ready'' \<and> co_Status c = ''False''"
    using set [of now "ready_condition ''False'' ''WorkerStartFailed'' err (pw_Generation watch)"]
    by (simp_all add: failed markFailed_def status_update_result_def Let_def ready_condition_def)
  moreover have "wst_Message (pw_Status recovered) = wst_Message (pw_Status failed) \<and>
      wst_Conditions (pw_Status recovered) = wst_Conditions (pw_Status failed) \<and> wst_Phase (pw_Status recovered) = Some PhaseRunning"
    using rec by (auto simp: refreshStatus_def status_update_result_def Let_def split: option.splits if_splits)
  ultimately show ?thesis using rec by simp
qed

section \<open>Witnesses\<close>

definition sample_world :: world where
  "sample_world = \<lparr>wd_Open = (\<lambda>d. None), wd_ParseURL = (\<lambda>u. Inl ''bad''), wd_ParseTemplate = no_template, wd_ParseFloat = (\<lambda>s. None),
     wd_HashSpec = (\<lambda>sp. wsp_ClusterName sp @ wsp_DSN sp), wd_Lib = sample_lib, wd_Hub = sample_hub,
     wd_PromHTTP = (\<lambda>u. PromSendError []), wd_PromDecode = (\<lambda>b. Inl [])\<rparr>"

definition sample_rcfg :: reconciler_cfg where
  "sample_rcfg = \<lparr>rcf_AllowedAlertDestinations = [], rcf_AlertingDestinationPolicy = [], rcf_RelayURL = [],
     rcf_SecurityProfile = SecurityProfileControlled, rcf_HasAborter = True\<rparr>"

definition direct_watch :: "string \<Rightarrow> postgres_watch" where
  "direct_watch cluster = sample_watch (sample_spec\<lparr>wsp_DSN := ''postgres://y'', wsp_ClusterName := cluster\<rparr>)"

definition direct_runtime :: "string \<Rightarrow> watch_runtime" where
  "direct_runtime cluster = (case startWatch sample_world sample_rcfg (direct_watch cluster) ''postgres://y'' (cluster @ ''postgres://y'') of
     Inr rt \<Rightarrow> rt | Inl err \<Rightarrow> sample_runtime)"

lemma direct_start:
  "startWatch sample_world sample_rcfg (direct_watch cluster) ''postgres://y'' (cluster @ ''postgres://y'') = Inr (direct_runtime cluster)"
  by (simp add: direct_runtime_def startWatch_def watch_source_def usesPrometheusSampleSource_def watch_alert_config_def buildNotifier_def
      resolveDestinationURL_def relay_only_policy_def allowlist_policy_def permissive_policy_def Let_def
      direct_watch_def sample_watch_def sample_spec_def sample_world_def sample_rcfg_def)

lemma direct_dsn: "watch_dsn sample_world sample_rcfg now (direct_watch cluster) cache = (Inr ''postgres://y'', cache)"
  by (simp add: watch_dsn_def usesPrometheusSampleSource_def resolveDSN_def direct_watch_def sample_watch_def sample_spec_def)

lemma direct_hash: "hashPostgresWatchSpec (wd_HashSpec sample_world) (pw_Spec (direct_watch cluster)) ''postgres://y'' = cluster @ ''postgres://y''"
  by (simp add: hashPostgresWatchSpec_def sample_world_def direct_watch_def sample_watch_def)

definition reconciled :: "string \<Rightarrow> manager \<Rightarrow> manager" where
  "reconciled cluster m = snd (snd (watch_Reconcile sample_world sample_rcfg (\<lambda>u. None) 5 (Found (direct_watch cluster)) (in_ns ''w'') [] m))"

lemma reconcile_starts:
  assumes "case registry_Get (in_ns ''w'') m of None \<Rightarrow> True | Some a \<Rightarrow> rt_SpecHash (at_addr m a) \<noteq> cluster @ ''postgres://y''"
  shows "watch_Reconcile sample_world sample_rcfg (\<lambda>u. None) 5 (Found (direct_watch cluster)) (in_ns ''w'') [] m =
    ((RequeueAfter statusRefreshInterval, Some (started_status 5 (direct_watch cluster))), [], reconciled cluster m)"
  and "reconciled cluster m = registry_Set (in_ns ''w'') (length (mg_heap (stopWatch (in_ns ''w'') m)))
     ((stopWatch (in_ns ''w'') m)\<lparr>mg_heap := mg_heap (stopWatch (in_ns ''w'') m) @ [direct_runtime cluster]\<rparr>)"
  using assms
  by (auto simp: reconciled_def watch_Reconcile_def direct_dsn direct_hash direct_start alloc_runtime_def status_update_result_def Let_def split: option.splits)

definition first_manager :: manager where "first_manager = reconciled ''c'' new_manager"

lemma first_manager_eq: "first_manager = \<lparr>mg_heap = [direct_runtime ''c''], mg_registry = [(in_ns ''w'', 0)], mg_routes = [], mg_lastRevision = []\<rparr>"
  using reconcile_starts(2) [of new_manager "''c''"]
  by (simp add: first_manager_def new_manager_def registry_Get_def stopWatch_def registry_Set_def)

lemma first_manager_reach: "manager_reach first_manager"
  using manager_reach.step [OF manager_reach.start manager_step.watch, OF reconcile_starts(1) [of new_manager "''c''"]]
  by (simp add: first_manager_def new_manager_def registry_Get_def)

theorem manager_workers_invariant_witness: "manager_inv first_manager \<and> registry_Len first_manager = 1"
  using manager_workers_invariant [OF first_manager_reach] by (simp add: first_manager_eq registry_Len_def)

definition routed_manager :: manager where
  "routed_manager = snd (deploysource_Reconcile (\<lambda>u. None) 6 (Found (sample_ds ''generic'')) (in_ns ''src'') first_manager)"

lemma routed_manager_eq: "routed_manager = first_manager\<lparr>mg_routes := [(''/webhook/ns/src'', route_source (in_ns ''src'') (so_Spec (sample_ds ''generic'')) ''generic'', 0)]\<rparr>"
  by (simp add: routed_manager_def deploysource_Reconcile_def registry_Get_def first_manager_eq mux_Register_def webhookPath_def Let_def sample_ds_def in_ns_def)

theorem stale_webhook_route_witness:
  "\<exists>b. registry_Get (in_ns ''w'') (reconciled ''d'' routed_manager) = Some b \<and> rt_cancelled (at_addr (reconciled ''d'' routed_manager) 0) \<and>
     \<not> rt_cancelled (at_addr (reconciled ''d'' routed_manager) b)"
proof -
  have h: "rt_SpecHash (at_addr routed_manager 0) = ''cpostgres://y''" "registry_Get (in_ns ''w'') routed_manager = Some 0"
    "map_of (mg_routes routed_manager) ''/webhook/ns/src'' = Some (route_source (in_ns ''src'') (so_Spec (sample_ds ''generic'')) ''generic'', 0)"
    using startWatch_fresh [OF direct_start, of "''c''"] by (simp_all add: routed_manager_eq first_manager_eq at_addr_def registry_Get_def)
  have "manager_inv routed_manager"
    unfolding routed_manager_def by (rule deploysource_Reconcile_inv [OF manager_reach_inv [OF first_manager_reach]])
  from stale_webhook_route [OF this h(2,3) direct_dsn _ reconcile_starts(1), of "''d''"] show ?thesis
    using h by (auto simp: direct_hash)
qed

theorem regression_name_valid_witness: "dns_name (regressionResourceName TriggerTypeDeploy ''ArgoCD/App #1'' (- 5))"
  by (rule regression_name_valid) simp_all

definition quiet_api :: api where
  "quiet_api = \<lparr>api_watch = (\<lambda>k. Found (direct_watch ''c'')), api_source = (\<lambda>k. NotFound ''none''), api_get_fault = (\<lambda>k. None),
     api_owner_fault = (\<lambda>k. None), api_create_fault = (\<lambda>k. None), api_status_fault = (\<lambda>k. None)\<rparr>"

theorem record_regression_idempotent_witness:
  "recordRegression quiet_api 9 (in_ns ''w'') (hd (detected_now (sample_event ''e'' 0)))
     (snd (recordRegression quiet_api 5 (in_ns ''w'') (hd (detected_now (sample_event ''e'' 0))) [])) =
   (None, snd (recordRegression quiet_api 5 (in_ns ''w'') (hd (detected_now (sample_event ''e'' 0))) []))"
proof -
  have "fst (recordRegression quiet_api 5 (in_ns ''w'') r []) = None" for r
    by (simp add: recordRegression_def owned_object_def quiet_api_def Let_def)
  then have "recordRegression quiet_api 5 (in_ns ''w'') r [] = (None, snd (recordRegression quiet_api 5 (in_ns ''w'') r []))" for r
    by (simp add: prod_eq_iff)
  then show ?thesis by (rule record_regression_idempotent)
qed

definition failing_world :: world where
  "failing_world = sample_world\<lparr>wd_Hub := sample_hub\<lparr>hub_secret := (\<lambda>k. GetError ''down'')\<rparr>\<rparr>"

definition secret_watch :: postgres_watch where "secret_watch = sample_watch sample_spec"

definition failed_watch :: postgres_watch where
  "failed_watch = the (snd (markFailed (\<lambda>u. None) 5 ''fetch dsn secret ns/db: down'' secret_watch))"

definition running_manager :: manager where
  "running_manager = sample_manager\<lparr>mg_heap := [sample_runtime\<lparr>rt_SpecHash := ''cpostgres://x''\<rparr>]\<rparr>"

lemmas sample_dsn_defs = watch_dsn_def usesPrometheusSampleSource_def resolveDSN_def dsnSecretClient_def dsnSecretNamespace_def kget_error_def
  nn_String_def checkSecretConsent_def labelled_secret_def secret_watch_def sample_watch_def sample_spec_def sample_world_def sample_hub_def
  sample_rcfg_def secretConsentValue_def

lemma failing_dsn: "watch_dsn failing_world sample_rcfg 5 secret_watch [] = (Inl ''fetch dsn secret ns/db: down'', [])"
  by (simp add: sample_dsn_defs failing_world_def)

lemma recovering_dsn: "watch_dsn sample_world sample_rcfg 9 failed_watch [] = (Inr ''postgres://x'', [])"
  by (simp add: sample_dsn_defs failed_watch_def markFailed_def status_update_result_def Let_def)

theorem recovered_watch_not_ready_witness:
  "wst_Message (pw_Status (the (snd (refreshStatus (\<lambda>u. None) sample_world 9 (at_addr running_manager 0) failed_watch)))) =
     ''fetch dsn secret ns/db: down''"
proof -
  let ?rec = "the (snd (refreshStatus (\<lambda>u. None) sample_world 9 (at_addr running_manager 0) failed_watch))"
  have a: "watch_Reconcile failing_world sample_rcfg (\<lambda>u. None) 5 (Found secret_watch) (in_ns ''w'') [] running_manager =
      ((ReconcileError ''fetch dsn secret ns/db: down'', Some failed_watch), [], running_manager)"
    by (simp add: watch_Reconcile_def failing_dsn failed_watch_def markFailed_def status_update_result_def Let_def)
  have h: "rt_SpecHash (at_addr running_manager 0) = hashPostgresWatchSpec (wd_HashSpec sample_world) (pw_Spec failed_watch) ''postgres://x''"
    by code_simp
  have g: "registry_Get (in_ns ''w'') running_manager = Some 0" by code_simp
  have "watch_Reconcile sample_world sample_rcfg (\<lambda>u. None) 9 (Found failed_watch) (in_ns ''w'') [] running_manager =
      ((RequeueAfter statusRefreshInterval, Some ?rec), [], running_manager)"
    by (simp add: watch_Reconcile_def recovering_dsn g h refreshStatus_def status_update_result_def Let_def)
  from recovered_watch_not_ready [OF a failing_dsn recovering_dsn g h this] show ?thesis by blast
qed

end
