(* ===== verification/Operator.thy ===== *)
theory Operator
  imports Poll_Loop Alerting
begin

text \<open>
  The all-in-one operator (\<open>internal/cli/operator.go\<close>, with \<open>dsn.go\<close> and \<open>flags.go\<close>): validation of
  the flags, the dry run, the start with its backfill, and one iteration of each of its loops: the
  mirror of samples into the durable store, the poll loop and the periodic loop. Flags arrive parsed.
  The durable Postgres store is outside: what it answers is an argument, what is written to it is an
  effect. A goroutine that would panic makes the outcome \<open>OpPanic\<close>.
\<close>

section \<open>Connection strings\<close>

text \<open>What \<open>url.Parse\<close> returns of a URI: scheme, opaque part, user name (if there is userinfo), host, and the query parameter
  \<open>host\<close>.\<close>

record pg_url =
  pu_Scheme :: string
  pu_Opaque :: string
  pu_User :: "string option"
  pu_Host :: string
  pu_HostParam :: string

record dsn_lib =
  dl_Parse :: "string \<Rightarrow> string + pg_url"
  dl_NewConnector :: "string \<Rightarrow> string option"

definition dsn_ident_start :: "char \<Rightarrow> bool" where "dsn_ident_start c \<longleftrightarrow> is_lower c \<or> is_upper c \<or> c = CHR ''_''"

definition keyValueDSN :: "string \<Rightarrow> bool" where
  "keyValueDSN s =
     (case dropWhile re_space s of
        [] \<Rightarrow> False
      | c # cs \<Rightarrow> dsn_ident_start c \<and>
          (case dropWhile (\<lambda>d. dsn_ident_start d \<or> is_digit d) cs of [] \<Rightarrow> False | d # ds \<Rightarrow> d = CHR ''=''))"

definition validatePostgresURI :: "dsn_lib \<Rightarrow> string \<Rightarrow> string option" where
  "validatePostgresURI lib dsn =
     (case dl_Parse lib dsn of
        Inl err \<Rightarrow> Some (''parse Postgres URI: '' @ err)
      | Inr u \<Rightarrow>
          if to_lower (pu_Scheme u) \<noteq> ''postgres'' \<and> to_lower (pu_Scheme u) \<noteq> ''postgresql''
          then Some (''parse Postgres URI: invalid scheme '' @ go_quote (pu_Scheme u) @ '' (want postgres or postgresql)'')
          else if pu_Opaque u \<noteq> [] then Some ''parse Postgres URI: opaque URI form is not supported; use postgres://host:port/dbname''
          else if pu_User u = Some [] then Some ''parse Postgres URI: empty username in userinfo''
          else if pu_Host u = [] \<and> pu_HostParam u = [] then Some ''parse Postgres URI: missing host''
          else None)"

definition validatePostgresDSN :: "dsn_lib \<Rightarrow> string \<Rightarrow> string option" where
  "validatePostgresDSN lib raw =
     (let dsn = trim_space raw; lower = to_lower dsn
      in if dsn = [] then Some ''DSN is empty''
         else if keyValueDSN dsn then
           (case dl_NewConnector lib dsn of Some err \<Rightarrow> Some (''parse Postgres connection string: '' @ err) | None \<Rightarrow> None)
         else if str_contains dsn ''://'' \<or> has_prefix lower ''postgres:'' \<or> has_prefix lower ''postgresql:'' then validatePostgresURI lib dsn
         else if str_contains dsn ''@'' then Some ''parse Postgres DSN: userinfo requires an explicit postgres:// or postgresql:// URI''
         else validatePostgresURI lib (''postgres://'' @ dsn))"

definition splitCommaSeparatedValues :: "string \<Rightarrow> string list" where
  "splitCommaSeparatedValues raw = (if raw = [] then [] else filter (\<lambda>p. p \<noteq> []) (map trim_space (split_on CHR '','' raw)))"

section \<open>Flags and outside world\<close>

record operator_flags =
  fl_dsn :: string
  fl_clusterName :: string
  fl_namespace :: string
  fl_scrapeInterval :: duration
  fl_webhookListen :: string
  fl_metricsListen :: string
  fl_dashboardListen :: string
  fl_slackURL :: string
  fl_alertFormat :: string
  fl_alertURL :: string
  fl_alertAllowedDestinations :: string
  fl_destinationPolicy :: string
  fl_relayURL :: string
  fl_securityProfile :: string
  fl_pagerdutyRoutingKey :: string
  fl_alertTemplate :: string
  fl_alertTemplateFile :: string
  fl_sourceType :: string
  fl_webhookSecret :: string
  fl_windowMinutes :: int
  fl_minExecutions :: int
  fl_latencyThreshold :: real
  fl_changePointTolerance :: duration
  fl_maxQueryTextLen :: int
  fl_retentionMinutes :: int
  fl_capturePlans :: bool
  fl_periodicDetection :: bool
  fl_periodicWindowMinutes :: int
  fl_periodicIntervalMinutes :: int
  fl_stateBackend :: string
  fl_stateDSN :: string
  fl_stateRetention :: duration
  fl_statePruneInterval :: duration
  fl_version :: bool
  fl_dryRun :: bool

record operator_env =
  oe_dsn :: dsn_lib
  oe_ParseURL :: url_parser
  oe_ParseTemplate :: "string \<Rightarrow> string + tmpl"
  oe_ReadFile :: "string \<Rightarrow> string + string"
  oe_Open :: "string \<Rightarrow> string option"
  oe_db :: collector_db
  oe_OpenState :: "string \<Rightarrow> string option"
  oe_stateQueryIDs :: "string + queryid list"
  oe_stateSamples :: "queryid \<Rightarrow> gtime \<Rightarrow> gtime \<Rightarrow> string + query_sample list"
  oe_stateEvents :: "gtime \<Rightarrow> gtime \<Rightarrow> string + deploy_event list"
  oe_now :: gtime

record operator =
  op_collector :: collector
  op_store :: store
  op_source :: deploy_source
  op_engineCfg :: engine_config
  op_notifier :: notifier
  op_capturePlans :: bool
  op_cursor :: nat
  op_pending :: "pending_event list"
  op_tracker :: periodic_tracker
  op_durable :: bool
  op_lastSync :: gtime

datatype outcome = OpExit int | OpPanic string | OpRun operator

section \<open>Start\<close>

definition operator_alert_config :: "operator_env \<Rightarrow> operator_flags \<Rightarrow> string + build_config" where
  "operator_alert_config env fl =
     (let url = (if fl_alertURL fl = [] then fl_slackURL fl else fl_alertURL fl);
          tpl = (if fl_alertTemplate fl = [] \<and> fl_alertTemplateFile fl \<noteq> [] then oe_ReadFile env (fl_alertTemplateFile fl) else Inr (fl_alertTemplate fl))
      in case tpl of
           Inl err \<Rightarrow> Inl err
         | Inr t \<Rightarrow> Inr \<lparr>bc_Format = fl_alertFormat fl, bc_URL = url, bc_PagerDutyRoutingKey = fl_pagerdutyRoutingKey fl, bc_CustomTemplate = t,
             bc_CustomContentType = [], bc_AllowedDestinations = splitCommaSeparatedValues (fl_alertAllowedDestinations fl),
             bc_DestinationPolicy = fl_destinationPolicy fl, bc_RelayURL = fl_relayURL fl, bc_ClusterName = fl_clusterName fl, bc_Timeout = 0\<rparr>)"

definition operator_collector :: "operator_flags \<Rightarrow> collector" where
  "operator_collector fl = new_collector \<lparr>cc_ScrapeInterval = fl_scrapeInterval fl, cc_ClusterName = fl_clusterName fl, cc_Namespace = fl_namespace fl,
     cc_MaxQueryTextLen = fl_maxQueryTextLen fl, cc_RetentionDuration = dur_mul (fl_retentionMinutes fl) minute_d, cc_CapturePlans = fl_capturePlans fl\<rparr>"

text \<open>The checks that a dry run and a real run share. The result is the alert configuration.\<close>

definition operator_validate :: "operator_env \<Rightarrow> operator_flags \<Rightarrow> int + build_config" where
  "operator_validate env fl =
     (if fl_dsn fl = [] then Inl 1
      else if fl_maxQueryTextLen fl \<le> 0 then Inl 1
      else if validatePostgresDSN (oe_dsn env) (fl_dsn fl) \<noteq> None then Inl 1
      else if fl_stateBackend fl = ''postgres'' \<and> fl_stateDSN fl \<noteq> [] \<and> validatePostgresDSN (oe_dsn env) (fl_stateDSN fl) \<noteq> None then Inl 1
      else (case operator_alert_config env fl of
              Inl err \<Rightarrow> Inl 1
            | Inr cfg \<Rightarrow>
                if validateAllowedDestinations (bc_AllowedDestinations cfg) \<noteq> None then Inl 1
                else if validateDestinationPolicy (bc_DestinationPolicy cfg) (bc_RelayURL cfg) \<noteq> None then Inl 1
                else if fl_securityProfile fl \<noteq> ''controlled'' \<and> fl_securityProfile fl \<noteq> ''hardened'' then Inl 1
                else if oe_Open env (fl_dsn fl) \<noteq> None then Inl 1
                else Inr cfg))"

definition state_conn_dsn :: "operator_flags \<Rightarrow> string" where
  "state_conn_dsn fl = (if fl_stateDSN fl = [] then fl_dsn fl else fl_stateDSN fl)"

definition operator_dry_run :: "operator_env \<Rightarrow> operator_flags \<Rightarrow> build_config \<Rightarrow> int" where
  "operator_dry_run env fl cfg =
     (if fl_sourceType fl \<notin> set validSourceTypes then 1
      else (case buildNotifier (oe_ParseURL env) (oe_ParseTemplate env) cfg of
              Inl err \<Rightarrow> 1
            | Inr n \<Rightarrow>
                if fl_periodicDetection fl \<and> fl_periodicWindowMinutes fl \<le> 0 then 1
                else if fl_periodicDetection fl \<and> fl_periodicIntervalMinutes fl \<le> 0 then 1
                else if collector_Ping (oe_db env) \<noteq> None then 1
                else if fl_stateBackend fl = ''postgres'' then (if oe_OpenState env (state_conn_dsn fl) \<noteq> None then 1 else 0)
                else if fl_stateBackend fl \<noteq> [] \<and> fl_stateBackend fl \<noteq> ''memory'' then 1
                else 0))"

definition operator_engine_config :: "operator_flags \<Rightarrow> engine_config" where
  "operator_engine_config fl =
     \<lparr>ec_Namespace = fl_namespace fl, ec_WindowMinutes = fl_windowMinutes fl, ec_MinExecutions = fl_minExecutions fl,
      ec_LatencyChangeThreshold = fl_latencyThreshold fl, ec_PValueThreshold = 0, ec_PeriodicWindowMinutes = fl_periodicWindowMinutes fl,
      ec_ChangePointTolerance = fl_changePointTolerance fl\<rparr>"

definition operator_source :: "operator_flags \<Rightarrow> deploy_source" where
  "operator_source fl = \<lparr>ds_Name = ''operator-default'', ds_Namespace = [], ds_PostgresWatchRef = [], ds_SourceType = fl_sourceType fl, ds_AppName = [],
     ds_ClusterName = fl_clusterName fl, ds_WebhookSecret = fl_webhookSecret fl\<rparr>"

text \<open>The history loaded from the durable store; a query whose samples cannot be loaded is skipped. The clock
  readings during the start are one instant, \<open>oe_now\<close>.\<close>

definition backfill_samples :: "operator_env \<Rightarrow> gtime \<Rightarrow> query_sample list option" where
  "backfill_samples env since =
     (case oe_stateQueryIDs env of
        Inl err \<Rightarrow> None
      | Inr qids \<Rightarrow> Some (concat (map (\<lambda>q. case oe_stateSamples env q since (oe_now env) of Inl err \<Rightarrow> [] | Inr ss \<Rightarrow> ss) qids)))"

definition operator_backfill :: "operator_env \<Rightarrow> operator_flags \<Rightarrow> operator \<Rightarrow> operator" where
  "operator_backfill env fl op =
     (let since = time_add (oe_now env) (dur_neg (dur_mul (fl_retentionMinutes fl) minute_d));
          c = (case backfill_samples env since of None \<Rightarrow> op_collector op | Some ss \<Rightarrow> collector_Backfill (oe_now env) ss (op_collector op));
          events = (case oe_stateEvents env since (oe_now env) of Inl err \<Rightarrow> [] | Inr evs \<Rightarrow> evs);
          (s, cursor) = store_Backfill events (op_store op)
      in op\<lparr>op_collector := c, op_store := s, op_cursor := cursor, op_durable := True\<rparr>)"

definition operator_new :: "operator_env \<Rightarrow> operator_flags \<Rightarrow> notifier \<Rightarrow> operator" where
  "operator_new env fl n =
     \<lparr>op_collector = operator_collector fl, op_store = zero_store, op_source = operator_source fl, op_engineCfg = operator_engine_config fl,
      op_notifier = n, op_capturePlans = fl_capturePlans fl, op_cursor = 0, op_pending = [], op_tracker = newPeriodicTracker, op_durable = False,
      op_lastSync = oe_now env\<rparr>"

text \<open>A ticker with an interval that is not positive panics: the mirror uses the flag as given, the
  collector's own loop the interval after its default, the periodic loop its minutes.\<close>

definition start_loops :: "operator_flags \<Rightarrow> operator \<Rightarrow> outcome" where
  "start_loops fl op =
     (if op_durable op \<and> fl_scrapeInterval fl \<le> 0 then OpPanic ''non-positive interval for NewTicker''
      else if fl_periodicDetection fl \<and> dur_mul (fl_periodicIntervalMinutes fl) minute_d \<le> 0 then OpPanic ''non-positive interval for NewTicker''
      else if cc_ScrapeInterval (c_cfg (op_collector op)) \<le> 0 then OpPanic ''non-positive interval for NewTicker''
      else OpRun op)"

definition operator_start :: "operator_env \<Rightarrow> operator_flags \<Rightarrow> build_config \<Rightarrow> outcome" where
  "operator_start env fl cfg =
     (case buildNotifier (oe_ParseURL env) (oe_ParseTemplate env) cfg of
        Inl err \<Rightarrow> OpExit 1
      | Inr n \<Rightarrow>
          (let op = operator_new env fl n
           in if fl_stateBackend fl = [] \<or> fl_stateBackend fl = ''memory'' then start_loops fl op
              else if fl_stateBackend fl = ''postgres'' then
                (if oe_OpenState env (state_conn_dsn fl) \<noteq> None then OpExit 1 else start_loops fl (operator_backfill env fl op))
              else OpExit 1))"

datatype flag_result = FlagHelp | FlagInvalid | FlagsParsed operator_flags

definition runOperator :: "operator_env \<Rightarrow> flag_result \<Rightarrow> outcome" where
  "runOperator env parsed =
     (case parsed of
        FlagHelp \<Rightarrow> OpExit 0
      | FlagInvalid \<Rightarrow> OpExit 2
      | FlagsParsed fl \<Rightarrow>
          if fl_version fl then OpExit 0
          else (case operator_validate env fl of
                  Inl code \<Rightarrow> OpExit code
                | Inr cfg \<Rightarrow> if fl_dryRun fl then OpExit (operator_dry_run env fl cfg) else operator_start env fl cfg))"

section \<open>Loops\<close>

record operator_effects =
  oef_posts :: "post list"
  oef_samples :: "query_sample list"
  oef_events :: "deploy_event list"

definition operator_engine :: "operator \<Rightarrow> engine" where
  "operator_engine op = new_engine (op_engineCfg op) (collector_src (op_collector op))"

definition operator_request :: "decoders \<Rightarrow> (nat \<Rightarrow> gtime) \<Rightarrow> string \<Rightarrow> request \<Rightarrow> operator \<Rightarrow> response \<times> operator" where
  "operator_request d nows path r op =
     (if path = ''/webhook'' then
        (case handler_ServeHTTP d nows (op_source op) r (op_store op) of (rs, s) \<Rightarrow> (rs, op\<lparr>op_store := s\<rparr>))
      else if path = ''/healthz'' then (\<lparr>rs_Status = 200, rs_Body = []\<rparr>, op)
      else (http_error ''404 page not found'' 404, op))"

definition mirror_step :: "gtime \<Rightarrow> operator \<times> operator_effects \<Rightarrow> operator \<times> operator_effects" where
  "mirror_step now st =
     (case st of (op, ef) \<Rightarrow>
        (op\<lparr>op_lastSync := now\<rparr>,
         ef\<lparr>oef_samples := oef_samples ef @
           concat (map (\<lambda>q. collector_SamplesInRange q (op_lastSync op) now (op_collector op)) (collector_AllQueryIDs (op_collector op)))\<rparr>))"

definition operator_plan_diff :: "operator \<Rightarrow> performance_regression \<Rightarrow> performance_regression" where
  "operator_plan_diff op r =
     (if op_capturePlans op then
        (case plansAround (pr_QueryID r) (pr_DetectedChangeAt r) (op_collector op) of
           (before, after) \<Rightarrow> r\<lparr>pr_PlanDiffSummary := plan_diff before after\<rparr>)
      else r)"

definition operator_alert :: "(post \<Rightarrow> http_result) \<Rightarrow> operator \<Rightarrow> performance_regression \<Rightarrow> notifier \<times> post list \<Rightarrow> notifier \<times> post list" where
  "operator_alert http op r st =
     (case st of (n, posts) \<Rightarrow>
        (let r' = operator_plan_diff op r
         in case notify http r' (observeDetectedRegression r' n) of (err, n', new) \<Rightarrow> (n', posts @ new)))"

definition operator_poll_step :: "(post \<Rightarrow> http_result) \<Rightarrow> (deploy_event \<Rightarrow> nat \<Rightarrow> gtime) \<Rightarrow> gtime \<Rightarrow> operator \<times> operator_effects \<Rightarrow>
    operator \<times> operator_effects" where
  "operator_poll_step http clock now st =
     (case st of (op, ef) \<Rightarrow>
       (let e = operator_engine op;
            ((cursor', pending'), trs) = poll_core e (\<lambda>ev. analyse e (clock ev) ev) now (op_store op) (op_cursor op, op_pending op);
            (n', posts) = fold (\<lambda>tr. operator_alert http op (tr_Regression tr)) trs (op_notifier op, [])
        in (op\<lparr>op_cursor := cursor', op_pending := pending', op_notifier := n'\<rparr>,
            ef\<lparr>oef_posts := oef_posts ef @ posts,
               oef_events := oef_events ef @ (if op_durable op then fst (store_DrainSince (op_cursor op) (op_store op)) else [])\<rparr>)))"

definition operator_periodic_step :: "(post \<Rightarrow> http_result) \<Rightarrow> (nat \<Rightarrow> gtime) \<Rightarrow> gtime \<Rightarrow> operator \<times> operator_effects \<Rightarrow> operator \<times> operator_effects" where
  "operator_periodic_step http clock now st =
     (case st of (op, ef) \<Rightarrow>
       (let (p', rs) = periodic_Tick (operator_engine op) clock now (op_tracker op);
            (n', posts) = fold (operator_alert http op) rs (op_notifier op, [])
        in (op\<lparr>op_tracker := p', op_notifier := n'\<rparr>, ef\<lparr>oef_posts := oef_posts ef @ posts\<rparr>)))"

type_synonym operator_tick = "(post \<Rightarrow> http_result) \<times> (deploy_event \<Rightarrow> nat \<Rightarrow> gtime) \<times> gtime \<times> operator_effects"

definition operator_deliver :: "deploy_event \<Rightarrow> operator \<Rightarrow> operator" where
  "operator_deliver ev op = op\<lparr>op_store := store_Add ev (op_store op)\<rparr>"

definition operator_tick_state :: "operator_tick \<Rightarrow> operator \<Rightarrow> operator" where
  "operator_tick_state x op = (case x of (http, clock, now, ef) \<Rightarrow> fst (operator_poll_step http clock now (op, ef)))"

definition operator_results :: "operator_tick \<Rightarrow> operator \<Rightarrow> tick_result list" where
  "operator_results x op = (case x of (http, clock, now, ef) \<Rightarrow>
     snd (poll_core (operator_engine op) (\<lambda>ev. analyse (operator_engine op) (clock ev) ev) now (op_store op) (op_cursor op, op_pending op)))"

datatype operator_job =
    ScrapeJob json_parser "(collector_db \<times> gtime \<times> (queryid \<Rightarrow> gtime)) list"
  | MirrorJob gtime
  | PeriodicJob "post \<Rightarrow> http_result" "nat \<Rightarrow> gtime" gtime

fun operator_job_step :: "operator_job \<Rightarrow> operator \<times> operator_effects \<Rightarrow> operator \<times> operator_effects" where
  "operator_job_step (ScrapeJob parse ticks) (op, ef) = (op\<lparr>op_collector := collector_Run parse ticks (op_collector op)\<rparr>, ef)"
| "operator_job_step (MirrorJob now) st = mirror_step now st"
| "operator_job_step (PeriodicJob http clock now) st = operator_periodic_step http clock now st"

definition operator_job_state :: "operator_job \<times> operator_effects \<Rightarrow> operator \<Rightarrow> operator" where
  "operator_job_state y op = (case y of (j, ef) \<Rightarrow> fst (operator_job_step j (op, ef)))"

lemma operator_job_keeps:
  "op_store (operator_job_state y op) = op_store op" "op_cursor (operator_job_state y op) = op_cursor op"
  "op_pending (operator_job_state y op) = op_pending op"
  by (cases y; cases "fst y"; simp add: operator_job_state_def mirror_step_def operator_periodic_step_def Let_def split: prod.splits)+

interpretation operator_worker: poll_worker op_store "\<lambda>op. (op_cursor op, op_pending op)" operator_deliver operator_tick_state operator_results
  operator_job_state
  "\<lambda>x op. operator_engine op" "\<lambda>x op ev. analyse (operator_engine op) (fst (snd x) ev) ev" "\<lambda>x. fst (snd (snd x))"
  by unfold_locales
     (auto simp: operator_deliver_def operator_tick_state_def operator_results_def operator_poll_step_def operator_job_keeps
       Let_def split: prod.splits)

lemma operator_tick_cfg: "op_engineCfg (operator_tick_state x op) = op_engineCfg op"
  by (cases x) (simp add: operator_tick_state_def operator_poll_step_def Let_def split: prod.splits)

lemma operator_job_cfg: "op_engineCfg (operator_job_state y op) = op_engineCfg op"
  by (cases y; cases "fst y"; simp add: operator_job_state_def mirror_step_def operator_periodic_step_def Let_def split: prod.splits)

interpretation operator_steady: steady_worker op_store "\<lambda>op. (op_cursor op, op_pending op)" operator_deliver operator_tick_state operator_results
  operator_job_state "\<lambda>x op. operator_engine op" "\<lambda>x op ev. analyse (operator_engine op) (fst (snd x) ev) ev" "\<lambda>x. fst (snd (snd x))"
  "\<lambda>op. analysisWindow (operator_engine op)"
  by unfold_locales (simp_all add: analysisWindow_def operator_engine_def new_engine_def operator_deliver_def operator_tick_cfg operator_job_cfg)

text \<open>A request to the webhook is a delivery or leaves the operator as it is.\<close>

lemma operator_request_delivers:
  "snd (operator_request d nows path r op) = op \<or> (\<exists>ev. snd (operator_request d nows path r op) = operator_deliver ev op)"
  using handler_ServeHTTP_store [of d nows "op_source op" r "op_store op"]
  by (auto simp: operator_request_def operator_deliver_def split: prod.splits)

text \<open>The alerts of a tick are those of its results.\<close>

lemma operator_alerts:
  "oef_posts (snd (operator_poll_step http clock now (op, ef))) =
    oef_posts ef @ snd (fold (\<lambda>tr. operator_alert http op (tr_Regression tr)) (operator_results (http, clock, now, ef) op) (op_notifier op, []))"
  by (auto simp: operator_poll_step_def operator_results_def Let_def split: prod.splits)

definition fresh_worker :: "operator \<Rightarrow> bool" where
  "fresh_worker op \<longleftrightarrow> store_inv (op_store op) \<and> op_cursor op = length (st_events (op_store op)) \<and> op_pending op = []"

lemma operator_backfill_fresh: "fresh_worker op \<Longrightarrow> fresh_worker (operator_backfill env fl op)"
  using store_Backfill_inv [of "op_store op"]
  by (simp add: fresh_worker_def operator_backfill_def case_prod_unfold Let_def)

lemma operator_start_fresh:
  assumes "operator_start env fl cfg = OpRun op"
  shows "fresh_worker op"
proof -
  have "start_loops fl op' = OpRun op \<Longrightarrow> op' = op" for op' by (simp add: start_loops_def split: if_splits)
  moreover have "fresh_worker (operator_new env fl n)" for n
    using store_inv_new(2) by (simp add: fresh_worker_def operator_new_def zero_store_def)
  ultimately show ?thesis using assms operator_backfill_fresh
    by (fastforce simp: operator_start_def Let_def split: sum.splits if_splits)
qed

lemma runOperator_fresh: "runOperator env parsed = OpRun op \<Longrightarrow> fresh_worker op"
  by (auto simp: runOperator_def intro: operator_start_fresh split: flag_result.splits if_splits sum.splits)

section \<open>Start and dry run\<close>

lemma store_sample_cfg [simp]: "c_cfg (store_sample s c) = c_cfg c"
  by (simp add: store_sample_def indexFingerprintLocked_def removeFromFingerprintIndexLocked_def Let_def split: option.splits)

lemma fold_store_sample_cfg [simp]: "c_cfg (fold (\<lambda>s. store_sample (with_fingerprint s)) ss c) = c_cfg c"
  by (induction ss arbitrary: c) auto

lemma prune_before_cfg [simp]: "c_cfg (prune_before t c) = c_cfg c"
proof -
  have "c_cfg (fold (prune_query t) qs c) = c_cfg c" for qs by (induction qs arbitrary: c) auto
  then show ?thesis by (simp add: prune_before_def)
qed

lemma collector_Backfill_cfg: "c_cfg (collector_Backfill now ss c) = c_cfg c"
  by (simp add: collector_Backfill_def updateRetentionMetricsLocked_def pruneLocked_def sort_buckets_def)

lemma operator_start_run:
  assumes "buildNotifier (oe_ParseURL env) (oe_ParseTemplate env) cfg = Inr n" "0 < fl_scrapeInterval fl"
    and "fl_periodicDetection fl \<longrightarrow> 0 < dur_mul (fl_periodicIntervalMinutes fl) minute_d"
    and "fl_stateBackend fl = [] \<or> fl_stateBackend fl = ''memory'' \<or> fl_stateBackend fl = ''postgres'' \<and> oe_OpenState env (state_conn_dsn fl) = None"
  shows "\<exists>op. operator_start env fl cfg = OpRun op"
proof -
  have scrape: "0 < cc_ScrapeInterval (c_cfg (operator_collector fl))"
    using assms(2) by (simp add: operator_collector_def new_collector_def collector_defaults_def Let_def)
  have keeps: "c_cfg (collector_Backfill now ss c) = c_cfg c" for now ss c
    by (rule collector_Backfill_cfg)
  have "start_loops fl (operator_new env fl n) = OpRun (operator_new env fl n)"
    using assms(3) scrape by (auto simp: start_loops_def operator_new_def)
  moreover have "\<exists>op. start_loops fl (operator_backfill env fl (operator_new env fl n)) = OpRun op"
    using assms(2,3) scrape by (auto simp: start_loops_def operator_backfill_def operator_new_def Let_def keeps split: prod.splits option.splits)
  ultimately show ?thesis using assms(1,4) by (auto simp: operator_start_def Let_def)
qed

lemma validate_dry_run [simp]: "operator_validate env (fl\<lparr>fl_dryRun := b\<rparr>) = operator_validate env fl"
  by (cases fl) (simp only: operator_validate_def operator_alert_config_def operator_flags.select_convs operator_flags.update_convs)

lemma minutes_positive: "0 < n \<Longrightarrow> n < 2 ^ 27 \<Longrightarrow> 0 < dur_mul n minute_d"
  by (simp add: dur_mul_def minute_d_def wrap64_id)

section \<open>The mirror\<close>

definition mirrored :: "gtime \<Rightarrow> operator \<Rightarrow> query_sample list" where
  "mirrored now op = concat (map (\<lambda>q. collector_SamplesInRange q (op_lastSync op) now (op_collector op)) (collector_AllQueryIDs (op_collector op)))"

lemma mirror_step_samples: "oef_samples (snd (mirror_step now (op, ef))) = oef_samples ef @ mirrored now op"
  by (simp add: mirror_step_def mirrored_def)

lemma samples_direct: "set (filterRange (map_get [] (c_samples c) q) lo hi) \<subseteq> set (collector_SamplesInRange q lo hi c)"
  by (auto simp: collector_SamplesInRange_def Let_def split: option.splits)

lemma samples_retained:
  assumes "s \<in> set (collector_SamplesInRange q lo hi c)"
  shows "s \<in> set (collector_items c) \<and> lo \<le> qs_RecordedAt s \<and> qs_RecordedAt s \<le> hi"
proof -
  have direct: "set (filterRange (map_get [] (c_samples c) p) lo hi) \<subseteq> set (collector_items c)" for p
    by (cases "map_of (c_samples c) p") (auto simp: filterRange_def collector_items_def map_get_def dest!: map_of_SomeD)
  have "s \<in> set (collector_items c)"
    using assms direct by (auto simp: collector_SamplesInRange_def Let_def split: if_splits option.splits)
  then show ?thesis using samples_between_collector [OF assms] by simp
qed

lemma mirrored_set:
  assumes "collector_inv (op_collector op)"
  shows "set (mirrored now op) = {s \<in> set (collector_items (op_collector op)). op_lastSync op \<le> qs_RecordedAt s \<and> qs_RecordedAt s \<le> now}"
proof
  show "set (mirrored now op) \<subseteq> {s \<in> set (collector_items (op_collector op)). op_lastSync op \<le> qs_RecordedAt s \<and> qs_RecordedAt s \<le> now}"
    using samples_retained by (auto simp: mirrored_def)
  show "{s \<in> set (collector_items (op_collector op)). op_lastSync op \<le> qs_RecordedAt s \<and> qs_RecordedAt s \<le> now} \<subseteq> set (mirrored now op)"
  proof
    fix s assume s: "s \<in> {s \<in> set (collector_items (op_collector op)). op_lastSync op \<le> qs_RecordedAt s \<and> qs_RecordedAt s \<le> now}"
    then obtain q ss where q: "(q, ss) \<in> set (c_samples (op_collector op))" "s \<in> set ss" by (auto simp: collector_items_def)
    have "distinct (map fst (c_samples (op_collector op)))"
      using assms by (simp add: collector_inv_def collector_pre_def buckets_ok_def)
    then have "map_get [] (c_samples (op_collector op)) q = ss" using q(1) by (rule map_get_in)
    then have "s \<in> set (filterRange (map_get [] (c_samples (op_collector op)) q) (op_lastSync op) now)"
      using q(2) s by (simp add: filterRange_def time_simps)
    then have "s \<in> set (collector_SamplesInRange q (op_lastSync op) now (op_collector op))" using samples_direct by blast
    then show "s \<in> set (mirrored now op)" using q(1) by (force simp: mirrored_def collector_AllQueryIDs_def map_keys_def)
  qed
qed

text \<open>As a list the mirror repeats itself: a sample recorded at the very time of a tick is written by that
  tick and by the next one, so the durable history holds it twice.\<close>

lemma mirror_repeats_boundary:
  assumes "collector_inv (op_collector op)" "s \<in> set (collector_items (op_collector op))" "qs_RecordedAt s = now"
    and "op_lastSync op \<le> now" "now \<le> now'"
  shows "2 \<le> count_list (oef_samples (snd (mirror_step now' (mirror_step now (op, ef))))) s"
proof -
  have st: "mirror_step now (op, ef) = (op\<lparr>op_lastSync := now\<rparr>, ef\<lparr>oef_samples := oef_samples ef @ mirrored now op\<rparr>)"
    by (simp add: mirror_step_def mirrored_def)
  have "s \<in> set (mirrored now op)" "s \<in> set (mirrored now' (op\<lparr>op_lastSync := now\<rparr>))"
    using assms mirrored_set [of op now] mirrored_set [of "op\<lparr>op_lastSync := now\<rparr>" now'] by auto
  then have "1 \<le> count_list (mirrored now op) s" "1 \<le> count_list (mirrored now' (op\<lparr>op_lastSync := now\<rparr>)) s"
    by (simp_all add: Suc_le_eq count_list_0_iff neq0_conv [symmetric] del: neq0_conv)
  then show ?thesis by (simp add: st mirror_step_samples)
qed

lemma count_concat_two:
  assumes "distinct ks" "p \<in> set ks" "q \<in> set ks" "p \<noteq> q" "s \<in> set (f p)" "s \<in> set (f q)"
  shows "2 \<le> count_list (concat (map f ks)) s"
proof -
  have one: "1 \<le> count_list (concat (map f ks)) s" if "k \<in> set ks" "s \<in> set (f k)" for k ks
    using that by (auto simp: Suc_le_eq count_list_0_iff neq0_conv [symmetric] simp del: neq0_conv)
  have pos: "1 \<le> count_list (f k) s" if "s \<in> set (f k)" for k
    using one [of k "[k]"] that by simp
  show ?thesis using assms
  proof (induction ks)
    case (Cons k ks)
    consider "k = p" "q \<in> set ks" | "k = q" "p \<in> set ks" | "p \<in> set ks" "q \<in> set ks" using Cons.prems by auto
    then show ?case
    proof cases
      case 1 then show ?thesis using pos [of p] one [of q ks] Cons.prems by simp
    next
      case 2 then show ?thesis using pos [of q] one [of p ks] Cons.prems by simp
    next
      case 3 then show ?thesis using Cons by simp
    qed
  qed simp
qed

section \<open>Properties\<close>

text \<open>C30: A dry run that succeeds predicts the real start: with the same flags and the same answers of files,
  database and state store, the operator starts and serves a source type it can parse, provided that
  the scrape interval is positive and the periodic interval small enough not to overflow, which the
  dry run does not check.\<close>

theorem dry_run_predicts_start:
  assumes "runOperator env (FlagsParsed fl) = OpExit 0" "fl_dryRun fl" "\<not> fl_version fl"
    and "0 < fl_scrapeInterval fl" "fl_periodicIntervalMinutes fl < 2 ^ 27"
  shows "\<exists>op. runOperator env (FlagsParsed (fl\<lparr>fl_dryRun := False\<rparr>)) = OpRun op \<and> fl_sourceType fl \<in> set validSourceTypes"
proof -
  obtain cfg where cfg: "operator_validate env fl = Inr cfg" "operator_dry_run env fl cfg = 0"
    using assms(1-3) by (auto simp: runOperator_def operator_validate_def split: sum.splits if_splits)
  then obtain n where n: "buildNotifier (oe_ParseURL env) (oe_ParseTemplate env) cfg = Inr n"
    and ok: "fl_sourceType fl \<in> set validSourceTypes" "fl_periodicDetection fl \<longrightarrow> 0 < fl_periodicIntervalMinutes fl"
    and state: "fl_stateBackend fl = [] \<or> fl_stateBackend fl = ''memory'' \<or> fl_stateBackend fl = ''postgres'' \<and> oe_OpenState env (state_conn_dsn fl) = None"
    by (cases "buildNotifier (oe_ParseURL env) (oe_ParseTemplate env) cfg") (auto simp: operator_dry_run_def split: if_splits)
  have "\<exists>op. operator_start env (fl\<lparr>fl_dryRun := False\<rparr>) cfg = OpRun op"
    using n state ok(2) assms(4,5) minutes_positive by (intro operator_start_run) (auto simp: state_conn_dsn_def)
  then show ?thesis using assms(3) cfg ok(1) by (simp add: runOperator_def)
qed

text \<open>The mirror misses nothing and invents nothing: a tick writes to the durable store exactly the samples
  the collector retains from the previous tick up to now, as a set.\<close>

theorem mirror_exact:
  assumes "collector_inv (op_collector op)"
  shows "\<exists>new. oef_samples (snd (mirror_step now (op, ef))) = oef_samples ef @ new \<and>
    set new = {s \<in> set (collector_items (op_collector op)). op_lastSync op \<le> qs_RecordedAt s \<and> qs_RecordedAt s \<le> now} \<and>
    op_lastSync (fst (mirror_step now (op, ef))) = now"
  using mirror_step_samples [of now op ef] mirrored_set [OF assms, of now] by (auto simp: mirror_step_def)

text \<open>C38: The mirror writes the samples of rotated query ids several times. A tick spans one scrape interval, so a
  query id has too few samples in it and the collector answers with those of its siblings too: a
  sample of a sibling is written once under its own id and once more under this one, and a restart
  backfills the copies.\<close>

theorem mirror_repeats_siblings:
  assumes "collector_inv (op_collector op)" "p \<in> siblings_of (op_collector op) q"
    and "q \<in> set (collector_AllQueryIDs (op_collector op))" "s \<in> set (map_get [] (c_samples (op_collector op)) p)"
    and "op_lastSync op \<le> qs_RecordedAt s" "qs_RecordedAt s \<le> now"
    and "length (filterRange (map_get [] (c_samples (op_collector op)) q) (op_lastSync op) now) < 5"
  shows "count_list (oef_samples ef) s + 2 \<le> count_list (oef_samples (snd (mirror_step now (op, ef)))) s"
proof -
  let ?c = "op_collector op" and ?f = "\<lambda>q. collector_SamplesInRange q (op_lastSync op) now (op_collector op)"
  have "distinct (collector_AllQueryIDs ?c)"
    using assms(1) by (simp add: collector_inv_def collector_pre_def buckets_ok_def collector_AllQueryIDs_def map_keys_def)
  moreover have "p \<in> set (collector_AllQueryIDs ?c)"
    using assms(4) by (cases "map_of (c_samples ?c) p") (auto simp: map_get_def collector_AllQueryIDs_def)
  moreover have "p \<noteq> q" using assms(2) by (simp add: siblings_of_def)
  moreover have "s \<in> set (?f p)" using samples_direct [of ?c p] assms(4-6) by (force simp: filterRange_def time_simps)
  moreover have "s \<in> set (?f q)" using samples_merged [OF assms(1), of q "op_lastSync op" now] assms(2,4-7) by blast
  ultimately have "2 \<le> count_list (mirrored now op) s" using assms(3) unfolding mirrored_def by (intro count_concat_two [of _ p q])
  then show ?thesis by (simp add: mirror_step_samples)
qed

section \<open>Witnesses\<close>

definition sample_flags :: operator_flags where
  "sample_flags = \<lparr>fl_dsn = ''postgres://db/app'', fl_clusterName = ''c'', fl_namespace = ''ns'', fl_scrapeInterval = 60000000000,
     fl_webhookListen = '':8080'', fl_metricsListen = '':9090'', fl_dashboardListen = '':8082'', fl_slackURL = [],
     fl_alertFormat = ''slack'', fl_alertURL = [], fl_alertAllowedDestinations = [], fl_destinationPolicy = [], fl_relayURL = [],
     fl_securityProfile = ''controlled'', fl_pagerdutyRoutingKey = [], fl_alertTemplate = [], fl_alertTemplateFile = [], fl_sourceType = ''argocd'',
     fl_webhookSecret = [], fl_windowMinutes = 30, fl_minExecutions = 10, fl_latencyThreshold = 1 / 5, fl_changePointTolerance = 0,
     fl_maxQueryTextLen = 200, fl_retentionMinutes = 180, fl_capturePlans = False, fl_periodicDetection = True, fl_periodicWindowMinutes = 60,
     fl_periodicIntervalMinutes = 15, fl_stateBackend = ''memory'', fl_stateDSN = [], fl_stateRetention = 604800000000000,
     fl_statePruneInterval = 900000000000, fl_version = False, fl_dryRun = True\<rparr>"

definition sample_env :: operator_env where
  "sample_env = \<lparr>oe_dsn = \<lparr>dl_Parse = (\<lambda>u. Inr \<lparr>pu_Scheme = ''postgres'', pu_Opaque = [], pu_User = None, pu_Host = ''db'', pu_HostParam = []\<rparr>),
       dl_NewConnector = (\<lambda>d. None)\<rparr>,
     oe_ParseURL = (\<lambda>u. Inl ''bad''), oe_ParseTemplate = no_template, oe_ReadFile = (\<lambda>f. Inl ''none''), oe_Open = (\<lambda>d. None),
     oe_db = \<lparr>db_server_version_num = Inr 160003, db_extversion = Inr None, db_compute_query_id = Inr ''auto'', db_begin = None,
       db_set_format = None, db_store_plan = (\<lambda>q. Inr None), db_commit = None, db_explain = (\<lambda>s. Inr ''[]''),
       cdb_ping = None, cdb_has_pgss = Inr True, cdb_rows = (\<lambda>q. Inr ([], None))\<rparr>,
     oe_OpenState = (\<lambda>d. None), oe_stateQueryIDs = Inr [], oe_stateSamples = (\<lambda>q lo hi. Inr []), oe_stateEvents = (\<lambda>lo hi. Inr []), oe_now = 1000\<rparr>"

theorem dry_run_predicts_start_witness:
  "runOperator sample_env (FlagsParsed sample_flags) = OpExit 0 \<and>
   (\<exists>op. runOperator sample_env (FlagsParsed (sample_flags\<lparr>fl_dryRun := False\<rparr>)) = OpRun op)"
proof -
  have dsn: "validatePostgresDSN (oe_dsn sample_env) ''postgres://db/app'' = None" by code_simp
  have "runOperator sample_env (FlagsParsed sample_flags) = OpExit 0"
    by (simp add: runOperator_def operator_validate_def dsn operator_alert_config_def operator_dry_run_def validSourceTypes_def buildNotifier_def
        resolveDestinationURL_def validateDestinationPolicy_def permissive_policy_def relay_only_policy_def allowlist_policy_def
        splitCommaSeparatedValues_def collector_Ping_def sample_flags_def) (simp add: sample_env_def)
  then show ?thesis using dry_run_predicts_start [of sample_env sample_flags] by (auto simp: sample_flags_def)
qed

definition sample_operator :: operator where
  "sample_operator = (operator_new sample_env sample_flags (newWebhookNotifier [] 0 ''c'' None))\<lparr>op_collector := sample_collector, op_lastSync := 30\<rparr>"

definition no_effects :: operator_effects where "no_effects = \<lparr>oef_posts = [], oef_samples = [], oef_events = []\<rparr>"

lemma sample_operator_inv: "collector_inv (op_collector sample_operator)"
  using collector_reach_inv [OF sample_collector_reach] by (simp add: sample_operator_def)

lemma sample_operator_fields [simp]: "op_collector sample_operator = sample_collector" "op_lastSync sample_operator = 30" "oef_samples no_effects = []"
  by (simp_all add: sample_operator_def no_effects_def)

theorem mirror_exact_witness:
  "set (oef_samples (snd (mirror_step 50 (sample_operator, no_effects)))) = {sample_at 1 40, sample_at 2 45}"
proof -
  from mirror_exact [OF sample_operator_inv, of 50 no_effects]
  have "set (oef_samples (snd (mirror_step 50 (sample_operator, no_effects)))) =
      {s \<in> set (collector_items sample_collector). 30 \<le> qs_RecordedAt s \<and> qs_RecordedAt s \<le> 50}" by auto
  also have "\<dots> = {sample_at 1 40, sample_at 2 45}"
    by (auto simp: collector_items_def sample_collector_state(1)) (simp_all add: sample_at_def)
  finally show ?thesis .
qed

theorem mirror_repeats_siblings_witness:
  "2 \<le> count_list (oef_samples (snd (mirror_step 50 (sample_operator, no_effects)))) (sample_at 2 45)"
proof -
  have "count_list (oef_samples no_effects) (sample_at 2 45) + 2 \<le> count_list (oef_samples (snd (mirror_step 50 (sample_operator, no_effects)))) (sample_at 2 45)"
    by (rule mirror_repeats_siblings [OF sample_operator_inv, of 2 1])
       (simp_all add: sample_collector_siblings sample_collector_state(1) collector_AllQueryIDs_def map_keys_def filterRange_def sample_at_def)
  then show ?thesis by simp
qed

end
