(* ===== verification/Cli_Modes.thy ===== *)
theory Cli_Modes
  imports Watch_Controller Operator
begin

text \<open>
  The other modes of the command line (\<open>internal/cli/manager.go\<close>, \<open>manager_status.go\<close>,
  \<open>collector.go\<close>, \<open>ingester.go\<close>): the checks on the flags with their exit codes, what the manager
  hands to its reconcilers, the statuses it writes when it cannot start, and the routes of the
  standalone ingester. Flags arrive parsed, as for the operator; servers and signals are outside.
\<close>

section \<open>Manager\<close>

record manager_flags =
  mf_metricsAddr :: string
  mf_probeAddr :: string
  mf_pgMetricsAddr :: string
  mf_webhookAddr :: string
  mf_dashboardAddr :: string
  mf_enableLeaderElection :: bool
  mf_leaderElectionNamespace :: string
  mf_alertAllowedDestinations :: string
  mf_destinationPolicy :: string
  mf_relayURL :: string
  mf_securityProfile :: string
  mf_version :: bool
  mf_dryRun :: bool

definition parse_profile :: "string \<Rightarrow> security_profile option" where
  "parse_profile s = (if s = ''controlled'' then Some SecurityProfileControlled else if s = ''hardened'' then Some SecurityProfileHardened else None)"

record manager_options =
  mop_MetricsBindAddress :: string
  mop_HealthProbeBindAddress :: string
  mop_LeaderElection :: bool
  mop_LeaderElectionID :: string
  mop_LeaderElectionNamespace :: string

definition options_of :: "manager_flags \<Rightarrow> manager_options" where
  "options_of fl = \<lparr>mop_MetricsBindAddress = mf_metricsAddr fl, mop_HealthProbeBindAddress = mf_probeAddr fl,
     mop_LeaderElection = mf_enableLeaderElection fl, mop_LeaderElectionID = ''pg-regression-radar-manager.radar.pgregressionradar.io'',
     mop_LeaderElectionNamespace = mf_leaderElectionNamespace fl\<rparr>"

text \<open>The outcome of the start-up up to \<open>NewManager\<close>: an exit code, or the configuration of the watch
  reconciler. \<open>getConfig\<close> resolves the API server, \<open>newManager\<close> builds the controller manager and
  \<open>dynamicClient\<close> the client that aborts rollouts; the last may fail without consequence for the start.\<close>

definition manager_setup :: "string option \<Rightarrow> (manager_options \<Rightarrow> string option) \<Rightarrow> string option \<Rightarrow> manager_flags \<Rightarrow> int + reconciler_cfg" where
  "manager_setup getConfig newManager dynamicClient fl =
     (if mf_version fl then Inl 0
      else let allowed = splitCommaSeparatedValues (mf_alertAllowedDestinations fl)
           in if validateAllowedDestinations allowed \<noteq> None then Inl 1
              else if validateDestinationPolicy (mf_destinationPolicy fl) (mf_relayURL fl) \<noteq> None then Inl 1
              else (case parse_profile (mf_securityProfile fl) of
                      None \<Rightarrow> Inl 1
                    | Some profile \<Rightarrow>
                        if getConfig \<noteq> None then Inl 1
                        else if mf_dryRun fl then Inl 0
                        else if newManager (options_of fl) \<noteq> None then Inl 1
                        else Inr \<lparr>rcf_AllowedAlertDestinations = allowed, rcf_AlertingDestinationPolicy = mf_destinationPolicy fl,
                               rcf_RelayURL = mf_relayURL fl, rcf_SecurityProfile = profile, rcf_HasAborter = (dynamicClient = None)\<rparr>))"

definition startup_message :: "string \<Rightarrow> string" where
  "startup_message cause = ''manager could not reach the Kubernetes API strongly enough to start reconcilers: '' @ cause"

definition failed_watch_status :: "gtime \<Rightarrow> string \<Rightarrow> postgres_watch \<Rightarrow> postgres_watch" where
  "failed_watch_status now msg watch =
     (let st = pw_Status watch
      in watch\<lparr>pw_Status := st\<lparr>wst_Phase := Some PhaseFailed, wst_ObservedGeneration := pw_Generation watch, wst_Message := msg,
           wst_Conditions := setCondition now (ready_condition ''False'' ''ManagerStartupFailed'' msg (pw_Generation watch)) (wst_Conditions st)\<rparr>\<rparr>)"

definition failed_source_status :: "gtime \<Rightarrow> string \<Rightarrow> source_object \<Rightarrow> source_object" where
  "failed_source_status now msg src = source_status_update now SourceFailed [] msg ''False'' ''ManagerStartupFailed'' msg src"

definition reportPostgresWatchStartupFailureStatus :: "gtime \<Rightarrow> string + postgres_watch list \<Rightarrow> (postgres_watch \<Rightarrow> string option) \<Rightarrow> string \<Rightarrow>
    string list \<times> postgres_watch list" where
  "reportPostgresWatchStartupFailureStatus now listed update msg =
     (case listed of
        Inl err \<Rightarrow> ([''list postgreswatches: '' @ err], [])
      | Inr items \<Rightarrow>
          (let objs = map (failed_watch_status now msg) items
           in (List.map_filter (\<lambda>w. map_option (\<lambda>err. ''update postgreswatch '' @ nn_String (pw_Key w) @ '' status: '' @ err) (update w)) objs, objs)))"

definition reportDeploySourceStartupFailureStatus :: "gtime \<Rightarrow> string + source_object list \<Rightarrow> (source_object \<Rightarrow> string option) \<Rightarrow> string \<Rightarrow>
    string list \<times> source_object list" where
  "reportDeploySourceStartupFailureStatus now listed update msg =
     (case listed of
        Inl err \<Rightarrow> ([''list deploysources: '' @ err], [])
      | Inr items \<Rightarrow>
          (let objs = map (failed_source_status now msg) items
           in (List.map_filter (\<lambda>d. map_option (\<lambda>err. ''update deploysource '' @ nn_String (so_Key d) @ '' status: '' @ err) (update d)) objs, objs)))"

definition reportManagerStartupFailureStatus :: "gtime \<Rightarrow> string + postgres_watch list \<Rightarrow> (postgres_watch \<Rightarrow> string option) \<Rightarrow>
    string + source_object list \<Rightarrow> (source_object \<Rightarrow> string option) \<Rightarrow> string \<Rightarrow> string list \<times> postgres_watch list \<times> source_object list" where
  "reportManagerStartupFailureStatus now watches updW sources updS cause =
     (case reportPostgresWatchStartupFailureStatus now watches updW (startup_message cause) of (errs1, ws) \<Rightarrow>
        (case reportDeploySourceStartupFailureStatus now sources updS (startup_message cause) of (errs2, ss) \<Rightarrow> (errs1 @ errs2, ws, ss)))"

section \<open>Standalone collector\<close>

record collector_flags =
  cf_dsn :: string
  cf_listen :: string
  cf_scrapeInterval :: duration
  cf_clusterName :: string
  cf_namespace :: string
  cf_maxQueryTextLen :: int
  cf_retentionMinutes :: int
  cf_version :: bool
  cf_dryRun :: bool

definition runCollector :: "(string \<Rightarrow> string option) \<Rightarrow> collector_db \<Rightarrow> collector_flags \<Rightarrow> int + collector" where
  "runCollector opn db fl =
     (if cf_version fl then Inl 0
      else if cf_dsn fl = [] then Inl 1
      else if cf_maxQueryTextLen fl \<le> 0 then Inl 1
      else if opn (cf_dsn fl) \<noteq> None then Inl 1
      else if cf_dryRun fl then (if collector_Ping db \<noteq> None then Inl 1 else Inl 0)
      else Inr (new_collector \<lparr>cc_ScrapeInterval = cf_scrapeInterval fl, cc_ClusterName = cf_clusterName fl, cc_Namespace = cf_namespace fl,
             cc_MaxQueryTextLen = cf_maxQueryTextLen fl, cc_RetentionDuration = dur_mul (cf_retentionMinutes fl) minute_d, cc_CapturePlans = False\<rparr>))"

section \<open>Standalone ingester\<close>

record ingester_flags =
  if_listen :: string
  if_sourceType :: string
  if_sourceName :: string
  if_postgresWatchRef :: string
  if_appName :: string
  if_clusterName :: string
  if_webhookSecret :: string
  if_version :: bool
  if_dryRun :: bool

definition ingester_source :: "ingester_flags \<Rightarrow> deploy_source" where
  "ingester_source fl = \<lparr>ds_Name = if_sourceName fl, ds_Namespace = [], ds_PostgresWatchRef = if_postgresWatchRef fl, ds_SourceType = if_sourceType fl,
     ds_AppName = if_appName fl, ds_ClusterName = if_clusterName fl, ds_WebhookSecret = if_webhookSecret fl\<rparr>"

definition runIngester :: "(string \<Rightarrow> string option) \<Rightarrow> ingester_flags \<Rightarrow> int + store \<times> deploy_source" where
  "runIngester resolve fl =
     (if if_version fl then Inl 0
      else if if_dryRun fl then (if if_sourceType fl \<notin> set validSourceTypes then Inl 1 else if resolve (if_listen fl) \<noteq> None then Inl 1 else Inl 0)
      else Inr (new_store, ingester_source fl))"

datatype ingester_answer = Plain response | EventList "deploy_event list"

definition newIngesterMux :: "decoders \<Rightarrow> (nat \<Rightarrow> gtime) \<Rightarrow> deploy_source \<Rightarrow> string \<Rightarrow> string \<Rightarrow> request \<Rightarrow> store \<Rightarrow> ingester_answer \<times> store" where
  "newIngesterMux d nows source webhookSecret path r s =
     (if path = ''/webhook'' then (case handler_ServeHTTP d nows source r s of (rs, s') \<Rightarrow> (Plain rs, s'))
      else if path = ''/events'' \<and> webhookSecret \<noteq> [] then
        (if rq_Token r \<noteq> webhookSecret then (Plain (http_error ''unauthorized'' 401), s)
         else if rq_Method r \<noteq> ''GET'' then (Plain (http_error ''method not allowed'' 405), s)
         else (EventList (store_All s), s))
      else if path = ''/healthz'' then (Plain \<lparr>rs_Status = 200, rs_Body = []\<rparr>, s)
      else (Plain (http_error ''404 page not found'' 404), s))"

section \<open>Runs of the ingester\<close>

fun serve_all :: "decoders \<Rightarrow> (nat \<Rightarrow> gtime) \<Rightarrow> deploy_source \<Rightarrow> string \<Rightarrow> (string \<times> request) list \<Rightarrow> store \<Rightarrow> store" where
  "serve_all d nows source secret [] s = s"
| "serve_all d nows source secret ((path, r) # rs) s = serve_all d nows source secret rs (snd (newIngesterMux d nows source secret path r s))"

definition accepted :: "deploy_source \<Rightarrow> (string \<times> request) set \<Rightarrow> deploy_event \<Rightarrow> bool" where
  "accepted src reqs ev \<longleftrightarrow> ev_Source ev = ds_Name src \<and> (ds_AppName src = [] \<or> ev_App ev = ds_AppName src) \<and>
     (\<exists>r. (''/webhook'', r) \<in> reqs \<and> authorised src r)"

lemma newIngesterMux_step:
  assumes "store_inv s" "\<forall>ev\<in>set (st_events s). accepted src reqs ev"
  shows "store_inv (snd (newIngesterMux d nows src secret path r s)) \<and>
    (\<forall>ev\<in>set (st_events (snd (newIngesterMux d nows src secret path r s))). accepted src (insert (path, r) reqs) ev)"
proof -
  have mono: "accepted src reqs ev \<Longrightarrow> accepted src (insert (path, r) reqs) ev" for ev by (auto simp: accepted_def)
  have other: ?thesis if "path \<noteq> ''/webhook''"
  proof -
    have "snd (newIngesterMux d nows src secret path r s) = s" using that by (simp add: newIngesterMux_def)
    then show ?thesis using assms mono by simp
  qed
  have hook: ?thesis if path: "path = ''/webhook''"
  proof -
    have snd: "snd (newIngesterMux d nows src secret path r s) = snd (handler_ServeHTTP d nows src r s)"
      by (simp add: newIngesterMux_def path split: prod.splits)
    consider "snd (handler_ServeHTTP d nows src r s) = s"
      | ev where "snd (handler_ServeHTTP d nows src r s) = store_Add (normalised src ev) s" "authorised src r" "ds_AppName src = [] \<or> ev_App ev = ds_AppName src"
      using handler_ServeHTTP_store [of d nows src r s] by blast
    then show ?thesis
    proof cases
      case (2 ev)
      then have "accepted src (insert (path, r) reqs) (normalised src ev)" by (auto simp: accepted_def normalised_def path)
      then show ?thesis unfolding snd 2(1) using mono assms store_Add_inv [OF assms(1)] by (auto simp: store_Add_events [OF assms(1)])
    qed (use assms mono snd in simp)
  qed
  from other hook show ?thesis by blast
qed

lemma serve_all_accepted:
  assumes "store_inv s" "\<forall>ev\<in>set (st_events s). accepted src reqs ev"
  shows "store_inv (serve_all d nows src secret rs s) \<and>
    (\<forall>ev\<in>set (st_events (serve_all d nows src secret rs s)). accepted src (set rs \<union> reqs) ev)"
  using assms
proof (induction rs arbitrary: s reqs)
  case (Cons x rs)
  obtain path r where x: "x = (path, r)" by (cases x)
  note step = newIngesterMux_step [OF Cons.prems, of d nows secret path r]
  have "set (x # rs) \<union> reqs = set rs \<union> insert (path, r) reqs" by (auto simp: x)
  then show ?case using Cons.IH [OF step [THEN conjunct1] step [THEN conjunct2]] by (metis x serve_all.simps(2))
qed simp

section \<open>Properties\<close>

text \<open>C31: The standalone ingester gives its event history only to holders of the webhook secret: over any
  sequence of requests, an answer that lists events was asked for with GET and the configured,
  non-empty secret, and lists events with distinct ids, all of the configured source and application,
  each of which came in through an authorised POST to the webhook. Without a secret there is no such answer.\<close>

theorem ingester_events_guarded:
  assumes "runIngester resolve fl = Inr (s0, src)"
    and "newIngesterMux d nows src (if_webhookSecret fl) path r (serve_all d nows src (if_webhookSecret fl) rs s0) = (EventList evs, s')"
  shows "if_webhookSecret fl \<noteq> [] \<and> rq_Token r = if_webhookSecret fl \<and> rq_Method r = ''GET'' \<and> distinct (map ev_ID evs) \<and>
    list_all (\<lambda>ev. ev_Source ev = if_sourceName fl \<and> (if_appName fl = [] \<or> ev_App ev = if_appName fl) \<and>
      list_ex (\<lambda>(p, r'). p = ''/webhook'' \<and> rq_Method r' = ''POST'' \<and> rq_Token r' = if_webhookSecret fl) rs) evs"
proof -
  let ?s = "serve_all d nows src (if_webhookSecret fl) rs s0"
  have s0: "s0 = new_store" "src = ingester_source fl" using assms(1) by (auto simp: runIngester_def split: if_splits)
  have e: "evs = st_events ?s" "if_webhookSecret fl \<noteq> []" "rq_Token r = if_webhookSecret fl" "rq_Method r = ''GET''"
    using assms(2) by (auto simp: newIngesterMux_def store_All_def split: if_splits prod.splits)
  have "store_inv ?s \<and> (\<forall>ev\<in>set (st_events ?s). accepted src (set rs \<union> {}) ev)"
    by (rule serve_all_accepted) (simp_all add: s0 store_inv_new, simp add: new_store_def)
  then show ?thesis using e s0(2)
    by (auto simp: store_inv_def list_all_iff list_ex_iff accepted_def authorised_def ingester_source_def)
qed

section \<open>Witnesses\<close>

definition ingester_sample :: ingester_flags where
  "ingester_sample = \<lparr>if_listen = '':8080'', if_sourceType = ''argocd'', if_sourceName = ''src'', if_postgresWatchRef = [], if_appName = [],
     if_clusterName = ''c'', if_webhookSecret = ''s'', if_version = False, if_dryRun = False\<rparr>"

definition events_request :: request where "events_request = \<lparr>rq_Method = ''GET'', rq_Token = ''s'', rq_Body = []\<rparr>"

definition served_store :: store where
  "served_store = serve_all sample_decoders (\<lambda>i. 7) (ingester_source ingester_sample) ''s'' [(''/webhook'', sample_request\<lparr>rq_Token := ''s''\<rparr>)] new_store"

lemma served_store_nonempty: "store_All served_store \<noteq> []"
  using store_Add_events [OF store_inv_new(1)]
  by (auto simp: served_store_def newIngesterMux_def handler_ServeHTTP_cases authorised_def sample_request_def ingester_source_def ingester_sample_def
      parse_payload_def parseArgoCDPayload_def sample_decoders_def new_store_def store_All_def split: prod.splits)

theorem ingester_events_guarded_witness:
  "store_All served_store \<noteq> [] \<and> list_all (\<lambda>ev. ev_Source ev = ''src'') (store_All served_store)"
proof
  have secret: "if_webhookSecret ingester_sample = ''s''" "if_sourceName ingester_sample = ''src''" by (simp_all add: ingester_sample_def)
  have a: "runIngester (\<lambda>a. None) ingester_sample = Inr (new_store, ingester_source ingester_sample)"
    by (simp add: runIngester_def ingester_sample_def)
  have "newIngesterMux sample_decoders (\<lambda>i. 7) (ingester_source ingester_sample) ''s'' ''/events'' events_request served_store =
      (EventList (store_All served_store), served_store)"
    by (simp add: newIngesterMux_def events_request_def)
  from ingester_events_guarded [OF a, unfolded secret, OF this [unfolded served_store_def]]
  show "list_all (\<lambda>ev. ev_Source ev = ''src'') (store_All served_store)" by (simp add: served_store_def list_all_iff)
qed (rule served_store_nonempty)

end
