(* ===== verification/Dashboard.thy ===== *)
theory Dashboard
  imports Watch_Controller
begin

text \<open>
  The read-only HTTP API (\<open>internal/dashboardapi/handler.go\<close>, \<open>adapters.go\<close>): the routes with their
  method check, parameters, error answers and the values they encode. A body is the value handed to
  \<open>encoding/json\<close>. The Kubernetes client and the readers of samples and events are arguments, as
  records of functions that may fail; the adapters make readers of a collector and of an event store.
\<close>

section \<open>Requests and answers\<close>

record dash_request =
  dr_Method :: string
  dr_Query :: "(string, string) gomap"
  dr_QueryID :: string

record regression_dto =
  rd_Name :: string
  rd_Namespace :: string
  rd_ClusterName :: string
  rd_QueryID :: string
  rd_QueryText :: string
  rd_DeployEventID :: string
  rd_Status :: string
  rd_TriggerType :: string
  rd_ConfidenceScore :: string
  rd_MeanLatencyBeforeMs :: string
  rd_MeanLatencyAfterMs :: string
  rd_LatencyChangeFactor :: string
  rd_ExternalCauseSuspected :: bool
  rd_PlanDiffSummary :: string
  rd_AutoAbortTriggered :: bool
  rd_AutoAbortError :: string
  rd_DetectedAt :: string

record query_dto =
  qd_QueryID :: string
  qd_QueryText :: string
  qd_Calls :: int
  qd_MeanExecMs :: real
  qd_SampleCount :: nat

record sample_dto =
  sd_RecordedAt :: string
  sd_Calls :: int
  sd_MeanExecMs :: real

datatype dash_body =
    ErrorBody string
  | RegressionsBody "regression_dto list"
  | DeploysBody "deploy_event list"
  | QueriesBody "query_dto list"
  | SamplesBody "sample_dto list"
  | WatchesBody "postgres_watch list"
  | NoBody

record dash_response =
  dp_Status :: nat
  dp_Headers :: "(string \<times> string) list"
  dp_Body :: dash_body

section \<open>Dependencies\<close>

record sample_reader =
  sr_SamplesInRange :: "queryid \<Rightarrow> gtime \<Rightarrow> gtime \<Rightarrow> string + query_sample list"
  sr_AllQueryIDs :: "string + queryid list"

type_synonym event_reader = "gtime \<Rightarrow> gtime \<Rightarrow> string + deploy_event list"

definition collectorSampleReader :: "collector \<Rightarrow> sample_reader" where
  "collectorSampleReader c = \<lparr>sr_SamplesInRange = (\<lambda>q lo hi. Inr (collector_SamplesInRange q lo hi c)), sr_AllQueryIDs = Inr (collector_AllQueryIDs c)\<rparr>"

definition ingesterEventReader :: "store \<Rightarrow> event_reader" where
  "ingesterEventReader s = (\<lambda>lo hi. Inr (store_EventsInRange lo hi s))"

text \<open>\<open>List\<close> at the API server, restricted to a namespace or not.\<close>

record dash_client =
  cl_regressions :: "string option \<Rightarrow> string + regression_object list"
  cl_watches :: "string + postgres_watch list"

record dash_handler =
  dh_Client :: "dash_client option"
  dh_EventStore :: "event_reader option"
  dh_SampleStore :: "sample_reader option"
  dh_ParseTime :: "string \<Rightarrow> string + gtime"

definition defaultDeploysLookback :: duration where "defaultDeploysLookback = 7 * 24 * hour_d"
definition defaultQueriesWindowMinutes :: int where "defaultQueriesWindowMinutes = 60"

section \<open>Routes\<close>

definition writeJSON :: "nat \<Rightarrow> dash_body \<Rightarrow> dash_response" where
  "writeJSON status body = \<lparr>dp_Status = status, dp_Headers = [(''Content-Type'', ''application/json'')], dp_Body = body\<rparr>"

definition writeError :: "nat \<Rightarrow> string \<Rightarrow> dash_response" where
  "writeError status msg = writeJSON status (ErrorBody msg)"

definition allowGET :: "dash_request \<Rightarrow> dash_response \<Rightarrow> dash_response" where
  "allowGET r k = (if dr_Method r \<noteq> ''GET'' then writeError 405 ''only GET is supported'' else k)"

definition withCORS :: "(dash_request \<Rightarrow> dash_response) \<Rightarrow> dash_request \<Rightarrow> dash_response" where
  "withCORS h r =
     (let cors = [(''Access-Control-Allow-Origin'', ''*''), (''Access-Control-Allow-Methods'', ''GET, OPTIONS''), (''Access-Control-Allow-Headers'', ''Content-Type'')]
      in if dr_Method r = ''OPTIONS'' then \<lparr>dp_Status = 204, dp_Headers = cors, dp_Body = NoBody\<rparr>
         else (let p = h r in p\<lparr>dp_Headers := cors @ dp_Headers p\<rparr>))"

definition toRegressionDTO :: "regression_object \<Rightarrow> regression_dto" where
  "toRegressionDTO o1 =
     \<lparr>rd_Name = nn_Name (ro_Key o1), rd_Namespace = nn_Namespace (ro_Key o1), rd_ClusterName = rs_ClusterName (ro_Spec o1),
      rd_QueryID = format_int (rs_QueryID (ro_Spec o1)), rd_QueryText = rs_QueryText (ro_Spec o1), rd_DeployEventID = rs_DeployEventID (ro_Spec o1),
      rd_Status = rst_Status (ro_Status o1), rd_TriggerType = rs_TriggerType (ro_Spec o1), rd_ConfidenceScore = rst_ConfidenceScore (ro_Status o1),
      rd_MeanLatencyBeforeMs = rst_MeanLatencyBeforeMs (ro_Status o1), rd_MeanLatencyAfterMs = rst_MeanLatencyAfterMs (ro_Status o1),
      rd_LatencyChangeFactor = rst_LatencyChangeFactor (ro_Status o1), rd_ExternalCauseSuspected = rst_ExternalCauseSuspected (ro_Status o1),
      rd_PlanDiffSummary = rst_PlanDiffSummary (ro_Status o1), rd_AutoAbortTriggered = rst_AutoAbortTriggered (ro_Status o1),
      rd_AutoAbortError = rst_AutoAbortError (ro_Status o1),
      rd_DetectedAt = (case rst_DetectedAt (ro_Status o1) of None \<Rightarrow> [] | Some t \<Rightarrow> format_rfc3339 t)\<rparr>"

definition handleRegressions :: "dash_handler \<Rightarrow> dash_request \<Rightarrow> dash_response" where
  "handleRegressions h r = allowGET r
     (case dh_Client h of
        None \<Rightarrow> writeError 501 ''kubernetes client not configured on this process''
      | Some c \<Rightarrow>
          (let ns = map_get [] (dr_Query r) ''namespace''; statusFilter = map_get [] (dr_Query r) ''status''
           in case cl_regressions c (if ns \<noteq> [] then Some ns else None) of
                Inl err \<Rightarrow> writeError 500 ''failed to list regressions''
              | Inr items \<Rightarrow> writeJSON 200 (RegressionsBody
                  (map toRegressionDTO (filter (\<lambda>i. statusFilter = [] \<or> rst_Status (ro_Status i) = statusFilter) items)))))"

text \<open>The \<open>since\<close> and \<open>until\<close> parameters over the given defaults.\<close>

definition time_range :: "dash_handler \<Rightarrow> dash_request \<Rightarrow> gtime \<Rightarrow> gtime \<Rightarrow> dash_response + gtime \<times> gtime" where
  "time_range h r lo hi =
     (let rawS = map_get [] (dr_Query r) ''since''; rawU = map_get [] (dr_Query r) ''until''
      in case (if rawS = [] then Inr lo else dh_ParseTime h rawS) of
           Inl err \<Rightarrow> Inl (writeError 400 (''invalid since (want RFC3339): '' @ err))
         | Inr since \<Rightarrow>
             (case (if rawU = [] then Inr hi else dh_ParseTime h rawU) of
                Inl err \<Rightarrow> Inl (writeError 400 (''invalid until (want RFC3339): '' @ err))
              | Inr until \<Rightarrow> Inr (since, until)))"

definition handleDeploys :: "dash_handler \<Rightarrow> gtime \<Rightarrow> dash_request \<Rightarrow> dash_response" where
  "handleDeploys h now r = allowGET r
     (case dh_EventStore h of
        None \<Rightarrow> writeError 501 ''event store not configured on this process''
      | Some es \<Rightarrow>
          (case time_range h r (time_add now (dur_neg defaultDeploysLookback)) now of
             Inl p \<Rightarrow> p
           | Inr (since, until) \<Rightarrow>
               (case es since until of
                  Inl err \<Rightarrow> writeError 500 ''failed to list deploys''
                | Inr evs \<Rightarrow> writeJSON 200 (DeploysBody evs))))"

fun latest_calls :: "query_sample list \<Rightarrow> gtime \<times> int \<times> string \<Rightarrow> gtime \<times> int \<times> string" where
  "latest_calls [] acc = acc"
| "latest_calls (s # ss) (latest, calls, txt) =
     (if time_after (qs_RecordedAt s) latest \<or> is_zero latest then latest_calls ss (qs_RecordedAt s, qs_Calls s, qs_QueryText s)
      else latest_calls ss (latest, calls, txt))"

definition aggregateQuerySamples :: "sample_reader \<Rightarrow> queryid \<Rightarrow> gtime \<Rightarrow> gtime \<Rightarrow> string + query_dto option" where
  "aggregateQuerySamples sr q lo hi =
     (case sr_SamplesInRange sr q lo hi of
        Inl err \<Rightarrow> Inl err
      | Inr samples \<Rightarrow>
          if samples = [] then Inr None
          else (case latest_calls samples (0, 0, []) of (latest, calls, txt) \<Rightarrow>
                  Inr (Some \<lparr>qd_QueryID = format_int q, qd_QueryText = txt, qd_Calls = calls,
                    qd_MeanExecMs = sum_list (map qs_MeanExecTimeMs samples) / real (length samples), qd_SampleCount = length samples\<rparr>)))"

fun aggregate_all :: "sample_reader \<Rightarrow> gtime \<Rightarrow> gtime \<Rightarrow> queryid list \<Rightarrow> string + query_dto list" where
  "aggregate_all sr lo hi [] = Inr []"
| "aggregate_all sr lo hi (q # qs) =
     (case aggregateQuerySamples sr q lo hi of
        Inl err \<Rightarrow> Inl err
      | Inr d \<Rightarrow> (case aggregate_all sr lo hi qs of
                     Inl err \<Rightarrow> Inl err
                   | Inr ds \<Rightarrow> Inr ((case d of None \<Rightarrow> [] | Some x \<Rightarrow> [x]) @ ds)))"

definition handleQueries :: "dash_handler \<Rightarrow> gtime \<Rightarrow> dash_request \<Rightarrow> dash_response" where
  "handleQueries h now r = allowGET r
     (case dh_SampleStore h of
        None \<Rightarrow> writeError 501 ''sample store not configured on this process''
      | Some sr \<Rightarrow>
          (let raw = map_get [] (dr_Query r) ''windowMinutes'';
               window = (if raw = [] then Some defaultQueriesWindowMinutes
                         else case parse_int raw of None \<Rightarrow> None | Some n \<Rightarrow> if n \<le> 0 then None else Some n)
           in case window of
                None \<Rightarrow> writeError 400 ''invalid windowMinutes: must be a positive integer''
              | Some n \<Rightarrow>
                  (case sr_AllQueryIDs sr of
                     Inl err \<Rightarrow> writeError 500 ''failed to list queries''
                   | Inr ids \<Rightarrow>
                       (case aggregate_all sr (time_add now (dur_mul (- n) minute_d)) now ids of
                          Inl err \<Rightarrow> writeError 500 ''failed to load query samples''
                        | Inr ds \<Rightarrow> writeJSON 200 (QueriesBody ds)))))"

definition to_sample_dto :: "query_sample \<Rightarrow> sample_dto" where
  "to_sample_dto s = \<lparr>sd_RecordedAt = format_rfc3339 (qs_RecordedAt s), sd_Calls = qs_Calls s, sd_MeanExecMs = qs_MeanExecTimeMs s\<rparr>"

definition handleQuerySamples :: "dash_handler \<Rightarrow> gtime \<Rightarrow> dash_request \<Rightarrow> dash_response" where
  "handleQuerySamples h now r = allowGET r
     (case dh_SampleStore h of
        None \<Rightarrow> writeError 501 ''sample store not configured on this process''
      | Some sr \<Rightarrow>
          (case parse_int (dr_QueryID r) of
             None \<Rightarrow> writeError 400 ''invalid queryId: must be an integer (pg_stat_statements.queryid)''
           | Some q \<Rightarrow>
               (case time_range h r (time_add now (dur_mul (- defaultQueriesWindowMinutes) minute_d)) now of
                  Inl p \<Rightarrow> p
                | Inr (lo, hi) \<Rightarrow>
                    (case sr_SamplesInRange sr q lo hi of
                       Inl err \<Rightarrow> writeError 500 ''failed to load query samples''
                     | Inr samples \<Rightarrow> writeJSON 200 (SamplesBody (map to_sample_dto samples))))))"

definition handleWatches :: "dash_handler \<Rightarrow> dash_request \<Rightarrow> dash_response" where
  "handleWatches h r = allowGET r
     (case dh_Client h of
        None \<Rightarrow> writeError 501 ''kubernetes client not configured on this process''
      | Some c \<Rightarrow> (case cl_watches c of
                     Inl err \<Rightarrow> writeError 500 ''failed to list watches''
                   | Inr items \<Rightarrow> writeJSON 200 (WatchesBody items)))"

datatype dash_path = PathRegressions | PathDeploys | PathQueries | PathQuerySamples | PathWatches

text \<open>The pattern of the samples route names the method GET, so other methods are answered by the mux itself.\<close>

definition dash_Routes :: "dash_handler \<Rightarrow> gtime \<Rightarrow> dash_path \<Rightarrow> dash_request \<Rightarrow> dash_response" where
  "dash_Routes h now path r =
     (case path of
        PathRegressions \<Rightarrow> withCORS (handleRegressions h) r
      | PathDeploys \<Rightarrow> withCORS (handleDeploys h now) r
      | PathQueries \<Rightarrow> withCORS (handleQueries h now) r
      | PathQuerySamples \<Rightarrow>
          (if dr_Method r = ''GET'' \<or> dr_Method r = ''HEAD'' then withCORS (handleQuerySamples h now) r
           else \<lparr>dp_Status = 405, dp_Headers = [(''Allow'', ''GET, HEAD'')], dp_Body = NoBody\<rparr>)
      | PathWatches \<Rightarrow> withCORS (handleWatches h) r)"

section \<open>Summaries and samples\<close>

lemma latest_calls_in:
  "\<lbrakk>ss \<noteq> [] \<or> (c, t) \<in> P; \<forall>s\<in>set ss. (qs_Calls s, qs_QueryText s) \<in> P; is_zero l \<or> (c, t) \<in> P\<rbrakk> \<Longrightarrow>
     snd (latest_calls ss (l, c, t)) \<in> P"
  by (induction ss arbitrary: l c t) (auto split: if_splits)

lemma latest_calls_max:
  assumes "\<forall>s\<in>set ss. 0 < qs_RecordedAt s" "0 \<le> l"
  shows "case latest_calls ss (l, c, t) of (l', c', t') \<Rightarrow>
     (\<forall>s\<in>set ss. qs_RecordedAt s \<le> l') \<and> l \<le> l' \<and>
     (l' = l \<and> c' = c \<and> t' = t \<or> (\<exists>s\<in>set ss. qs_RecordedAt s = l' \<and> qs_Calls s = c' \<and> qs_QueryText s = t'))"
  using assms
proof (induction ss arbitrary: l c t)
  case (Cons s ss)
  show ?case
  proof (cases "time_after (qs_RecordedAt s) l \<or> is_zero l")
    case True
    then have "l \<le> qs_RecordedAt s" using Cons.prems by (auto simp: time_simps)
    with Cons.IH [of "qs_RecordedAt s" "qs_Calls s" "qs_QueryText s"] Cons.prems True show ?thesis
      by (fastforce split: prod.splits)
  next
    case False
    then have "qs_RecordedAt s \<le> l" by (simp add: time_simps)
    with Cons.IH [of l c t] Cons.prems False show ?thesis by (fastforce split: prod.splits)
  qed
qed simp

lemma aggregate_Some:
  assumes "aggregateQuerySamples sr q lo hi = Inr (Some d)"
  shows "\<exists>ss. sr_SamplesInRange sr q lo hi = Inr ss \<and> ss \<noteq> [] \<and> qd_QueryID d = format_int q \<and> qd_SampleCount d = length ss \<and>
    qd_MeanExecMs d = sum_list (map qs_MeanExecTimeMs ss) / real (length ss) \<and> qd_Calls d \<in> qs_Calls ` set ss \<and>
    ((\<forall>s\<in>set ss. 0 < qs_RecordedAt s) \<longrightarrow>
       (\<exists>s\<in>set ss. qs_Calls s = qd_Calls d \<and> qs_QueryText s = qd_QueryText d \<and> (\<forall>s'\<in>set ss. qs_RecordedAt s' \<le> qs_RecordedAt s)))"
proof -
  obtain ss where ss: "sr_SamplesInRange sr q lo hi = Inr ss" "ss \<noteq> []"
    using assms by (auto simp: aggregateQuerySamples_def split: sum.splits if_splits)
  obtain l c t where l: "latest_calls ss (0, 0, []) = (l, c, t)" by (metis prod.exhaust)
  have d: "d = \<lparr>qd_QueryID = format_int q, qd_QueryText = t, qd_Calls = c, qd_MeanExecMs = sum_list (map qs_MeanExecTimeMs ss) / real (length ss),
      qd_SampleCount = length ss\<rparr>"
    using assms ss l by (simp add: aggregateQuerySamples_def)
  have "c \<in> qs_Calls ` set ss"
    using latest_calls_in [of ss 0 "[]" "(\<lambda>s. (qs_Calls s, qs_QueryText s)) ` set ss" 0] ss(2) l by (auto simp: is_zero_def)
  moreover have "\<exists>s\<in>set ss. qs_Calls s = c \<and> qs_QueryText s = t \<and> (\<forall>s'\<in>set ss. qs_RecordedAt s' \<le> qs_RecordedAt s)"
    if pos: "\<forall>s\<in>set ss. 0 < qs_RecordedAt s"
  proof -
    obtain s0 where "s0 \<in> set ss" using ss(2) by (cases ss) auto
    then have "l \<noteq> 0" using latest_calls_max [OF pos, of 0 0 "[]"] pos l by fastforce
    then show ?thesis using latest_calls_max [OF pos, of 0 0 "[]"] l by auto
  qed
  ultimately show ?thesis using ss d by simp
qed

lemma aggregate_all_member:
  "aggregate_all sr lo hi qs = Inr ds \<Longrightarrow> d \<in> set ds \<Longrightarrow> \<exists>q\<in>set qs. aggregateQuerySamples sr q lo hi = Inr (Some d)"
  by (induction qs arbitrary: ds) (auto split: sum.splits option.splits)

section \<open>Properties\<close>

text \<open>C34: The two query routes agree. For every entry of the query list, over the default window or the one asked for, the
  samples route with the entry's id as it was rendered, asked at any time for the same interval, answers with exactly
  the samples behind the entry, in their order: as many as it counts, with its mean, and the entry's call count and
  text are those of a latest one among them. Ids are 64-bit, samples are recorded after Go's zero time.\<close>

theorem dashboard_drilldown:
  assumes "dp_Body (dash_Routes h now PathQueries r) = QueriesBody ds" "d \<in> set ds"
    and "dh_SampleStore h = Some sr" "sr_AllQueryIDs sr = Inr ids" "list_all (\<lambda>q. - (2 ^ 63) \<le> q \<and> q < 2 ^ 63) ids"
    and "\<And>q lo hi ss s. sr_SamplesInRange sr q lo hi = Inr ss \<Longrightarrow> s \<in> set ss \<Longrightarrow> 0 < qs_RecordedAt s"
    and "case map_get [] (dr_Query r) ''windowMinutes'' of [] \<Rightarrow> n = 60 | raw \<Rightarrow> parse_int raw = Some n"
    and "dr_Method r' = ''GET''" "dr_QueryID r' = qd_QueryID d"
    and "time_range h r' (time_add now' (dur_mul (- 60) minute_d)) now' = Inr (time_add now (dur_mul (- n) minute_d), now)"
  shows "\<exists>q ss s. q \<in> set ids \<and> sr_SamplesInRange sr q (time_add now (dur_mul (- n) minute_d)) now = Inr ss \<and> qd_QueryID d = format_int q \<and>
    dp_Body (dash_Routes h now' PathQuerySamples r') = SamplesBody (map to_sample_dto ss) \<and>
    qd_SampleCount d = length ss \<and> qd_MeanExecMs d = sum_list (map qs_MeanExecTimeMs ss) / real (length ss) \<and>
    s \<in> set ss \<and> (\<forall>s'\<in>set ss. qs_RecordedAt s' \<le> qs_RecordedAt s) \<and> qd_Calls d = qs_Calls s \<and> qd_QueryText d = qs_QueryText s"
proof -
  let ?lo = "time_add now (dur_mul (- n) minute_d)"
  have "aggregate_all sr ?lo now ids = Inr ds"
    using assms(1,3,4,7)
    by (auto simp: dash_Routes_def withCORS_def handleQueries_def allowGET_def writeError_def writeJSON_def Let_def defaultQueriesWindowMinutes_def
        split: if_splits sum.splits option.splits list.splits)
  from aggregate_all_member [OF this assms(2)] obtain q where q: "q \<in> set ids" "aggregateQuerySamples sr q ?lo now = Inr (Some d)" by blast
  from aggregate_Some [OF q(2)] assms(6) obtain ss s where ss: "sr_SamplesInRange sr q ?lo now = Inr ss" "qd_QueryID d = format_int q"
    "qd_SampleCount d = length ss" "qd_MeanExecMs d = sum_list (map qs_MeanExecTimeMs ss) / real (length ss)"
    "s \<in> set ss" "qs_Calls s = qd_Calls d" "qs_QueryText s = qd_QueryText d" "\<forall>s'\<in>set ss. qs_RecordedAt s' \<le> qs_RecordedAt s" by blast
  have "parse_int (qd_QueryID d) = Some q" using q(1) assms(5) parse_format_int ss(2) by (simp add: list_all_iff)
  then have "dp_Body (dash_Routes h now' PathQuerySamples r') = SamplesBody (map to_sample_dto ss)"
    using assms(3,8-10) ss(1)
    by (simp add: dash_Routes_def withCORS_def handleQuerySamples_def allowGET_def writeJSON_def Let_def defaultQueriesWindowMinutes_def)
  then show ?thesis using q(1) ss by (intro exI [of _ q] exI [of _ ss] exI [of _ s]) simp
qed

section \<open>Witnesses\<close>

definition early_sample :: query_sample where "early_sample = (sample_at 7 40)\<lparr>qs_Calls := 3\<rparr>"
definition late_sample :: query_sample where "late_sample = (sample_at 7 45)\<lparr>qs_Calls := 9, qs_MeanExecTimeMs := 3\<rparr>"

definition sample_reader_7 :: sample_reader where
  "sample_reader_7 = \<lparr>sr_SamplesInRange = (\<lambda>q lo hi. if q = 7 then Inr [early_sample, late_sample] else Inr []), sr_AllQueryIDs = Inr [-3, 7]\<rparr>"

definition sample_dash :: dash_handler where
  "sample_dash = \<lparr>dh_Client = None, dh_EventStore = None, dh_SampleStore = Some sample_reader_7,
     dh_ParseTime = (\<lambda>s. if s = ''end'' then Inr 50 else Inr (time_add 50 (dur_mul (- 5) minute_d)))\<rparr>"

definition sample_get :: dash_request where "sample_get = \<lparr>dr_Method = ''GET'', dr_Query = [(''windowMinutes'', ''5'')], dr_QueryID = []\<rparr>"

definition sample_entry :: query_dto where
  "sample_entry = \<lparr>qd_QueryID = ''7'', qd_QueryText = ''select 1'', qd_Calls = 9, qd_MeanExecMs = 2, qd_SampleCount = 2\<rparr>"

theorem dashboard_drilldown_witness:
  "\<exists>ss. dp_Body (dash_Routes sample_dash 99 PathQuerySamples \<lparr>dr_Method = ''GET'', dr_Query = [(''since'', ''start''), (''until'', ''end'')], dr_QueryID = ''7''\<rparr>) = SamplesBody ss \<and>
    length ss = 2 \<and> 9 \<in> sd_Calls ` set ss"
proof -
  let ?r = "\<lparr>dr_Method = ''GET'', dr_Query = [(''since'', ''start''), (''until'', ''end'')], dr_QueryID = ''7''\<rparr>"
  have f: "format_int 7 = ''7''" "parse_int ''5'' = Some 5" by code_simp+
  have body: "dp_Body (dash_Routes sample_dash 50 PathQueries sample_get) = QueriesBody [sample_entry]"
    by (simp add: dash_Routes_def withCORS_def handleQueries_def allowGET_def writeJSON_def Let_def sample_dash_def sample_get_def sample_reader_7_def
        aggregateQuerySamples_def f sample_entry_def early_sample_def late_sample_def sample_at_def time_after_def is_zero_def)
  have "0 < qs_RecordedAt s" if "sr_SamplesInRange sample_reader_7 q lo hi = Inr ss" "s \<in> set ss" for q lo hi ss s
    using that by (auto simp: sample_reader_7_def early_sample_def late_sample_def sample_at_def split: if_splits)
  then have "\<exists>q ss s. dp_Body (dash_Routes sample_dash 99 PathQuerySamples ?r) = SamplesBody (map to_sample_dto ss) \<and>
      qd_SampleCount sample_entry = length ss \<and> s \<in> set ss \<and> qd_Calls sample_entry = qs_Calls s"
    using dashboard_drilldown [OF body, of sample_entry sample_reader_7 "[-3, 7]" 5 ?r 99]
    by (simp add: sample_dash_def sample_reader_7_def sample_get_def f time_range_def sample_entry_def) blast
  then show ?thesis by (auto simp: sample_entry_def to_sample_dto_def image_image image_iff)
qed

end
