(* ===== verification/Postgres_Store.thy ===== *)
theory Postgres_Store
  imports Collector
begin

text \<open>
  The durable store (\<open>internal/storage/postgres\<close>). Its operations are SQL statements; their meaning is
  written out on the two tables, as lists of rows in the order of insertion. Two things belong to the
  server and are arguments: \<open>ts\<close>, what a \<open>TIMESTAMPTZ\<close> column or parameter keeps of a time (the
  documentation promises a resolution of one microsecond), and the faults, the errors that the
  driver reports for a statement, for scanning a row and at the end of the rows. A statement that fails changes nothing.
  Rows with equal times come in an order that SQL leaves open; here it is that of insertion. The
  statements of the migration are text for a server that is an argument.
\<close>

section \<open>Tables\<close>

record sample_row =
  sr_id :: int
  sr_query_id :: queryid
  sr_query_text :: string
  sr_calls :: int
  sr_total_exec_time_ms :: real
  sr_mean_exec_time_ms :: real
  sr_recorded_at :: gtime

text \<open>The columns of \<open>deploy_events\<close> are the fields of a deploy event.\<close>

record radar_tables =
  tb_next_id :: int
  tb_query_samples :: "sample_row list"
  tb_deploy_events :: "deploy_event list"

definition empty_tables :: radar_tables where
  "empty_tables = \<lparr>tb_next_id = 1, tb_query_samples = [], tb_deploy_events = []\<rparr>"

record faults =
  ft_query :: "string option"
  ft_scan :: "nat \<Rightarrow> string option"
  ft_rows :: "string option"

definition no_faults :: faults where "no_faults = \<lparr>ft_query = None, ft_scan = (\<lambda>i. None), ft_rows = None\<rparr>"

fun scan_rows :: "string \<Rightarrow> (nat \<Rightarrow> string option) \<Rightarrow> ('r \<Rightarrow> 'a) \<Rightarrow> nat \<Rightarrow> 'r list \<Rightarrow> 'a list \<Rightarrow> string + 'a list" where
  "scan_rows msg fault scan i [] out = Inr out"
| "scan_rows msg fault scan i (r # rs) out =
     (case fault i of Some err \<Rightarrow> Inl (msg @ '': '' @ err) | None \<Rightarrow> scan_rows msg fault scan (i + 1) rs (out @ [scan r]))"

definition read_rows :: "string \<Rightarrow> string \<Rightarrow> string \<Rightarrow> faults \<Rightarrow> ('r \<Rightarrow> 'a) \<Rightarrow> 'r list \<Rightarrow> string + 'a list" where
  "read_rows qmsg smsg imsg ft scan rs =
     (case ft_query ft of
        Some err \<Rightarrow> Inl (qmsg @ '': '' @ err)
      | None \<Rightarrow>
          (case scan_rows smsg (ft_scan ft) scan 0 rs [] of
             Inl err \<Rightarrow> Inl err
           | Inr out \<Rightarrow> (case ft_rows ft of Some err \<Rightarrow> Inl (imsg @ '': '' @ err) | None \<Rightarrow> Inr out)))"

section \<open>Samples\<close>

definition scan_sample :: "sample_row \<Rightarrow> query_sample" where
  "scan_sample r = \<lparr>qs_QueryID = sr_query_id r, qs_QueryText = sr_query_text r, qs_Calls = sr_calls r, qs_TotalExecTimeMs = sr_total_exec_time_ms r,
     qs_MeanExecTimeMs = sr_mean_exec_time_ms r, qs_RecordedAt = sr_recorded_at r, qs_Fingerprint = []\<rparr>"

definition sample_row_of :: "(gtime \<Rightarrow> gtime) \<Rightarrow> int \<Rightarrow> query_sample \<Rightarrow> sample_row" where
  "sample_row_of ts i s = \<lparr>sr_id = i, sr_query_id = qs_QueryID s, sr_query_text = qs_QueryText s, sr_calls = qs_Calls s,
     sr_total_exec_time_ms = qs_TotalExecTimeMs s, sr_mean_exec_time_ms = qs_MeanExecTimeMs s, sr_recorded_at = ts (qs_RecordedAt s)\<rparr>"

definition pgs_Append :: "(gtime \<Rightarrow> gtime) \<Rightarrow> string option \<Rightarrow> query_sample \<Rightarrow> radar_tables \<Rightarrow> string option \<times> radar_tables" where
  "pgs_Append ts fault s db =
     (case fault of
        Some err \<Rightarrow> (Some (''storage/postgres: append sample (query_id='' @ format_int (qs_QueryID s) @ ''): '' @ err), db)
      | None \<Rightarrow> (None, db\<lparr>tb_next_id := tb_next_id db + 1, tb_query_samples := tb_query_samples db @ [sample_row_of ts (tb_next_id db) s]\<rparr>))"

definition pgs_SamplesInRange :: "(gtime \<Rightarrow> gtime) \<Rightarrow> faults \<Rightarrow> queryid \<Rightarrow> gtime \<Rightarrow> gtime \<Rightarrow> radar_tables \<Rightarrow> string + query_sample list" where
  "pgs_SamplesInRange ts ft q lo hi db =
     read_rows (''storage/postgres: samples in range (query_id='' @ format_int q @ '')'') ''storage/postgres: scan sample row''
       ''storage/postgres: iterate sample rows'' ft scan_sample
       (sort_key sr_recorded_at
          (filter (\<lambda>r. sr_query_id r = q \<and> ts lo \<le> sr_recorded_at r \<and> sr_recorded_at r \<le> ts hi) (tb_query_samples db)))"

definition pgs_AllQueryIDs :: "faults \<Rightarrow> radar_tables \<Rightarrow> string + queryid list" where
  "pgs_AllQueryIDs ft db =
     read_rows ''storage/postgres: all query ids'' ''storage/postgres: scan query id'' ''storage/postgres: iterate query id rows'' ft (\<lambda>q. q)
       (sort (remdups (map sr_query_id (tb_query_samples db))))"

definition pgs_Prune :: "(gtime \<Rightarrow> gtime) \<Rightarrow> string option \<Rightarrow> gtime \<Rightarrow> radar_tables \<Rightarrow> string option \<times> radar_tables" where
  "pgs_Prune ts fault olderThan db =
     (case fault of
        Some err \<Rightarrow> (Some (''storage/postgres: prune samples: '' @ err), db)
      | None \<Rightarrow> (None, db\<lparr>tb_query_samples := filter (\<lambda>r. \<not> sr_recorded_at r < ts olderThan) (tb_query_samples db)\<rparr>))"

section \<open>Events\<close>

definition upsert_event :: "deploy_event \<Rightarrow> deploy_event list \<Rightarrow> deploy_event list" where
  "upsert_event ev rows =
     (if ev_ID ev \<in> ev_ID ` set rows then map (\<lambda>r. if ev_ID r = ev_ID ev then ev else r) rows else rows @ [ev])"

definition pge_Add :: "(gtime \<Rightarrow> gtime) \<Rightarrow> string option \<Rightarrow> deploy_event \<Rightarrow> radar_tables \<Rightarrow> string option \<times> radar_tables" where
  "pge_Add ts fault ev db =
     (case fault of
        Some err \<Rightarrow> (Some (''storage/postgres: add event (id='' @ ev_ID ev @ ''): '' @ err), db)
      | None \<Rightarrow> (None, db\<lparr>tb_deploy_events := upsert_event (at_resolution ts ev) (tb_deploy_events db)\<rparr>))"

definition scanDeployEvents :: "string \<Rightarrow> faults \<Rightarrow> deploy_event list \<Rightarrow> string + deploy_event list" where
  "scanDeployEvents qmsg ft rs = read_rows qmsg ''storage/postgres: scan event row'' ''storage/postgres: iterate event rows'' ft (\<lambda>r. r) rs"

definition pge_EventsInRange :: "(gtime \<Rightarrow> gtime) \<Rightarrow> faults \<Rightarrow> gtime \<Rightarrow> gtime \<Rightarrow> radar_tables \<Rightarrow> string + deploy_event list" where
  "pge_EventsInRange ts ft lo hi db =
     scanDeployEvents ''storage/postgres: events in range'' ft
       (sort_key ev_Timestamp (filter (\<lambda>r. ts lo \<le> ev_Timestamp r \<and> ev_Timestamp r \<le> ts hi) (tb_deploy_events db)))"

definition pge_All :: "faults \<Rightarrow> radar_tables \<Rightarrow> string + deploy_event list" where
  "pge_All ft db = scanDeployEvents ''storage/postgres: all events'' ft (sort_key ev_Timestamp (tb_deploy_events db))"

definition pge_Prune :: "(gtime \<Rightarrow> gtime) \<Rightarrow> string option \<Rightarrow> gtime \<Rightarrow> radar_tables \<Rightarrow> string option \<times> radar_tables" where
  "pge_Prune ts fault olderThan db =
     (case fault of
        Some err \<Rightarrow> (Some (''storage/postgres: prune events: '' @ err), db)
      | None \<Rightarrow> (None, db\<lparr>tb_deploy_events := filter (\<lambda>r. \<not> ev_Timestamp r < ts olderThan) (tb_deploy_events db)\<rparr>))"

section \<open>Migration\<close>

definition tabs :: "nat \<Rightarrow> string" where "tabs n = replicate n (CHR 0x09)"

definition migrationStatements :: "string list" where
  "migrationStatements =
    [''CREATE SCHEMA IF NOT EXISTS regression_radar'',
     ''CREATE TABLE IF NOT EXISTS regression_radar.query_samples ('' @ lf @
      tabs 2 @ ''id                  BIGSERIAL PRIMARY KEY,'' @ lf @
      tabs 2 @ ''query_id            BIGINT NOT NULL,'' @ lf @
      tabs 2 @ ''query_text          TEXT NOT NULL,'' @ lf @
      tabs 2 @ ''calls               BIGINT NOT NULL,'' @ lf @
      tabs 2 @ ''total_exec_time_ms  DOUBLE PRECISION NOT NULL,'' @ lf @
      tabs 2 @ ''mean_exec_time_ms   DOUBLE PRECISION NOT NULL,'' @ lf @
      tabs 2 @ ''recorded_at         TIMESTAMPTZ NOT NULL'' @ lf @
      tabs 1 @ '')'',
     ''CREATE INDEX IF NOT EXISTS idx_query_samples_queryid_recorded_at'' @ lf @
      tabs 2 @ ''ON regression_radar.query_samples (query_id, recorded_at)'',
     ''CREATE INDEX IF NOT EXISTS idx_query_samples_recorded_at'' @ lf @
      tabs 2 @ ''ON regression_radar.query_samples (recorded_at)'',
     ''CREATE TABLE IF NOT EXISTS regression_radar.deploy_events ('' @ lf @
      tabs 2 @ ''id               TEXT PRIMARY KEY,'' @ lf @
      tabs 2 @ ''source           TEXT NOT NULL DEFAULT '' @ [CHR 0x27] @ [CHR 0x27] @ '','' @ lf @
      tabs 2 @ ''app              TEXT NOT NULL DEFAULT '' @ [CHR 0x27] @ [CHR 0x27] @ '','' @ lf @
      tabs 2 @ ''cluster          TEXT NOT NULL DEFAULT '' @ [CHR 0x27] @ [CHR 0x27] @ '','' @ lf @
      tabs 2 @ ''namespace        TEXT NOT NULL DEFAULT '' @ [CHR 0x27] @ [CHR 0x27] @ '','' @ lf @
      tabs 2 @ ''revision         TEXT NOT NULL DEFAULT '' @ [CHR 0x27] @ [CHR 0x27] @ '','' @ lf @
      tabs 2 @ ''image_tag        TEXT NOT NULL DEFAULT '' @ [CHR 0x27] @ [CHR 0x27] @ '','' @ lf @
      tabs 2 @ ''event_timestamp  TIMESTAMPTZ NOT NULL'' @ lf @
      tabs 1 @ '')'',
     ''CREATE INDEX IF NOT EXISTS idx_deploy_events_event_timestamp'' @ lf @
      tabs 2 @ ''ON regression_radar.deploy_events (event_timestamp)'']"

definition firstLine :: "string \<Rightarrow> string" where
  "firstLine stmt =
     (case List.find (\<lambda>l. trim_space l \<noteq> []) (split_on (CHR 10) stmt) of None \<Rightarrow> stmt | Some l \<Rightarrow> trim_space l)"

fun migrate_loop :: "(string \<Rightarrow> 's \<Rightarrow> string option \<times> 's) \<Rightarrow> string list \<Rightarrow> 's \<Rightarrow> string option \<times> 's" where
  "migrate_loop exec [] s = (None, s)"
| "migrate_loop exec (stmt # stmts) s =
     (case exec stmt s of
        (Some err, s') \<Rightarrow> (Some (''storage/postgres: migrate ('' @ firstLine stmt @ ''): '' @ err), s')
      | (None, s') \<Rightarrow> migrate_loop exec stmts s')"

definition Migrate :: "(string \<Rightarrow> 's \<Rightarrow> string option \<times> 's) \<Rightarrow> 's \<Rightarrow> string option \<times> 's" where
  "Migrate exec s = migrate_loop exec migrationStatements s"

definition pg_Open :: "(string \<Rightarrow> string option) \<Rightarrow> (string \<Rightarrow> string option) \<Rightarrow> (string \<Rightarrow> 's \<Rightarrow> string option \<times> 's) \<Rightarrow> string \<Rightarrow> 's \<Rightarrow> string option \<times> 's" where
  "pg_Open open_db ping exec dsn s =
     (case open_db dsn of
        Some err \<Rightarrow> (Some (''storage/postgres: open: '' @ err), s)
      | None \<Rightarrow>
          (case ping dsn of
             Some err \<Rightarrow> (Some (''storage/postgres: ping: '' @ err), s)
           | None \<Rightarrow> Migrate exec s))"

section \<open>Reading\<close>

lemma scan_rows_ok: "(\<forall>i. fault i = None) \<Longrightarrow> scan_rows msg fault scan n rs out = Inr (out @ map scan rs)"
  by (induction rs arbitrary: n out) auto

lemma read_rows_ok [simp]: "read_rows qmsg smsg imsg no_faults scan rs = Inr (map scan rs)"
  by (simp add: read_rows_def no_faults_def scan_rows_ok)

text \<open>Under any faults a read answers with all rows or with an error, never with a part of the rows.\<close>

lemma scan_rows_all: "scan_rows msg fault scan n rs out = Inr xs \<Longrightarrow> xs = out @ map scan rs"
  by (induction rs arbitrary: n out) (fastforce split: option.splits)+

lemma read_rows_all: "read_rows qmsg smsg imsg ft scan rs = Inr xs \<Longrightarrow> xs = map scan rs"
  by (auto simp: read_rows_def dest: scan_rows_all split: option.splits sum.splits)

section \<open>The storage contracts\<close>

definition pg_resolution :: "(gtime \<Rightarrow> gtime) \<Rightarrow> bool" where
  "pg_resolution ts \<longleftrightarrow> mono ts \<and> (\<forall>t. ts (ts t) = ts t) \<and> (\<forall>t. \<bar>ts t - t\<bar> < 1000)"

typedef pg_clock = "{ts. pg_resolution ts}" morphisms keeps Abs_pg_clock
  by (rule exI [of _ "\<lambda>t. t"]) (simp add: pg_resolution_def mono_def)

definition pg_stored :: "(gtime \<Rightarrow> gtime) \<Rightarrow> query_sample \<Rightarrow> query_sample" where
  "pg_stored ts s = s\<lparr>qs_RecordedAt := ts (qs_RecordedAt s), qs_Fingerprint := []\<rparr>"

definition right_of :: "'e + 'a list \<Rightarrow> 'a list" where
  "right_of r = (case r of Inl err \<Rightarrow> [] | Inr xs \<Rightarrow> xs)"

definition pg_samples :: "radar_tables \<Rightarrow> query_sample list" where
  "pg_samples db = map scan_sample (tb_query_samples db)"

lemma scan_sample_of_row: "scan_sample (sample_row_of ts i s) = pg_stored ts s"
  by (simp add: scan_sample_def sample_row_of_def pg_stored_def)

lemma insort_key_map: "insort_key k (f x) (map f xs) = map f (insort_key (\<lambda>x. k (f x)) x xs)"
  by (induction xs) auto

lemma sort_key_map: "sort_key k (map f xs) = map f (sort_key (\<lambda>x. k (f x)) xs)"
  by (induction xs) (simp_all add: insort_key_map)

lemma pgs_range_eq:
  "pgs_SamplesInRange ts no_faults q lo hi db =
     Inr (sort_key qs_RecordedAt (filter (\<lambda>x. qs_QueryID x = q \<and> ts lo \<le> qs_RecordedAt x \<and> qs_RecordedAt x \<le> ts hi) (pg_samples db)))"
  by (simp add: pgs_SamplesInRange_def pg_samples_def sort_key_map scan_sample_def filter_map comp_def)

lemma pgs_ids_eq: "pgs_AllQueryIDs no_faults db = Inr (sort (remdups (map qs_QueryID (pg_samples db))))"
  by (simp add: pgs_AllQueryIDs_def pg_samples_def comp_def scan_sample_def)

interpretation pg_store: sample_store "keeps k" "\<lambda>db. True" "\<lambda>t db. snd (pgs_Prune (keeps k) None t db)" pg_samples qs_RecordedAt
  "\<lambda>x db. snd (pgs_Append (keeps k) None x db)" "\<lambda>q lo hi db. right_of (pgs_SamplesInRange (keeps k) no_faults q lo hi db)"
  "\<lambda>db. right_of (pgs_AllQueryIDs no_faults db)" "pg_stored (keeps k)" for k
proof unfold_locales
  fix db t x
  show "pg_samples (snd (pgs_Prune (keeps k) None t db)) = filter (\<lambda>x. \<not> qs_RecordedAt x < keeps k t) (pg_samples db)"
    by (simp add: pg_samples_def pgs_Prune_def filter_map comp_def scan_sample_def)
  show "mset (pg_samples (snd (pgs_Append (keeps k) None x db))) = add_mset (pg_stored (keeps k) x) (mset (pg_samples db))"
    by (simp add: pg_samples_def pgs_Append_def scan_sample_of_row)
qed (auto simp: right_of_def pgs_range_eq pgs_ids_eq pg_stored_def)

lemma upsert_ids: "map ev_ID (upsert_event ev rows) = set_add (ev_ID ev) (map ev_ID rows)"
  by (auto simp: upsert_event_def set_add_def)

lemma upsert_others: "filter (\<lambda>x. ev_ID x \<noteq> ev_ID ev) (upsert_event ev rows) = filter (\<lambda>x. ev_ID x \<noteq> ev_ID ev) rows"
proof -
  have "filter (\<lambda>x. ev_ID x \<noteq> ev_ID ev) (map (\<lambda>x. if ev_ID x = ev_ID ev then ev else x) rows) = filter (\<lambda>x. ev_ID x \<noteq> ev_ID ev) rows"
    by (induction rows) auto
  then show ?thesis by (simp add: upsert_event_def)
qed

lemma upsert_upsert: "upsert_event ev (upsert_event ev rows) = upsert_event ev rows"
proof -
  have known: "ev_ID ev \<in> ev_ID ` set (upsert_event ev rows)"
    using arg_cong [OF upsert_ids, of set] by (simp add: set_add_def)
  have "(if ev_ID r = ev_ID ev then ev else r) = r" if "r \<in> set (upsert_event ev rows)" for r
    using that by (auto simp: upsert_event_def image_iff split: if_splits)
  then show ?thesis using known by (subst upsert_event_def) (simp cong: map_cong)
qed

lemma pge_range_eq:
  "pge_EventsInRange ts no_faults lo hi db = Inr (sort_key ev_Timestamp (range_filter ev_Timestamp (ts lo) (ts hi) (tb_deploy_events db)))"
  by (simp add: pge_EventsInRange_def scanDeployEvents_def range_filter_def)

interpretation pg_events: event_store "keeps k" "\<lambda>db. distinct (map ev_ID (tb_deploy_events db))" "\<lambda>e db. snd (pge_Add (keeps k) None e db)"
  tb_deploy_events "\<lambda>lo hi db. right_of (pge_EventsInRange (keeps k) no_faults lo hi db)" for k
proof unfold_locales
  fix db :: radar_tables and e assume ok: "distinct (map ev_ID (tb_deploy_events db))"
  let ?e = "at_resolution (keeps k) e"
  have id: "ev_ID ?e = ev_ID e" by (simp add: at_resolution_def)
  have add: "tb_deploy_events (snd (pge_Add (keeps k) None e s)) = upsert_event ?e (tb_deploy_events s)" for s by (simp add: pge_Add_def)
  show "distinct (map ev_ID (tb_deploy_events (snd (pge_Add (keeps k) None e db))))"
    using ok unfolding add upsert_ids by (simp add: set_add_def)
  show "map ev_ID (tb_deploy_events (snd (pge_Add (keeps k) None e db))) = set_add (ev_ID e) (map ev_ID (tb_deploy_events db))"
    unfolding add upsert_ids id ..
  show "filter (\<lambda>x. ev_ID x \<noteq> ev_ID e) (tb_deploy_events (snd (pge_Add (keeps k) None e db))) =
      filter (\<lambda>x. ev_ID x \<noteq> ev_ID e) (tb_deploy_events db)"
    using upsert_others [of ?e] unfolding add id .
  show "?e \<in> set (tb_deploy_events (snd (pge_Add (keeps k) None e db)))"
    unfolding add by (auto simp: upsert_event_def)
  show "tb_deploy_events (snd (pge_Add (keeps k) None e (snd (pge_Add (keeps k) None e db)))) = tb_deploy_events (snd (pge_Add (keeps k) None e db))"
    unfolding add by (rule upsert_upsert)
qed (simp_all add: right_of_def pge_range_eq)

interpretation pg_event_pruner: pruner "keeps k" "\<lambda>db. distinct (map ev_ID (tb_deploy_events db))" "\<lambda>t db. snd (pge_Prune (keeps k) None t db)"
  tb_deploy_events ev_Timestamp for k
  by unfold_locales (auto simp: pge_Prune_def distinct_map inj_on_def)

section \<open>Reading back a whole window\<close>

lemma mset_concat_buckets:
  assumes "distinct qs" "key ` set xs \<subseteq> set qs"
  shows "mset (concat (map (\<lambda>q. filter (\<lambda>x. key x = q) xs) qs)) = mset xs"
proof -
  have "mset (concat (map (\<lambda>q. filter (\<lambda>x. key x = q) xs) qs)) = mset (filter (\<lambda>x. key x \<in> set qs) xs)"
    using assms(1)
  proof (induction qs)
    case (Cons q qs)
    have "q \<notin> set qs" using Cons.prems by simp
    then have "filter_mset (\<lambda>x. key x = q) (mset xs) + filter_mset (\<lambda>x. key x \<in> set qs) (mset xs) =
        filter_mset (\<lambda>x. key x = q \<or> key x \<in> set qs) (mset xs)"
      by (induction xs) auto
    then show ?case using Cons by simp
  qed simp
  also have "filter (\<lambda>x. key x \<in> set qs) xs = xs" using assms(2) by (auto simp: filter_id_conv)
  finally show ?thesis .
qed

context sample_store
begin

lemma all_ranges:
  assumes "ok s"
  shows "mset (concat (map (\<lambda>q. range q lo hi s) (ids s))) =
    mset (filter (\<lambda>x. tm lo \<le> qs_RecordedAt x \<and> qs_RecordedAt x \<le> tm hi) (items s))"
proof -
  let ?xs = "filter (\<lambda>x. tm lo \<le> qs_RecordedAt x \<and> qs_RecordedAt x \<le> tm hi) (items s)"
  have "mset (range q lo hi s) = mset (filter (\<lambda>x. qs_QueryID x = q) ?xs)" for q
    by (simp add: range_items [OF assms] conj_commute)
  then have "mset (concat (map (\<lambda>q. range q lo hi s) (ids s))) = mset (concat (map (\<lambda>q. filter (\<lambda>x. qs_QueryID x = q) ?xs) (ids s)))"
    by (induction "ids s") (simp_all add: mset_concat comp_def)
  also have "\<dots> = mset ?xs"
    using ids_sorted [OF assms] ids_items [OF assms] by (intro mset_concat_buckets) auto
  finally show ?thesis .
qed

text \<open>What the store returns of a window, after these appends and this sweep.\<close>

lemma history_ranges:
  assumes "ok s" "items s = []"
  shows "mset (concat (map (\<lambda>q. range q lo hi (prune t (fold append xs s))) (ids (prune t (fold append xs s))))) =
    mset (map stored (filter (\<lambda>x. max (tm lo) (tm t) \<le> tm (qs_RecordedAt x) \<and> tm (qs_RecordedAt x) \<le> tm hi) xs))"
proof -
  have ok: "ok (fold append xs s)" and items: "mset (items (fold append xs s)) = mset (map stored xs)"
    using append_all_items [OF assms(1)] assms(2) by simp_all
  have "mset (filter P (items (fold append xs s))) = mset (filter P (map stored xs))" for P
    using items by (simp only: mset_filter)
  then show ?thesis unfolding all_ranges [OF prune_ok [OF ok]] prune_items [OF ok] stamp_recorded
    by (simp add: filter_map comp_def stored_sample not_less conj_commute conj_left_commute)
qed

end

section \<open>Migration\<close>

text \<open>What \<open>CREATE ... IF NOT EXISTS\<close> promises: a statement that succeeded has made its object, an object that
  was made stays, and the statement then changes nothing.\<close>

definition if_not_exists :: "(string \<Rightarrow> 's \<Rightarrow> string option \<times> 's) \<Rightarrow> (string \<Rightarrow> 's \<Rightarrow> bool) \<Rightarrow> bool" where
  "if_not_exists exec made \<longleftrightarrow>
     (\<forall>stmt s s'. exec stmt s = (None, s') \<longrightarrow> made stmt s') \<and>
     (\<forall>stmt stmt' s. made stmt s \<longrightarrow> made stmt (snd (exec stmt' s))) \<and>
     (\<forall>stmt s. made stmt s \<longrightarrow> exec stmt s = (None, s))"

lemma migrate_loop_made:
  assumes "if_not_exists exec made" "migrate_loop exec stmts s = (None, s')"
  shows "(\<forall>stmt\<in>set stmts. made stmt s') \<and> (\<forall>stmt. made stmt s \<longrightarrow> made stmt s')"
  using assms(2)
proof (induction stmts arbitrary: s)
  case (Cons stmt stmts)
  obtain s1 where s1: "exec stmt s = (None, s1)" "migrate_loop exec stmts s1 = (None, s')"
    using Cons.prems by (cases "exec stmt s"; cases "fst (exec stmt s)") auto
  then have "made stmt s1" "\<forall>st. made st s \<longrightarrow> made st s1" using assms(1) unfolding if_not_exists_def by (metis snd_conv)+
  then show ?case using Cons.IH [OF s1(2)] by auto
qed simp

lemma migrate_loop_again:
  assumes "if_not_exists exec made" "\<forall>stmt\<in>set stmts. made stmt s"
  shows "migrate_loop exec stmts s = (None, s)"
  using assms(2)
proof (induction stmts)
  case (Cons stmt stmts)
  then have "exec stmt s = (None, s)" using assms(1) unfolding if_not_exists_def by simp
  then show ?case using Cons by simp
qed simp

text \<open>Opening the store again, after a start that succeeded, succeeds and leaves the database as it is.\<close>

theorem open_idempotent:
  assumes "if_not_exists exec made" "pg_Open open_db ping exec dsn s = (None, s')"
  shows "pg_Open open_db ping exec dsn s' = (None, s')"
proof -
  have up: "open_db dsn = None" "ping dsn = None" "Migrate exec s = (None, s')"
    using assms(2) by (auto simp: pg_Open_def split: option.splits)
  then show ?thesis using migrate_loop_again [OF assms(1)] migrate_loop_made [OF assms(1)]
    by (simp add: pg_Open_def Migrate_def)
qed

section \<open>Restoring samples\<close>

text \<open>The table has no column for the fingerprint; the collector computes it again from the text.\<close>

lemma with_fingerprint_stored:
  "qs_Fingerprint x = fingerprintQuery (qs_QueryText x) \<Longrightarrow> with_fingerprint (pg_stored ts x) = x\<lparr>qs_RecordedAt := ts (qs_RecordedAt x)\<rparr>"
  by (simp add: with_fingerprint_def pg_stored_def)

end
