(* ===== verification/Processes.thy ===== *)
theory Processes
  imports Cli_Modes Dashboard Postgres_Store
begin

text \<open>
  The processes around the modes: the servers each of them starts (\<open>internal/httpserver\<close>, \<open>httpRunnable\<close> of
  \<open>internal/cli/manager.go\<close>, the servers of \<open>operator.go\<close>), the whole run of the manager with the report
  of a failed start, the retention loops of the operator, and the entry point
  (\<open>cmd/pg-regression-radar\<close>, \<open>internal/buildinfo\<close>). What controller-runtime answers is an argument: whether it accepts a
  controller, a check or a runnable, and the error with which the whole manager ends.
\<close>

section \<open>Servers\<close>

datatype served = ServesWebhooks | ServesMetrics | ServesDashboard dash_handler | ServesIngester

record http_server =
  sv_Addr :: string
  sv_Handler :: served
  sv_ReadHeaderTimeout :: duration
  sv_ReadTimeout :: duration
  sv_WriteTimeout :: duration
  sv_IdleTimeout :: duration

definition httpserver_New :: "string \<Rightarrow> served \<Rightarrow> http_server" where
  "httpserver_New addr handler = \<lparr>sv_Addr = addr, sv_Handler = handler, sv_ReadHeaderTimeout = 10 * second_d, sv_ReadTimeout = 30 * second_d,
     sv_WriteTimeout = 30 * second_d, sv_IdleTimeout = 120 * second_d\<rparr>"

text \<open>\<open>ListenAndServe\<close> always returns an error; after \<open>Shutdown\<close> it is \<open>ErrServerClosed\<close>.\<close>

datatype serve_error = ErrServerClosed | ServeError string

record http_runnable =
  hr_addr :: string
  hr_handler :: served
  hr_name :: string
  hr_leaderElectionRequired :: bool

text \<open>The two cases of the \<open>select\<close>: the context is done, or the server has ended first.\<close>

datatype runnable_end = CtxDone "string option" | ServerEnded serve_error

definition httpRunnable_Start :: "(http_server \<Rightarrow> runnable_end) \<Rightarrow> http_runnable \<Rightarrow> string option" where
  "httpRunnable_Start serve h =
     (case serve (httpserver_New (hr_addr h) (hr_handler h)) of
        CtxDone shutdown \<Rightarrow> map_option (\<lambda>err. hr_name h @ '' server shutdown: '' @ err) shutdown
      | ServerEnded (ServeError err) \<Rightarrow> Some (hr_name h @ '' server: '' @ err)
      | ServerEnded ErrServerClosed \<Rightarrow> None)"

definition needLeaderElection :: "http_runnable \<Rightarrow> bool" where
  "needLeaderElection h = hr_leaderElectionRequired h"

section \<open>The manager\<close>

definition manager_dashboard :: "dash_client \<Rightarrow> (string \<Rightarrow> string + gtime) \<Rightarrow> dash_handler" where
  "manager_dashboard client parseTime = \<lparr>dh_Client = Some client, dh_EventStore = None, dh_SampleStore = None, dh_ParseTime = parseTime\<rparr>"

definition manager_runnables :: "dash_handler \<Rightarrow> manager_flags \<Rightarrow> http_runnable list" where
  "manager_runnables dashboard fl =
     [\<lparr>hr_addr = mf_webhookAddr fl, hr_handler = ServesWebhooks, hr_name = ''webhook'', hr_leaderElectionRequired = True\<rparr>,
      \<lparr>hr_addr = mf_pgMetricsAddr fl, hr_handler = ServesMetrics, hr_name = ''pg-metrics'', hr_leaderElectionRequired = True\<rparr>] @
     (if mf_dashboardAddr fl \<noteq> [] then
        [\<lparr>hr_addr = mf_dashboardAddr fl, hr_handler = ServesDashboard dashboard, hr_name = ''dashboard-api'', hr_leaderElectionRequired = False\<rparr>]
      else [])"

record manager_env =
  me_GetConfig :: "string option"
  me_StatusClient :: "string option"
  me_NewManager :: "manager_options \<Rightarrow> string option"
  me_DynamicClient :: "string option"
  me_Client :: dash_client
  me_ParseTime :: "string \<Rightarrow> string + gtime"
  me_SetupController :: "string \<Rightarrow> string option"
  me_AddCheck :: "string \<Rightarrow> string option"
  me_Add :: "http_runnable \<Rightarrow> string option"
  me_Start :: "reconciler_cfg \<Rightarrow> http_runnable list \<Rightarrow> string option"
  me_now :: gtime
  me_watches :: "string + postgres_watch list"
  me_updateWatch :: "postgres_watch \<Rightarrow> string option"
  me_sources :: "string + source_object list"
  me_updateSource :: "source_object \<Rightarrow> string option"

datatype manager_parse = ManagerHelp | ManagerInvalid | ManagerParsed manager_flags

text \<open>What a run leaves: the exit code, and the objects whose status it submitted because it could not run.\<close>

record manager_outcome =
  mo_exit :: int
  mo_watches :: "postgres_watch list"
  mo_sources :: "source_object list"

definition exit_with :: "int \<Rightarrow> manager_outcome" where
  "exit_with code = \<lparr>mo_exit = code, mo_watches = [], mo_sources = []\<rparr>"

definition start_failed :: "manager_env \<Rightarrow> string \<Rightarrow> manager_outcome" where
  "start_failed env err =
     (if me_StatusClient env \<noteq> None then exit_with 1
      else (case reportManagerStartupFailureStatus (me_now env) (me_watches env) (me_updateWatch env) (me_sources env) (me_updateSource env) err of
              (errs, ws, ss) \<Rightarrow> \<lparr>mo_exit = 1, mo_watches = ws, mo_sources = ss\<rparr>))"

definition runManager :: "manager_env \<Rightarrow> manager_parse \<Rightarrow> manager_outcome" where
  "runManager env parsed =
     (case parsed of
        ManagerHelp \<Rightarrow> exit_with 0
      | ManagerInvalid \<Rightarrow> exit_with 2
      | ManagerParsed fl \<Rightarrow>
          (case manager_setup (me_GetConfig env) (me_NewManager env) (me_DynamicClient env) fl of
             Inl code \<Rightarrow> exit_with code
           | Inr cfg \<Rightarrow>
               if list_ex (\<lambda>c. me_SetupController env c \<noteq> None) [''PostgresWatch'', ''DeploySource'', ''WorkloadWatch''] then exit_with 1
               else if list_ex (\<lambda>c. me_AddCheck env c \<noteq> None) [''healthz'', ''readyz''] then exit_with 1
               else (let rs = manager_runnables (manager_dashboard (me_Client env) (me_ParseTime env)) fl
                     in if list_ex (\<lambda>h. me_Add env h \<noteq> None) rs then exit_with 1
                        else (case me_Start env cfg rs of None \<Rightarrow> exit_with 0 | Some err \<Rightarrow> start_failed env err))))"

section \<open>The operator\<close>

text \<open>The readers of the dashboard: the durable store if there is one, otherwise the collector and the event store of the process.\<close>

definition pg_sample_reader :: "(gtime \<Rightarrow> gtime) \<Rightarrow> faults \<Rightarrow> radar_tables \<Rightarrow> sample_reader" where
  "pg_sample_reader ts ft db = \<lparr>sr_SamplesInRange = (\<lambda>q lo hi. pgs_SamplesInRange ts ft q lo hi db), sr_AllQueryIDs = pgs_AllQueryIDs ft db\<rparr>"

definition pg_event_reader :: "(gtime \<Rightarrow> gtime) \<Rightarrow> faults \<Rightarrow> radar_tables \<Rightarrow> event_reader" where
  "pg_event_reader ts ft db = (\<lambda>lo hi. pge_EventsInRange ts ft lo hi db)"

definition operator_dashboard :: "sample_reader \<Rightarrow> event_reader \<Rightarrow> (string \<Rightarrow> string + gtime) \<Rightarrow> operator \<Rightarrow> dash_handler" where
  "operator_dashboard sampleStore eventStore parseTime op =
     \<lparr>dh_Client = None,
      dh_EventStore = Some (if op_durable op then eventStore else ingesterEventReader (op_store op)),
      dh_SampleStore = Some (if op_durable op then sampleStore else collectorSampleReader (op_collector op)),
      dh_ParseTime = parseTime\<rparr>"

definition operator_servers :: "dash_handler \<Rightarrow> operator_flags \<Rightarrow> http_server list" where
  "operator_servers dashboard fl =
     [httpserver_New (fl_webhookListen fl) ServesWebhooks, httpserver_New (fl_metricsListen fl) ServesMetrics] @
     (if fl_dashboardListen fl \<noteq> [] then [httpserver_New (fl_dashboardListen fl) (ServesDashboard dashboard)] else [])"

text \<open>The retention loops of the durable store, with the times at which their tickers fire.\<close>

definition operator_retention :: "(gtime \<Rightarrow> gtime) \<Rightarrow> (gtime \<Rightarrow> string option) \<Rightarrow> operator_flags \<Rightarrow> gtime list \<Rightarrow> gtime list \<Rightarrow> radar_tables \<Rightarrow> radar_tables" where
  "operator_retention ts fault fl sampleTicks eventTicks db =
     runPruneLoop (\<lambda>t. pge_Prune ts (fault t) t) (fl_stateRetention fl) eventTicks
       (runPruneLoop (\<lambda>t. pgs_Prune ts (fault t) t) (fl_stateRetention fl) sampleTicks db)"

text \<open>The exit codes of the blocking calls at the end of the modes.\<close>

definition run_exit :: "string option \<Rightarrow> int" where
  "run_exit err = (if err \<noteq> None then 1 else 0)"

definition serve_exit :: "serve_error \<Rightarrow> int" where
  "serve_exit e = (case e of ErrServerClosed \<Rightarrow> 0 | ServeError err \<Rightarrow> 1)"

section \<open>Entry point\<close>

record build_info =
  bi_Version :: string
  bi_Commit :: string
  bi_Date :: string

definition default_build :: build_info where
  "default_build = \<lparr>bi_Version = ''dev'', bi_Commit = ''none'', bi_Date = ''unknown''\<rparr>"

definition buildinfo_String :: "build_info \<Rightarrow> string \<Rightarrow> string" where
  "buildinfo_String b binary = binary @ '' '' @ bi_Version b @ '' (commit '' @ bi_Commit b @ '', built '' @ bi_Date b @ '')''"

datatype mode = OperatorMode | ManagerMode | CollectorMode | IngesterMode

record process_outcome =
  po_exit :: int
  po_stdout :: string
  po_stderr :: string

definition mode_of :: "string \<Rightarrow> mode option" where
  "mode_of cmd =
     (if cmd = ''operator'' then Some OperatorMode else if cmd = ''manager'' then Some ManagerMode
      else if cmd = ''collector'' then Some CollectorMode else if cmd = ''ingester'' then Some IngesterMode else None)"

text \<open>\<open>run\<close> are the four modes, \<open>usage\<close> the help text; the arguments include the name of the program.\<close>

definition pg_main :: "(mode \<Rightarrow> string list \<Rightarrow> process_outcome) \<Rightarrow> build_info \<Rightarrow> string \<Rightarrow> string list \<Rightarrow> process_outcome" where
  "pg_main run b usage args =
     (case args of
        _ # cmd # rest \<Rightarrow>
          (case mode_of cmd of
             Some m \<Rightarrow> run m rest
           | None \<Rightarrow>
               if cmd \<in> {''version'', ''--version'', ''-v''} then
                 \<lparr>po_exit = 0, po_stdout = buildinfo_String b ''pg-regression-radar'' @ lf, po_stderr = []\<rparr>
               else if cmd \<in> {''help'', ''--help'', ''-h''} then \<lparr>po_exit = 0, po_stdout = usage, po_stderr = []\<rparr>
               else \<lparr>po_exit = 1, po_stdout = [], po_stderr = ''pg-regression-radar: unknown command '' @ go_quote cmd @ lf @ lf @ usage\<rparr>)
      | _ \<Rightarrow> \<lparr>po_exit = 1, po_stdout = [], po_stderr = usage\<rparr>)"

section \<open>Dashboards\<close>

text \<open>The two dashboards serve disjoint routes: the manager has no event and sample stores, the operator has no Kubernetes client.\<close>

lemma dashboards_split:
  assumes "dr_Method r = ''GET''"
  shows "dp_Status (dash_Routes (manager_dashboard c p) now PathDeploys r) = 501" "dp_Status (dash_Routes (manager_dashboard c p) now PathQueries r) = 501"
    "dp_Status (dash_Routes (manager_dashboard c p) now PathQuerySamples r) = 501"
    "dp_Status (dash_Routes (operator_dashboard sr er p op) now PathRegressions r) = 501"
    "dp_Status (dash_Routes (operator_dashboard sr er p op) now PathWatches r) = 501"
  using assms by (simp_all add: dash_Routes_def withCORS_def allowGET_def handleDeploys_def handleQueries_def handleQuerySamples_def
      handleRegressions_def handleWatches_def manager_dashboard_def operator_dashboard_def writeError_def writeJSON_def Let_def)

section \<open>Retention of the durable store\<close>

lemma pge_Prune_samples [simp]: "pg_samples (snd (pge_Prune ts fault t db)) = pg_samples db"
  by (cases fault) (simp_all add: pge_Prune_def pg_samples_def)

lemma pgs_Prune_events [simp]: "tb_deploy_events (snd (pgs_Prune ts fault t db)) = tb_deploy_events db"
  by (cases fault) (simp_all add: pgs_Prune_def)

lemma prune_ticks_frame: "(\<And>t s. f (snd (p t s)) = f s) \<Longrightarrow> f (prune_ticks p retention ticks s) = f s"
  by (induction ticks arbitrary: s) simp_all

lemma pge_ticks_samples: "pg_samples (prune_ticks (\<lambda>t. pge_Prune ts (fault t) t) retention ticks db) = pg_samples db"
  using prune_ticks_frame [of pg_samples "\<lambda>t. pge_Prune ts (fault t) t"] by simp

lemma pgs_ticks_events: "tb_deploy_events (prune_ticks (\<lambda>t. pgs_Prune ts (fault t) t) retention ticks db) = tb_deploy_events db"
  using prune_ticks_frame [of tb_deploy_events "\<lambda>t. pgs_Prune ts (fault t) t"] by simp

text \<open>After the sweeps, each table holds exactly the rows that were within the retention at each of its own ticks.\<close>

theorem operator_retention_exact:
  assumes "0 < fl_stateRetention fl" "fl_stateRetention fl \<le> max_duration" "distinct (map ev_ID (tb_deploy_events db))"
  shows "pg_samples (operator_retention (keeps k) (\<lambda>t. None) fl sampleTicks eventTicks db) =
      filter (\<lambda>x. \<forall>now\<in>set sampleTicks. keeps k (now - fl_stateRetention fl) \<le> qs_RecordedAt x) (pg_samples db)"
    and "tb_deploy_events (operator_retention (keeps k) (\<lambda>t. None) fl sampleTicks eventTicks db) =
      filter (\<lambda>e. \<forall>now\<in>set eventTicks. keeps k (now - fl_stateRetention fl) \<le> ev_Timestamp e) (tb_deploy_events db)"
proof -
  have fun_eq: "(\<lambda>t. pgs_Prune (keeps k) None t) = (\<lambda>t s. (None, snd (pgs_Prune (keeps k) None t s)))"
    "(\<lambda>t. pge_Prune (keeps k) None t) = (\<lambda>t s. (None, snd (pge_Prune (keeps k) None t s)))"
    by (simp_all add: fun_eq_iff pgs_Prune_def pge_Prune_def)
  show "pg_samples (operator_retention (keeps k) (\<lambda>t. None) fl sampleTicks eventTicks db) =
      filter (\<lambda>x. \<forall>now\<in>set sampleTicks. keeps k (now - fl_stateRetention fl) \<le> qs_RecordedAt x) (pg_samples db)"
    using assms(1) pg_store.prune_ticks_items [where s = db and k = k, OF _ assms(1,2)] pge_ticks_samples [where fault = "\<lambda>t. None"]
    by (simp add: operator_retention_def runPruneLoop_def fun_eq(1) [symmetric])
  show "tb_deploy_events (operator_retention (keeps k) (\<lambda>t. None) fl sampleTicks eventTicks db) =
      filter (\<lambda>e. \<forall>now\<in>set eventTicks. keeps k (now - fl_stateRetention fl) \<le> ev_Timestamp e) (tb_deploy_events db)"
    using assms(1,3) pgs_ticks_events [where fault = "\<lambda>t. None"]
      pg_event_pruner.prune_ticks_items [where s = "prune_ticks (\<lambda>t. pgs_Prune (keeps k) None t) (fl_stateRetention fl) sampleTicks db" and k = k, OF _ assms(1,2)]
    by (simp add: operator_retention_def runPruneLoop_def fun_eq(2) [symmetric])
qed

section \<open>A standby that fails\<close>

text \<open>What controller-runtime does on a replica that is not the leader: it starts the runnables that do not need leader election,
  and the error of the first one that fails ends the manager.\<close>

definition standby_start :: "(http_server \<Rightarrow> runnable_end) \<Rightarrow> http_runnable list \<Rightarrow> string option" where
  "standby_start serve rs =
     (case List.map_filter (httpRunnable_Start serve) (filter (\<lambda>h. \<not> needLeaderElection h) rs) of [] \<Rightarrow> None | err # _ \<Rightarrow> Some err)"

lemma standby_dashboard:
  assumes "mf_dashboardAddr fl \<noteq> []" "serve (httpserver_New (mf_dashboardAddr fl) (ServesDashboard dashboard)) = ServerEnded (ServeError err)"
  shows "standby_start serve (manager_runnables dashboard fl) = Some (''dashboard-api server: '' @ err)"
  using assms by (simp add: standby_start_def manager_runnables_def needLeaderElection_def httpRunnable_Start_def List.map_filter_simps)

lemma setCondition_present: "list_ex (\<lambda>c. co_Type c = co_Type cond \<and> co_Status c = co_Status cond \<and> co_Reason c = co_Reason cond) (setCondition now cond cs)"
  by (induction now cond cs rule: setCondition.induct) auto

definition marked_failed :: "postgres_watch \<Rightarrow> postgres_watch \<Rightarrow> bool" where
  "marked_failed w w' \<longleftrightarrow> pw_Key w' = pw_Key w \<and> pw_Spec w' = pw_Spec w \<and> wst_Phase (pw_Status w') = Some PhaseFailed \<and>
     list_ex (\<lambda>c. co_Type c = ''Ready'' \<and> co_Status c = ''False'' \<and> co_Reason c = ''ManagerStartupFailed'') (wst_Conditions (pw_Status w'))"

lemma failed_watch_status_marks: "marked_failed w (failed_watch_status now msg w)"
  using setCondition_present [of "ready_condition ''False'' ''ManagerStartupFailed'' msg (pw_Generation w)" now "wst_Conditions (pw_Status w)"]
  by (simp add: marked_failed_def failed_watch_status_def ready_condition_def Let_def)

text \<open>C36: A standby replica whose dashboard listener fails marks every watch as failed, although none of them is its own: the
  dashboard is the one server that runs without leadership, its error ends the manager, and the
  report of a failed start then sets the phase Failed and Ready to False on every PostgresWatch in the cluster,
  those that run under the leader included.\<close>

theorem standby_marks_watches_failed:
  assumes "manager_setup (me_GetConfig env) (me_NewManager env) (me_DynamicClient env) fl = Inr cfg"
    and "\<And>c. me_SetupController env c = None" "\<And>c. me_AddCheck env c = None" "\<And>h. me_Add env h = None"
    and "me_Start env = (\<lambda>cfg rs. standby_start serve rs)" "me_StatusClient env = None" "me_watches env = Inr ws"
    and "mf_dashboardAddr fl \<noteq> []" "\<And>h. serve (httpserver_New (mf_dashboardAddr fl) h) = ServerEnded (ServeError err)"
  shows "mo_exit (runManager env (ManagerParsed fl)) = 1 \<and> list_all2 marked_failed ws (mo_watches (runManager env (ManagerParsed fl)))"
proof -
  have "runManager env (ManagerParsed fl) = start_failed env (''dashboard-api server: '' @ err)"
    using assms(1-5) standby_dashboard [of fl serve _ err, OF assms(8,9)] by (simp add: runManager_def list_ex_iff Let_def)
  then show ?thesis using assms(6,7) failed_watch_status_marks
    by (simp add: start_failed_def reportManagerStartupFailureStatus_def reportPostgresWatchStartupFailureStatus_def Let_def list_all2_map2
        list_all2_same split: prod.splits)
qed

section \<open>Witnesses\<close>

definition manager_sample :: manager_flags where
  "manager_sample = \<lparr>mf_metricsAddr = ''0'', mf_probeAddr = '':8081'', mf_pgMetricsAddr = '':9090'', mf_webhookAddr = '':8080'', mf_dashboardAddr = '':8082'',
     mf_enableLeaderElection = True, mf_leaderElectionNamespace = [], mf_alertAllowedDestinations = [], mf_destinationPolicy = [], mf_relayURL = [],
     mf_securityProfile = ''controlled'', mf_version = False, mf_dryRun = False\<rparr>"

definition standby_env :: manager_env where
  "standby_env = \<lparr>me_GetConfig = None, me_StatusClient = None, me_NewManager = (\<lambda>o1. None), me_DynamicClient = None,
     me_Client = \<lparr>cl_regressions = (\<lambda>ns. Inr []), cl_watches = Inr []\<rparr>, me_ParseTime = (\<lambda>s. Inr 0), me_SetupController = (\<lambda>c. None),
     me_AddCheck = (\<lambda>c. None), me_Add = (\<lambda>h. None),
     me_Start = (\<lambda>cfg rs. standby_start (\<lambda>sv. if sv_Addr sv = '':8082'' then ServerEnded (ServeError ''bind: address already in use'') else CtxDone None) rs),
     me_now = 9, me_watches = Inr [started_status 5 (direct_watch ''c'')], me_updateWatch = (\<lambda>w. None), me_sources = Inr [], me_updateSource = (\<lambda>s. None)\<rparr>"

theorem standby_marks_watches_failed_witness:
  "wst_Phase (pw_Status (started_status 5 (direct_watch ''c''))) = Some PhaseRunning \<and>
   (\<exists>w. mo_watches (runManager standby_env (ManagerParsed manager_sample)) = [w] \<and> wst_Phase (pw_Status w) = Some PhaseFailed)"
proof
  have "\<exists>cfg. manager_setup None (\<lambda>o1. None) None manager_sample = Inr cfg"
    by (simp add: manager_setup_def manager_sample_def splitCommaSeparatedValues_def validateDestinationPolicy_def permissive_policy_def
        relay_only_policy_def allowlist_policy_def parse_profile_def)
  then obtain cfg where cfg: "manager_setup None (\<lambda>o1. None) None manager_sample = Inr cfg" by blast
  show "wst_Phase (pw_Status (started_status 5 (direct_watch ''c''))) = Some PhaseRunning" by (simp add: started_status_def Let_def)
  have "list_all2 marked_failed [started_status 5 (direct_watch ''c'')] (mo_watches (runManager standby_env (ManagerParsed manager_sample)))"
    using standby_marks_watches_failed [where env = standby_env and fl = manager_sample and cfg = cfg and
      serve = "\<lambda>sv. if sv_Addr sv = '':8082'' then ServerEnded (ServeError ''bind: address already in use'') else CtxDone None"]
    by (simp add: standby_env_def cfg httpserver_New_def) (simp add: manager_sample_def)
  then show "\<exists>w. mo_watches (runManager standby_env (ManagerParsed manager_sample)) = [w] \<and> wst_Phase (pw_Status w) = Some PhaseFailed"
    by (auto simp: list_all2_Cons1 marked_failed_def)
qed

end
