(* ===== verification/Manager_Runs.thy ===== *)
theory Manager_Runs
  imports Watch_Controller
begin

text \<open>
  Runs of the manager with what they hand to alerting. Every runtime on the heap, running or stopped, is a worker of
  \<open>Poll_Loop\<close>: a step of the manager takes it through deliveries, ticks and jobs, and leaves the others
  alone. The guarantee of the shared loop therefore holds for each of them over any interleaving.
\<close>

section \<open>Runs\<close>

inductive manager_run :: "manager \<Rightarrow> (addr \<times> tick_result) list \<Rightarrow> bool" where
  start: "manager_run new_manager []"
| step: "manager_run m out \<Longrightarrow> manager_step m new m' \<Longrightarrow> manager_run m' (out @ new)"

lemma manager_run_reach: "manager_run m out \<Longrightarrow> manager_reach m"
  by (induction rule: manager_run.induct) (auto intro: manager_reach.intros)

definition reports_of :: "addr \<Rightarrow> (addr \<times> tick_result) list \<Rightarrow> tick_result list" where
  "reports_of a out = map snd (filter (\<lambda>p. fst p = a) out)"

lemma reports_of_simps [simp]:
  "reports_of a [] = []" "reports_of a (xs @ ys) = reports_of a xs @ reports_of a ys"
  "reports_of a (map (Pair b) ts) = (if a = b then ts else [])"
  by (auto simp: reports_of_def filter_map comp_def)

lemma distinct_by_worker: "distinct (map (\<lambda>(a, t). (a, g t)) out) \<longleftrightarrow> (\<forall>a. distinct (map g (reports_of a out)))"
proof (induction out)
  case (Cons p out)
  obtain a t where p: "p = (a, t)" by (cases p)
  have "(a, g t) \<in> (\<lambda>(a, t). (a, g t)) ` set out \<longleftrightarrow> g t \<in> g ` set (reports_of a out)"
    by (force simp: reports_of_def)
  then show ?case using Cons by (auto simp: p reports_of_def)
qed simp

section \<open>Workers of a run\<close>

text \<open>The runtime got from one state to another as a worker, and reported this on the way.\<close>

definition advances :: "watch_runtime \<Rightarrow> tick_result list \<Rightarrow> watch_runtime \<Rightarrow> bool" where
  "advances rt new rt' \<longleftrightarrow> (\<exists>ops. \<forall>rep. worker_run runtime_deliver runtime_tick_state runtime_results runtime_job_state ops (rt, rep) = (rt', rep @ new))"

lemma advances_refl [simp]: "advances rt [] rt"
  unfolding advances_def by (rule exI [of _ "[]"]) simp

lemma advances_trans:
  assumes "advances rt xs rt'" "advances rt' ys rt''"
  shows "advances rt (xs @ ys) rt''"
proof -
  obtain ops ops' where "\<forall>rep. worker_run runtime_deliver runtime_tick_state runtime_results runtime_job_state ops (rt, rep) = (rt', rep @ xs)"
    "\<forall>rep. worker_run runtime_deliver runtime_tick_state runtime_results runtime_job_state ops' (rt', rep) = (rt'', rep @ ys)"
    using assms unfolding advances_def by blast
  then show ?thesis unfolding advances_def by (intro exI [of _ "ops @ ops'"]) (simp add: worker_run_append)
qed

lemma advances_deliver: "advances rt [] (runtime_deliver ev rt)"
  unfolding advances_def by (rule exI [of _ "[WDeliver ev]"]) simp

lemma advances_tick: "advances rt (runtime_results x rt) (runtime_tick_state x rt)"
  unfolding advances_def by (rule exI [of _ "[WTick x]"]) simp

lemma advances_job: "advances rt [] (runtime_job_state y rt)"
  unfolding advances_def by (rule exI [of _ "[WJob y]"]) simp

text \<open>What a step does to the heap: old runtimes advance, new ones are fresh.\<close>

definition fresh_runtime :: "watch_runtime \<Rightarrow> bool" where
  "fresh_runtime rt \<longleftrightarrow> rt_Store rt = zero_store \<and> rt_cursor rt = 0 \<and> rt_pending rt = []"

definition heap_advances :: "manager \<Rightarrow> (addr \<times> tick_result) list \<Rightarrow> manager \<Rightarrow> bool" where
  "heap_advances m new m' \<longleftrightarrow> length (mg_heap m) \<le> length (mg_heap m') \<and>
     (\<forall>a<length (mg_heap m). advances (at_addr m a) (reports_of a new) (at_addr m' a)) \<and>
     (\<forall>a<length (mg_heap m'). length (mg_heap m) \<le> a \<longrightarrow> fresh_runtime (at_addr m' a)) \<and>
     (\<forall>(a, t)\<in>set new. a < length (mg_heap m))"

lemma heap_same: "mg_heap m' = mg_heap m \<Longrightarrow> heap_advances m [] m'"
  by (simp add: heap_advances_def at_addr_def)

lemma heap_update:
  assumes "a < length (mg_heap m)" "advances (at_addr m a) new (f (at_addr m a))"
  shows "heap_advances m (map (Pair a) new) (update_runtime a f m)"
  using assms by (auto simp: heap_advances_def update_runtime_def at_addr_def nth_list_update)

definition heap_fed :: "manager \<Rightarrow> manager \<Rightarrow> bool" where
  "heap_fed m m' \<longleftrightarrow> length (mg_heap m') = length (mg_heap m) \<and> (\<forall>a<length (mg_heap m). advances (at_addr m a) [] (at_addr m' a))"

lemma heap_fed_advances: "heap_fed m m' \<Longrightarrow> heap_advances m [] m'"
  by (simp add: heap_fed_def heap_advances_def)

lemma heap_fed_trans: "heap_fed m m' \<Longrightarrow> heap_fed m' m'' \<Longrightarrow> heap_fed m m''"
  unfolding heap_fed_def using advances_trans by fastforce

lemma heap_fed_same: "mg_heap m' = mg_heap m \<Longrightarrow> heap_fed m m'"
  by (simp add: heap_fed_def at_addr_def)

lemma heap_fed_update:
  assumes "\<And>rt. rt = at_addr m a \<Longrightarrow> advances rt [] (f rt)" "mg_heap m' = mg_heap (update_runtime a f m)"
  shows "heap_fed m m'"
  using assms by (cases "a < length (mg_heap m)") (auto simp: heap_fed_def update_runtime_def at_addr_def nth_list_update)

lemma advances_add: "advances rt [] (rt\<lparr>rt_Store := store_Add ev (rt_Store rt)\<rparr>)"
  using advances_deliver [of rt ev] by (simp add: runtime_deliver_def)

lemma workload_loop_fed: "heap_fed (fst st) (fst (workload_loop clock kind key revision dss st))"
proof (induction clock kind key revision dss st rule: workload_loop.induct)
  case (2 clock kind key revision ds dss m requeue)
  show ?case
  proof (cases "map_get [] (mg_lastRevision m) (so_Key ds, key) = revision")
    case False
    show ?thesis
    proof (cases "registry_Get (watch_of ds) m")
      case (Some a)
      let ?ev = "workload_event kind key (nn_Name (so_Key ds)) (rt_ClusterName (at_addr m a)) revision (clock (so_Key ds))"
      let ?m1 = "update_runtime a (\<lambda>rt. rt\<lparr>rt_Store := store_Add ?ev (rt_Store rt)\<rparr>) m"
      let ?m2 = "?m1\<lparr>mg_lastRevision := AList.update (so_Key ds, key) revision (mg_lastRevision ?m1)\<rparr>"
      have "heap_fed m ?m2" by (rule heap_fed_update) (simp_all add: advances_add)
      moreover have "heap_fed ?m2 (fst (workload_loop clock kind key revision dss (?m2, requeue)))"
        using 2(3) [OF refl False Some refl refl] by simp
      ultimately show ?thesis using False Some heap_fed_trans by (simp add: Let_def)
    qed (use 2(2) False in \<open>simp add: Let_def\<close>)
  qed (use 2(1) in \<open>simp add: Let_def\<close>)
qed (simp add: heap_fed_same)

lemma workload_Reconcile_fed: "heap_fed m (snd (workload_Reconcile clock listed gotD gotS key m))"
proof -
  have "heap_fed m (snd (reconcileWorkload clock sources kind key revision ok m))" for sources kind revision ok
    using workload_loop_fed [of "(m, False)"] by (auto simp: reconcileWorkload_def heap_fed_same Let_def split: prod.splits) (metis fst_conv)
  then show ?thesis by (auto simp: workload_Reconcile_def forgetWorkload_def heap_fed_same split: sum.splits kget.splits)
qed

lemma mux_ServeHTTP_fed: "heap_fed m (snd (mux_ServeHTTP d nows path r m))"
proof (cases "map_of (mg_routes m) path")
  case (Some h)
  obtain src a where h: "h = (src, a)" by (cases h)
  obtain rs s' where hs: "handler_ServeHTTP d nows src r (rt_Store (at_addr m a)) = (rs, s')" by (metis prod.exhaust)
  have "advances rt [] (rt\<lparr>rt_Store := s'\<rparr>)" if "rt = at_addr m a" for rt
    using handler_ServeHTTP_store [of d nows src r "rt_Store rt"] hs that advances_add by auto
  then have "heap_fed m (update_runtime a (\<lambda>rt. rt\<lparr>rt_Store := s'\<rparr>) m)" by (rule heap_fed_update) simp_all
  then show ?thesis using Some h hs by (simp add: mux_ServeHTTP_def)
qed (simp add: mux_ServeHTTP_def heap_fed_same)

lemma stopWatch_fed: "heap_fed m (stopWatch key m)"
proof (cases "registry_Get key m")
  case (Some a)
  have "advances rt [] (rt\<lparr>rt_cancelled := True\<rparr>)" for rt using advances_job [of rt RtCancel] by simp
  then show ?thesis using Some by (intro heap_fed_update) (simp_all add: stopWatch_def registry_Delete_def)
qed (simp add: stopWatch_def heap_fed_same)

lemma deploysource_Reconcile_heap: "mg_heap (snd (deploysource_Reconcile upd now got key m)) = mg_heap m"
  by (simp add: deploysource_Reconcile_def mux_Unregister_def mux_Register_def Let_def split: kget.splits option.splits)

lemma heap_alloc:
  assumes "heap_fed m m'" "fresh_runtime rt" "mg_heap m'' = mg_heap m' @ [rt]"
  shows "heap_advances m [] m''"
  using assms by (auto simp: heap_fed_def heap_advances_def at_addr_def nth_append)

lemma startWatch_fresh_runtime: "startWatch w cfg watch dsn h = Inr rt \<Longrightarrow> fresh_runtime rt"
  by (auto simp: startWatch_def fresh_runtime_def Let_def split: if_splits sum.splits prod.splits)

lemma watch_Reconcile_heap:
  assumes "watch_Reconcile w cfg update now got key cache m = (r, cache', m')"
  shows "heap_advances m [] m'"
proof (cases got)
  case (Found watch)
  from assms [unfolded Found] show ?thesis
  proof (cases rule: watch_Reconcile_cases)
    case (started dsn rt)
    then show ?thesis using startWatch_fresh_runtime by (intro heap_alloc [OF stopWatch_fed [of m key]]) (auto simp: registry_Set_def)
  qed (use stopWatch_fed heap_fed_advances heap_fed_same in blast)+
qed (use assms stopWatch_fed heap_fed_advances heap_fed_same in \<open>auto simp: watch_Reconcile_def\<close>)

lemma manager_step_heap: "manager_step m new m' \<Longrightarrow> heap_advances m new m'"
proof (induction rule: manager_step.induct)
  case (watch w cfg update now got key cache m r cache' m')
  then show ?case by (rule watch_Reconcile_heap)
next
  case (source upd now sgot key m rs m')
  then show ?case using deploysource_Reconcile_heap heap_same by (metis snd_conv)
next
  case (workload clock listed gotD gotS key m rw m')
  then show ?case using workload_Reconcile_fed heap_fed_advances by (metis snd_conv)
next
  case (request d nows path req m resp m')
  then show ?case using mux_ServeHTTP_fed heap_fed_advances by (metis snd_conv)
next
  case (poll a m w le key eclock ef)
  then show ?case by (intro heap_update advances_tick)
next
  case (job a m y)
  then show ?case using heap_update [of a m "[]" "runtime_job_state y"] advances_job by simp
qed

section \<open>Each worker reports once\<close>

definition runtime_poll_state :: "watch_runtime \<Rightarrow> tick_result list \<Rightarrow> poll_state" where
  "runtime_poll_state rt rep = (rt_Store rt, (rt_cursor rt, rt_pending rt), rep)"

lemma advances_inv:
  "advances rt new rt' \<Longrightarrow> poll_inv 0 (runtime_poll_state rt rep) \<Longrightarrow> poll_inv 0 (runtime_poll_state rt' (rep @ new))"
  unfolding advances_def runtime_poll_state_def using runtime_worker.worker_run_inv by metis

lemma fresh_runtime_inv: "fresh_runtime rt \<Longrightarrow> poll_inv 0 (runtime_poll_state rt [])"
  using poll_inv_start [OF store_inv_new(2)] by (simp add: fresh_runtime_def runtime_poll_state_def zero_store_def)

lemma manager_run_inv:
  "manager_run m out \<Longrightarrow> (\<forall>a<length (mg_heap m). poll_inv 0 (runtime_poll_state (at_addr m a) (reports_of a out))) \<and>
     (\<forall>(a, t)\<in>set out. a < length (mg_heap m))"
proof (induction rule: manager_run.induct)
  case (step m out new m')
  note adv = manager_step_heap [OF step.hyps(2), unfolded heap_advances_def]
  have "poll_inv 0 (runtime_poll_state (at_addr m' a) (reports_of a (out @ new)))" if a: "a < length (mg_heap m')" for a
  proof (cases "a < length (mg_heap m)")
    case True
    then have "advances (at_addr m a) (reports_of a new) (at_addr m' a)" "poll_inv 0 (runtime_poll_state (at_addr m a) (reports_of a out))"
      using adv step.IH by simp_all
    then show ?thesis using advances_inv by simp
  next
    case False
    then have "reports_of a (out @ new) = []" using adv step.IH by (auto simp: reports_of_def filter_empty_conv)
    then show ?thesis using adv False a fresh_runtime_inv by simp
  qed
  moreover have "\<forall>(a, t)\<in>set (out @ new). a < length (mg_heap m')" using adv step.IH by fastforce
  ultimately show ?case by blast
qed (simp add: new_manager_def)

section \<open>The spec of a worker\<close>

text \<open>A runtime keeps the hash of the spec it was started for, and addresses are never reused; so a registry
  entry that did not change still names a worker for the same spec.\<close>

inductive manager_steps :: "manager \<Rightarrow> manager \<Rightarrow> bool" where
  none: "manager_steps m m"
| more: "manager_steps m m' \<Longrightarrow> manager_step m' new m'' \<Longrightarrow> manager_steps m m''"

lemma worker_run_SpecHash:
  "rt_SpecHash (fst (worker_run runtime_deliver runtime_tick_state runtime_results runtime_job_state ops (rt, rep))) = rt_SpecHash rt"
proof (induction ops arbitrary: rt rep)
  case (Cons op ops)
  have "rt_SpecHash (runtime_tick_state x rt) = rt_SpecHash rt" for x
    by (cases x) (simp add: runtime_tick_state_def pollLoop_step_def Let_def split: prod.splits)
  moreover have "rt_SpecHash (runtime_job_state y rt) = rt_SpecHash rt" for y
    by (cases y) (simp_all add: periodicPollLoop_step_def Let_def split: prod.splits)
  ultimately show ?case using Cons by (cases op) (simp_all add: runtime_deliver_def)
qed simp

lemma advances_SpecHash: "advances rt new rt' \<Longrightarrow> rt_SpecHash rt' = rt_SpecHash rt"
  unfolding advances_def using worker_run_SpecHash by (metis fst_conv)

lemma manager_steps_SpecHash:
  "manager_steps m m' \<Longrightarrow> a < length (mg_heap m) \<Longrightarrow> a < length (mg_heap m') \<and> rt_SpecHash (at_addr m' a) = rt_SpecHash (at_addr m a)"
proof (induction rule: manager_steps.induct)
  case (more m m' new m'')
  then show ?case using manager_step_heap [OF more.hyps(2)] advances_SpecHash unfolding heap_advances_def by fastforce
qed simp

text \<open>A reconciliation that succeeded leaves a worker for exactly the spec it saw.\<close>

lemma reconciled_worker:
  assumes "manager_inv m" "watch_dsn w cfg now watch cache = (Inr dsn, c)"
    and "watch_Reconcile w cfg update now (Found watch) key cache m = ((RequeueAfter d, obj), cache', m')"
  shows "\<exists>a. registry_Get key m' = Some a \<and> a < length (mg_heap m') \<and> rt_SpecHash (at_addr m' a) = hashPostgresWatchSpec (wd_HashSpec w) (pw_Spec watch) dsn"
  using assms(3)
proof (cases rule: watch_Reconcile_cases)
  case (current dn a)
  then show ?thesis using assms(1,2) registry_Get_bound by auto
next
  case (started dn rt)
  then show ?thesis using assms(2) startWatch_fresh [OF started(3)]
    by (auto simp: registry_Set_def registry_Get_def map_of_update at_addr_def)
qed (use assms(2) markFailed_not_requeued in \<open>auto dest: sym\<close>)

end
