(* ===== verification/Scenarios.thy ===== *)
theory Scenarios
  imports Manager_Runs Operator Postgres_Store
begin

text \<open>
  Concrete states of the program, on which the properties that span components are evaluated: a collector with a
  slow query, hidden by a steady sibling or not; an operator started from its flags over that
  history; a manager that reads the same history from Prometheus; samples in the durable store.
\<close>

section \<open>Collectors\<close>

lemma valid_collector_rep: "collector_inv c \<Longrightarrow> \<exists>v. Rep_valid_collector v = c"
  by (metis Abs_valid_collector_inverse mem_Collect_eq)

section \<open>A query hidden by its sibling\<close>

text \<open>Two query ids with one fingerprint: id 1 is steady, id 2 becomes ten times slower at the deploy.\<close>

definition hidden_at :: gtime where "hidden_at = 10000000000000"

definition hidden_sample :: "queryid \<Rightarrow> int \<Rightarrow> real \<Rightarrow> query_sample" where
  "hidden_sample q k ms = \<lparr>qs_QueryID = q, qs_QueryText = ''select ?'', qs_Calls = 1, qs_TotalExecTimeMs = ms,
     qs_MeanExecTimeMs = ms, qs_RecordedAt = hidden_at + k * 60000000000, qs_Fingerprint = ''f''\<rparr>"

definition hidden_samples :: "query_sample list" where
  "hidden_samples =
     map (\<lambda>k. hidden_sample 1 k 10) [-5, -4, -3, -2, -1, 1, 2, 3, 4, 5] @
     map (\<lambda>k. hidden_sample 2 k 10) [-5, -4, -3, -2, -1] @ map (\<lambda>k. hidden_sample 2 k 100) [1, 2, 3, 4, 5]"

definition hidden_cfg :: collector_config where
  "hidden_cfg = \<lparr>cc_ScrapeInterval = 0, cc_ClusterName = ''c'', cc_Namespace = ''ns'', cc_MaxQueryTextLen = 0,
     cc_RetentionDuration = 0, cc_CapturePlans = False\<rparr>"

definition hidden_collector :: collector where
  "hidden_collector = collector_Backfill (hidden_at + 600000000000) hidden_samples (new_collector hidden_cfg)"

definition hidden_engine_cfg :: engine_config where
  "hidden_engine_cfg = \<lparr>ec_Namespace = ''ns'', ec_WindowMinutes = 30, ec_MinExecutions = 5,
     ec_LatencyChangeThreshold = 1 / 5, ec_PValueThreshold = 1 / 20, ec_PeriodicWindowMinutes = 60,
     ec_ChangePointTolerance = 360000000000\<rparr>"

lemma hidden_collector_reach: "collector_reach hidden_cfg (hidden_at + 600000000000) hidden_collector"
  unfolding hidden_collector_def
  by (rule collector_reach.backfill [OF collector_reach.start [of _ 0]])
     (simp_all add: hidden_samples_def hidden_sample_def hidden_at_def)

definition slow_pre :: "query_sample list" where
  "slow_pre = map (\<lambda>k. hidden_sample 2 k 10) [-5, -4, -3, -2, -1]"

definition slow_post :: "query_sample list" where
  "slow_post = map (\<lambda>k. hidden_sample 2 k 100) [1, 2, 3, 4, 5]"

definition hidden_deploy :: deploy_event where
  "hidden_deploy = sample_event ''d'' hidden_at"

lemma slow_series:
  "combined slow_pre slow_post = slow_pre @ slow_post"
  "extractLatencies (slow_pre @ slow_post) = [10, 10, 10, 10, 10, 100, 100, 100, 100, 100]"
  by code_simp+

lemma slow_change_point: "first_max_energy [10, 10, 10, 10, 10, 100, 100, 100, 100, 100] 3 5"
proof -
  have "bestChangePoint [10, 10, 10, 10, 10, 100, 100, 100, 100, 100] 3 = \<lparr>cp_Index = 5, cp_EStatistic = 450\<rparr>"
    by code_simp
  then show ?thesis
    using bestChangePoint_first_max_energy [of 3 "[10, 10, 10, 10, 10, 100, 100, 100, 100, 100]" 5] by simp
qed

text \<open>Any window with these latencies shows a significant shift.\<close>

lemma step_shift:
  assumes "extractLatencies (combined pre post) = [10, 10, 10, 10, 10, 100, 100, 100, 100, 100]" "latency_factor pre post = 10"
    and "ec_LatencyChangeThreshold cfg \<le> 9" "0 \<le> ec_PValueThreshold cfg"
  shows "significant_shift cfg pre post 5"
proof -
  let ?s = "[10, 10, 10, 10, 10, 100, 100, 100, 100, 100] :: real list"
  have "take 5 ?s = replicate 5 10" "drop 5 ?s = replicate 5 100" by code_simp+
  then have "snd (welchTTest (take 5 ?s) (drop 5 ?s)) = 0" by (simp only: welch_constant) simp
  then show ?thesis using slow_change_point assms by (simp add: significant_shift_def Let_def)
qed

lemma slow_shift: "significant_shift hidden_engine_cfg slow_pre slow_post 5"
proof (rule step_shift)
  show "latency_factor slow_pre slow_post = 10" by code_simp
qed (simp_all add: slow_series hidden_engine_cfg_def)

lemma slow_detected:
  "pr_Status (evaluateQuery hidden_engine_cfg hidden_deploy q slow_pre slow_post now) = StatusDetected"
proof -
  have "enough_data hidden_engine_cfg slow_pre slow_post" by code_simp
  moreover have "change_time slow_pre slow_post 5 = hidden_at + 60000000000" 
    "deploy_distance (hidden_at + 60000000000) (ev_Timestamp hidden_deploy) \<le> ec_ChangePointTolerance hidden_engine_cfg" by code_simp+
  ultimately show ?thesis using evaluateQuery_detected [OF _ slow_shift] by simp
qed

definition hidden_engine :: engine where
  "hidden_engine = \<lparr>eng_cfg = hidden_engine_cfg, eng_src = collector_src hidden_collector\<rparr>"

lemma hidden_partition:
  "partitionAt (collector_SamplesInRange 2 (hidden_at - 1800000000000) (hidden_at + 1800000000000) hidden_collector) hidden_at =
    (slow_pre, slow_post)"
  by code_simp

lemma hidden_window:
  "time_add hidden_at (dur_neg (dur_mul (ec_WindowMinutes hidden_engine_cfg) minute_d)) = hidden_at - 1800000000000"
  "time_add hidden_at (dur_mul (ec_WindowMinutes hidden_engine_cfg) minute_d) = hidden_at + 1800000000000"
  "ev_Timestamp hidden_deploy = hidden_at"
  by code_simp+

section \<open>An operator\<close>

text \<open>An operator that finds the slow query's samples in its durable store.\<close>

definition slow_url :: string where "slow_url = ''https://hooks.example.com/x''"

definition slow_alerts :: build_config where
  "slow_alerts = \<lparr>bc_Format = ''slack'', bc_URL = slow_url, bc_PagerDutyRoutingKey = [], bc_CustomTemplate = [], bc_CustomContentType = [],
     bc_AllowedDestinations = [], bc_DestinationPolicy = [], bc_RelayURL = [], bc_ClusterName = ''c'', bc_Timeout = 0\<rparr>"

definition slow_notifier :: notifier where "slow_notifier = newWebhookNotifier slow_url 0 ''c'' (Some SlackFormatter)"

definition slow_env :: operator_env where
  "slow_env = sample_env\<lparr>oe_stateQueryIDs := Inr [2], oe_stateSamples := (\<lambda>q lo hi. Inr (slow_pre @ slow_post)),
     oe_ParseURL := sample_url, oe_now := hidden_at + 600000000000\<rparr>"

definition slow_flags :: operator_flags where
  "slow_flags = sample_flags\<lparr>fl_dryRun := False, fl_minExecutions := 5, fl_stateBackend := ''postgres'', fl_alertURL := slow_url\<rparr>"

definition slow_operator :: operator where
  "slow_operator = operator_backfill slow_env slow_flags (operator_new slow_env slow_flags slow_notifier)"

definition slow_collector :: collector where
  "slow_collector = collector_Backfill (hidden_at + 600000000000) (slow_pre @ slow_post) (operator_collector slow_flags)"

lemma slow_collector_reach: "\<exists>cfg. collector_reach cfg (hidden_at + 600000000000) slow_collector"
  unfolding slow_collector_def operator_collector_def
  by (rule exI, rule collector_reach.backfill [OF collector_reach.start [of _ 0]])
     (simp_all add: slow_pre_def slow_post_def hidden_sample_def hidden_at_def)

lemma slow_window:
  "partitionAt (collector_SamplesInRange 2 (hidden_at - 1800000000000) (hidden_at + 1800000000000) slow_collector) hidden_at =
    (slow_pre, slow_post)"
  "canonicalQueryID (collector_SamplesInRange 2 (hidden_at - 1800000000000) (hidden_at + 1800000000000) slow_collector) 2 = 2"
  "collector_AllQueryIDs slow_collector = [2]"
  by code_simp+

lemma slow_analyse:
  "analyse \<lparr>eng_cfg = hidden_engine_cfg, eng_src = collector_src slow_collector\<rparr> clock hidden_deploy =
    [evaluateQuery hidden_engine_cfg hidden_deploy 2 slow_pre slow_post (clock 0)]"
  by (simp add: analyse_def analyseWindow_winners collector_src_def hidden_window slow_window Let_def window_eval_def)

lemma slow_notifier_built: "buildNotifier sample_url no_template slow_alerts = Inr slow_notifier"
proof -
  have "(case buildNotifier sample_url no_template slow_alerts of Inl _ \<Rightarrow> False | Inr n \<Rightarrow> True)" by code_simp
  then show ?thesis by (auto simp: buildNotifier_def slow_alerts_def slow_notifier_def choose_formatter_def slow_url_def resolveDestinationURL_def
        permissive_policy_def relay_only_policy_def allowlist_policy_def validateDestinationPolicy_def Let_def split: sum.splits option.splits if_splits)
qed

lemma slow_start_with:
  assumes "env = slow_env\<lparr>oe_stateEvents := f\<rparr>"
  shows "runOperator env (FlagsParsed slow_flags) = OpRun (operator_backfill env slow_flags (operator_new env slow_flags slow_notifier))"
proof -
  have env: "oe_dsn env = oe_dsn slow_env" "oe_Open env = oe_Open slow_env" "oe_ReadFile env = oe_ReadFile slow_env" by (simp_all add: assms)
  have dsn: "validatePostgresDSN (oe_dsn slow_env) ''postgres://db/app'' = None" by code_simp
  have cfg: "operator_validate env slow_flags = Inr slow_alerts"
    using dsn by (simp add: operator_validate_def operator_alert_config_def validateDestinationPolicy_def permissive_policy_def env slow_alerts_def
        relay_only_policy_def allowlist_policy_def splitCommaSeparatedValues_def slow_flags_def sample_flags_def slow_env_def sample_env_def slow_url_def)
  have n: "buildNotifier (oe_ParseURL env) (oe_ParseTemplate env) slow_alerts = Inr slow_notifier"
    using slow_notifier_built by (simp add: assms slow_env_def sample_env_def)
  have flags: "0 < fl_scrapeInterval slow_flags" "0 < dur_mul (fl_periodicIntervalMinutes slow_flags) minute_d"
      "fl_stateBackend slow_flags = ''postgres''" by code_simp+
  have "oe_OpenState env d = None" for d by (simp add: assms slow_env_def sample_env_def)
  then obtain op where op: "operator_start env slow_flags slow_alerts = OpRun op"
    using operator_start_run [OF n flags(1)] flags by blast
  then have "op = operator_backfill env slow_flags (operator_new env slow_flags slow_notifier)"
    using n by (simp add: operator_start_def start_loops_def flags(3) Let_def split: if_splits)
  then show ?thesis using op cfg by (auto simp: runOperator_def slow_flags_def sample_flags_def)
qed

lemma slow_start: "runOperator slow_env (FlagsParsed slow_flags) = OpRun slow_operator"
  using slow_start_with [of slow_env "oe_stateEvents slow_env"] by (simp add: slow_operator_def)

definition slow_regression :: performance_regression where
  "slow_regression = evaluateQuery hidden_engine_cfg hidden_deploy 2 slow_pre slow_post 0"

lemma slow_engine:
  "op_engineCfg op = operator_engine_config slow_flags \<Longrightarrow> op_collector op = slow_collector \<Longrightarrow>
    operator_engine op = \<lparr>eng_cfg = hidden_engine_cfg, eng_src = collector_src slow_collector\<rparr>"
proof -
  have "engine_defaults (operator_engine_config slow_flags) = hidden_engine_cfg" by code_simp
  then show "op_engineCfg op = operator_engine_config slow_flags \<Longrightarrow> op_collector op = slow_collector \<Longrightarrow>
    operator_engine op = \<lparr>eng_cfg = hidden_engine_cfg, eng_src = collector_src slow_collector\<rparr>"
    by (simp add: operator_engine_def new_engine_def)
qed

lemma slow_operator_fields:
  "op_engineCfg slow_operator = operator_engine_config slow_flags" "op_collector slow_operator = slow_collector"
  "op_store slow_operator = zero_store" "op_cursor slow_operator = 0" "op_pending slow_operator = []"
proof -
  have "store_Backfill [] zero_store = (zero_store, 0)" by code_simp
  then show "op_engineCfg slow_operator = operator_engine_config slow_flags" "op_collector slow_operator = slow_collector"
    "op_store slow_operator = zero_store" "op_cursor slow_operator = 0" "op_pending slow_operator = []"
    by (simp_all add: slow_operator_def operator_backfill_def operator_new_def case_prod_unfold Let_def slow_env_def sample_env_def
        backfill_samples_def slow_collector_def)
qed

text \<open>Two ticks of a loop on a store with one event, whose analysis shows one regression.\<close>

definition pending_of :: "deploy_event \<Rightarrow> gtime \<Rightarrow> queryid list \<Rightarrow> pending_event" where
  "pending_of ev deadline notified = \<lparr>pe_ev = ev, pe_deadline = deadline, pe_notified = notified\<rparr>"

lemma single_store: "st_events (store_Add ev zero_store) = [ev]" "store_Add ev (store_Add ev zero_store) = store_Add ev zero_store"
  by (simp_all add: store_Add_def store_put_def ids_of_def zero_store_def insertByTimeLocked_def set_add_def Let_def)

lemma single_core:
  assumes "an ev = [r]" "pr_Status r = StatusDetected" "pr_QueryID r = q" "time_add (ev_Timestamp ev) (analysisWindow e) = dl" "now < dl"
  shows "poll_core e an now (store_Add ev zero_store) (0, []) = ((1, [pending_of ev dl [q]]), [\<lparr>tr_Event = ev, tr_Regression = r\<rparr>])"
    and "poll_core e an now (store_Add ev zero_store) (1, [pending_of ev dl [q]]) = ((1, [pending_of ev dl [q]]), [])"
  using assms by (simp_all add: poll_core_def store_DrainSince_def single_store tick_with_def pending_of_def pending_Add_def set_add_def time_before_def)

definition slow_store :: store where "slow_store = store_Add hidden_deploy zero_store"

definition slow_pending :: "queryid list \<Rightarrow> pending_event" where
  "slow_pending notified = pending_of hidden_deploy (hidden_at + 1800000000000) notified"

lemma slow_core:
  assumes "eng_cfg e = hidden_engine_cfg" "an hidden_deploy = [slow_regression]"
  shows "poll_core e an (hidden_at + 600000000000) slow_store (0, []) = ((1, [slow_pending [2]]), [\<lparr>tr_Event = hidden_deploy, tr_Regression = slow_regression\<rparr>])"
    and "poll_core e an (hidden_at + 600000000000) slow_store (1, [slow_pending [2]]) = ((1, [slow_pending [2]]), [])"
  unfolding slow_store_def slow_pending_def
  by (rule single_core [where r = slow_regression];
      simp add: assms slow_regression_def evaluateQuery_fields slow_detected analysisWindow_def hidden_window)+

definition slow_tick :: operator_tick where
  "slow_tick = (\<lambda>p. SendError ''refused'', \<lambda>ev n. 0, hidden_at + 600000000000, no_effects)"

definition slow_state :: "operator \<Rightarrow> nat \<times> pending_event list \<Rightarrow> bool" where
  "slow_state op st \<longleftrightarrow> op_engineCfg op = operator_engine_config slow_flags \<and> op_collector op = slow_collector \<and> op_store op = slow_store \<and>
     (op_cursor op, op_pending op) = st"

lemma slow_tick_step:
  assumes "slow_state op st"
    and "poll_core (operator_engine op) (\<lambda>ev. analyse (operator_engine op) (\<lambda>n. 0) ev) (hidden_at + 600000000000) slow_store st = (st', trs)"
  shows "slow_state (operator_tick_state slow_tick op) st' \<and> operator_results slow_tick op = trs"
  using assms by (cases st') (auto simp: slow_state_def slow_tick_def operator_tick_state_def operator_results_def operator_poll_step_def Let_def split: prod.splits)

lemma slow_ticks:
  "slow_state op (0, []) \<Longrightarrow> slow_state (operator_tick_state slow_tick op) (1, [slow_pending [2]]) \<and>
    operator_results slow_tick op = [\<lparr>tr_Event = hidden_deploy, tr_Regression = slow_regression\<rparr>]"
  "slow_state op (1, [slow_pending [2]]) \<Longrightarrow> operator_results slow_tick op = []"
  using slow_tick_step [of op] slow_core [of "operator_engine op" "\<lambda>ev. analyse (operator_engine op) (\<lambda>n. 0) ev"]
  by (auto simp: slow_state_def slow_engine slow_analyse slow_regression_def)

lemma slow_deliver: "slow_state op st \<Longrightarrow> operator_deliver hidden_deploy op = op"
  by (cases op) (simp add: slow_state_def operator_deliver_def slow_store_def single_store)

lemma slow_run:
  "snd (worker_run operator_deliver operator_tick_state operator_results operator_job_state
     [WDeliver hidden_deploy, WTick slow_tick, WDeliver hidden_deploy, WTick slow_tick] (slow_operator, [])) =
   [\<lparr>tr_Event = hidden_deploy, tr_Regression = slow_regression\<rparr>]"
proof -
  have "slow_state (operator_deliver hidden_deploy slow_operator) (0, [])"
    by (simp add: slow_state_def operator_deliver_def slow_operator_fields slow_store_def)
  note first = slow_ticks(1) [OF this]
  show ?thesis using first slow_deliver [OF conjunct1 [OF first]] slow_ticks(2) [OF conjunct1 [OF first]] by simp
qed

section \<open>A durable store\<close>

definition micro :: "gtime \<Rightarrow> gtime" where "micro t = t div 1000 * 1000"

lemma micro_resolution: "pg_resolution micro"
proof -
  have "\<bar>t div 1000 * 1000 - t\<bar> < 1000" for t :: int by presburger
  then show ?thesis by (auto simp: pg_resolution_def micro_def mono_def zdiv_mono1)
qed

definition fp_sample :: "queryid \<Rightarrow> gtime \<Rightarrow> query_sample" where
  "fp_sample q t = with_fingerprint (sample_at q t\<lparr>qs_Fingerprint := []\<rparr>)"

definition sample_writes :: "(string option \<times> query_sample) list" where
  "sample_writes = [(None, fp_sample 1 1500), (None, fp_sample 2 9500), (Some ''connection refused'', fp_sample 2 9600)]"

section \<open>A manager that reads from Prometheus\<close>

definition prom_epoch :: gtime where "prom_epoch = unix_epoch_seconds * nanosecond_per_second"

definition prom_points :: "prom_sample list" where
  "prom_points = map (\<lambda>t. \<lparr>psm_Timestamp = t, psm_Value = ''10''\<rparr>) [700, 760, 820, 880, 940] @
     map (\<lambda>t. \<lparr>psm_Timestamp = t, psm_Value = ''100''\<rparr>) [1060, 1120, 1180, 1240, 1300]"

definition prom_answer :: "string \<Rightarrow> prom_response" where
  "prom_answer body = \<lparr>prs_Status = ''success'',
     prs_Data = (if body = ''vector'' then \<lparr>pdt_ResultType = ''vector'', pdt_Result = [\<lparr>psr_Metric = [(''queryid'', ''2'')], psr_Value = \<lparr>psm_Timestamp = 0, psm_Value = ''1''\<rparr>, psr_Values = []\<rparr>]\<rparr>
       else \<lparr>pdt_ResultType = ''matrix'', pdt_Result = [\<lparr>psr_Metric = [(''queryid'', ''2'')], psr_Value = \<lparr>psm_Timestamp = 0, psm_Value = []\<rparr>, psr_Values = prom_points\<rparr>]\<rparr>),
     prs_ErrorType = [], prs_Error = []\<rparr>"

definition prom_world :: world where
  "prom_world = sample_world\<lparr>wd_ParseURL := (\<lambda>u. Inr (''http'', ''p'')), wd_ParseFloat := (\<lambda>v. if v = ''10'' then Some (Finite 10) else if v = ''100'' then Some (Finite 100) else None),
     wd_PromHTTP := (\<lambda>u. PromReply 200 (if has_prefix u ''http://p/api/v1/query?'' then ''vector'' else ''matrix'')),
     wd_PromDecode := (\<lambda>body. Inr (prom_answer body))\<rparr>"

definition prom_watch :: postgres_watch where
  "prom_watch = sample_watch (sample_spec\<lparr>wsp_MinExecutions := 5, wsp_SampleSource := Some \<lparr>ss_Type = ''prometheus'',
     ss_Prometheus = Some \<lparr>pcf_URL = ''http://p'', pcf_MetricName = ''m'', pcf_QueryIDLabel = [], pcf_QueryTextLabel = [], pcf_StepSeconds = 60\<rparr>\<rparr>\<rparr>)"

definition prom_cfg :: prom_config where
  "prom_cfg = \<lparr>pm_BaseURL = ''http://p'', pm_MetricName = ''m'', pm_QueryIDLabel = ''queryid'', pm_QueryTextLabel = ''query'',
     pm_Step = 60000000000, pm_Timeout = prom_defaultTimeout\<rparr>"

definition prom_runtime :: watch_runtime where
  "prom_runtime = (case startWatch prom_world sample_rcfg prom_watch [] ''c'' of Inr rt \<Rightarrow> rt | Inl err \<Rightarrow> sample_runtime)"

lemma prom_start: "startWatch prom_world sample_rcfg prom_watch [] ''c'' = Inr prom_runtime"
  and prom_runtime_fields: "rt_Prom prom_runtime = Some prom_cfg" "rt_Collector prom_runtime = None" "rt_ClusterName prom_runtime = ''c''"
    "rt_EngineCfg prom_runtime = watch_engine_config prom_world ''ns'' (pw_Spec prom_watch)"
  by (simp_all add: prom_runtime_def startWatch_def watch_source_def usesPrometheusSampleSource_def watch_alert_config_def buildNotifier_def
      resolveDestinationURL_def relay_only_policy_def allowlist_policy_def permissive_policy_def Let_def prom_New_def prom_cfg_def
      prom_watch_def sample_watch_def sample_spec_def prom_world_def sample_rcfg_def dur_mul_def second_d_def wrap64_def)

definition prom_pre :: "query_sample list" where
  "prom_pre = map (\<lambda>t. \<lparr>qs_QueryID = 2, qs_QueryText = [], qs_Calls = 0, qs_TotalExecTimeMs = 0, qs_MeanExecTimeMs = 10,
     qs_RecordedAt = prom_epoch + t * 1000000000, qs_Fingerprint = []\<rparr>) [700, 760, 820, 880, 940]"

definition prom_post :: "query_sample list" where
  "prom_post = map (\<lambda>t. \<lparr>qs_QueryID = 2, qs_QueryText = [], qs_Calls = 0, qs_TotalExecTimeMs = 0, qs_MeanExecTimeMs = 100,
     qs_RecordedAt = prom_epoch + t * 1000000000, qs_Fingerprint = []\<rparr>) [1060, 1120, 1180, 1240, 1300]"

definition prom_deploy :: deploy_event where
  "prom_deploy = workload_event ''Deployment'' (in_ns ''app'') ''src'' ''c'' ''1'' (prom_epoch + 1000000000000)"

lemma prom_reply:
  "prom_do (wd_PromHTTP prom_world) (wd_PromDecode prom_world) prom_cfg ''/api/v1/query_range'' q = Inr (prs_Data (prom_answer ''matrix''))"
  "prom_do (wd_PromHTTP prom_world) (wd_PromDecode prom_world) prom_cfg ''/api/v1/query'' q = Inr (prs_Data (prom_answer ''vector''))"
  by (simp_all add: prom_do_def prom_world_def prom_cfg_def has_prefix_def limit_reader_def prom_answer_def)

lemma prom_samples:
  "prom_SamplesInRange (wd_PromHTTP prom_world) (wd_PromDecode prom_world) (wd_ParseFloat prom_world) prom_cfg 2 lo hi = prom_pre @ prom_post"
proof -
  have "sort_key qs_RecordedAt (concat (map (series_samples (wd_ParseFloat prom_world) prom_cfg 2) (pdt_Result (prs_Data (prom_answer ''matrix''))))) =
      prom_pre @ prom_post" by code_simp
  then show ?thesis by (simp add: prom_SamplesInRange_def queryRange_def prom_reply) (simp add: prom_answer_def)
qed

lemma prom_ids: "prom_AllQueryIDs (wd_PromHTTP prom_world) (wd_PromDecode prom_world) now prom_cfg = [2]"
proof -
  have "sort (collect_ids prom_cfg (pdt_Result (prs_Data (prom_answer ''vector''))) []) = [2]" by code_simp
  then show ?thesis by (simp add: prom_AllQueryIDs_def queryInstant_def prom_reply) (simp add: prom_answer_def)
qed

definition prom_engine_cfg :: engine_config where
  "prom_engine_cfg = engine_defaults (watch_engine_config prom_world ''ns'' (pw_Spec prom_watch))"

lemma prom_engine:
  "rt_EngineCfg rt = rt_EngineCfg prom_runtime \<Longrightarrow> rt_Prom rt = Some prom_cfg \<Longrightarrow> rt_Collector rt = None \<Longrightarrow>
    runtime_engine prom_world now rt = \<lparr>eng_cfg = prom_engine_cfg, eng_src = runtime_src prom_world now rt\<rparr>"
  by (simp add: runtime_engine_def new_engine_def prom_engine_cfg_def prom_runtime_fields)

definition prom_regression :: performance_regression where
  "prom_regression = evaluateQuery prom_engine_cfg prom_deploy 2 prom_pre prom_post 0"

lemma prom_shift:
  "enough_data prom_engine_cfg prom_pre prom_post" "significant_shift prom_engine_cfg prom_pre prom_post 5"
  "deploy_distance (change_time prom_pre prom_post 5) (ev_Timestamp prom_deploy) \<le> ec_ChangePointTolerance prom_engine_cfg"
  "ec_PValueThreshold prom_engine_cfg = 1 / 20"
proof -
  have cfg: "enough_data prom_engine_cfg prom_pre prom_post" "ec_LatencyChangeThreshold prom_engine_cfg = 1 / 5" "ec_PValueThreshold prom_engine_cfg = 1 / 20"
    "extractLatencies (combined prom_pre prom_post) = [10, 10, 10, 10, 10, 100, 100, 100, 100, 100]" "latency_factor prom_pre prom_post = 10"
    "deploy_distance (change_time prom_pre prom_post 5) (ev_Timestamp prom_deploy) \<le> ec_ChangePointTolerance prom_engine_cfg" by code_simp+
  then show "significant_shift prom_engine_cfg prom_pre prom_post 5" by (intro step_shift) simp_all
  show "enough_data prom_engine_cfg prom_pre prom_post" "ec_PValueThreshold prom_engine_cfg = 1 / 20"
    "deploy_distance (change_time prom_pre prom_post 5) (ev_Timestamp prom_deploy) \<le> ec_ChangePointTolerance prom_engine_cfg" using cfg by simp_all
qed

lemma prom_detected: "pr_Status prom_regression = StatusDetected" "pr_QueryID prom_regression = 2"
  using evaluateQuery_detected [OF prom_shift(1-3)] by (simp_all add: prom_regression_def evaluateQuery_fields)

lemma prom_analyse:
  assumes "rt_EngineCfg rt = rt_EngineCfg prom_runtime" "rt_Prom rt = Some prom_cfg" "rt_Collector rt = None"
  shows "analyse (runtime_engine prom_world now rt) (\<lambda>n. 0) prom_deploy = [prom_regression]"
proof -
  have "partitionAt (prom_pre @ prom_post) (ev_Timestamp prom_deploy) = (prom_pre, prom_post)" "canonicalQueryID (prom_pre @ prom_post) 2 = 2"
    by code_simp+
  then show ?thesis
    by (simp add: analyse_def analyseWindow_winners prom_engine [OF assms] runtime_src_def assms(2,3) prom_samples prom_ids Let_def
        window_eval_def prom_regression_def)
qed

text \<open>The run: the watch is reconciled, a finished rollout is observed, and the poll loop ticks twice.\<close>

definition prom_manager :: manager where
  "prom_manager = \<lparr>mg_heap = [prom_runtime], mg_registry = [(in_ns ''w'', 0)], mg_routes = [], mg_lastRevision = []\<rparr>"

lemma prom_reconciled:
  "watch_Reconcile prom_world sample_rcfg (\<lambda>u. None) 5 (Found prom_watch) (in_ns ''w'') [] new_manager =
    ((RequeueAfter statusRefreshInterval, Some (started_status 5 prom_watch)), [], prom_manager)"
proof -
  have "watch_dsn prom_world sample_rcfg 5 prom_watch [] = (Inr [], [])" "hashPostgresWatchSpec (wd_HashSpec prom_world) (pw_Spec prom_watch) [] = ''c''"
    by (simp_all add: watch_dsn_def usesPrometheusSampleSource_def hashPostgresWatchSpec_def prom_world_def sample_world_def prom_watch_def sample_watch_def sample_spec_def)
  then show ?thesis
    by (simp add: watch_Reconcile_def prom_start alloc_runtime_def status_update_result_def prom_manager_def new_manager_def
        registry_Get_def registry_Set_def stopWatch_def Let_def)
qed

definition rolled_out :: deployment where
  "rolled_out = \<lparr>dep_Generation = 1, dep_Annotations = [(''deployment.kubernetes.io/revision'', ''1'')], dep_Replicas = Some 1,
     dep_ObservedGeneration = 1, dep_StatusReplicas = 1, dep_UpdatedReplicas = 1, dep_AvailableReplicas = 1\<rparr>"

definition fed_runtime :: watch_runtime where
  "fed_runtime = prom_runtime\<lparr>rt_Store := store_Add prom_deploy zero_store\<rparr>"

definition fed_manager :: manager where
  "fed_manager = \<lparr>mg_heap = [fed_runtime], mg_registry = [(in_ns ''w'', 0)], mg_routes = [], mg_lastRevision = [((in_ns ''src'', in_ns ''app''), ''1'')]\<rparr>"

lemma prom_rollout:
  "workload_Reconcile (\<lambda>k. prom_epoch + 1000000000000) (Inr [sample_ds ''kubernetes'']) (Found rolled_out) (NotFound []) (in_ns ''app'') prom_manager =
    (Done, fed_manager)"
proof -
  have "rt_Store prom_runtime = zero_store" using startWatch_fresh_runtime [OF prom_start] by (simp add: fresh_runtime_def)
  then have "prom_runtime\<lparr>rt_Store := store_Add prom_deploy (rt_Store prom_runtime)\<rparr> = fed_runtime" by (simp add: fed_runtime_def)
  then show ?thesis
    by (simp add: workload_Reconcile_def reconcileWorkload_def rolled_out_def deploymentRolloutComplete_def workload_matches_def sample_ds_def
        prom_manager_def fed_manager_def watch_of_def registry_Get_def at_addr_def update_runtime_def in_ns_def Let_def map_get_def
        prom_runtime_fields prom_deploy_def)
qed

definition prom_tick :: runtime_tick where
  "prom_tick = (prom_world, \<lparr>le_api = quiet_api, le_abort = (\<lambda>ns n. None), le_http = (\<lambda>p. SendError ''refused''), le_now = prom_epoch + 1600000000000\<rparr>,
     in_ns ''w'', (\<lambda>ev n. 0), \<lparr>ef_aborts = [], ef_posts = [], ef_regressions = []\<rparr>)"

definition ticked_manager :: manager where
  "ticked_manager = update_runtime 0 (runtime_tick_state prom_tick) fed_manager"

lemma prom_core:
  assumes "rt_EngineCfg rt = rt_EngineCfg prom_runtime" "rt_Prom rt = Some prom_cfg" "rt_Collector rt = None" "rt_Store rt = store_Add prom_deploy zero_store"
  shows "rt_cursor rt = 0 \<Longrightarrow> rt_pending rt = [] \<Longrightarrow>
      poll_core (tick_engine prom_tick rt) (tick_analysis prom_tick rt) (le_now (fst (snd prom_tick))) (rt_Store rt) (rt_cursor rt, rt_pending rt) =
      ((1, [pending_of prom_deploy (prom_epoch + 2800000000000) [2]]), [\<lparr>tr_Event = prom_deploy, tr_Regression = prom_regression\<rparr>])"
    and "rt_cursor rt = 1 \<Longrightarrow> rt_pending rt = [pending_of prom_deploy (prom_epoch + 2800000000000) [2]] \<Longrightarrow> runtime_results prom_tick rt = []"
proof -
  let ?e = "runtime_engine prom_world (prom_epoch + 1600000000000) rt"
  have "ec_WindowMinutes prom_engine_cfg = 30" "prom_epoch + 1000000000000 + dur_mul 30 minute_d = prom_epoch + 2800000000000" by code_simp+
  then have dl: "time_add (ev_Timestamp prom_deploy) (analysisWindow ?e) = prom_epoch + 2800000000000"
    by (simp add: prom_engine [OF assms(1-3)] analysisWindow_def time_add_def prom_deploy_def workload_event_def)
  note single = single_core [of "\<lambda>ev. analyse ?e (\<lambda>n. 0) ev" prom_deploy prom_regression 2 ?e _ "prom_epoch + 1600000000000",
      OF prom_analyse [OF assms(1-3)] prom_detected dl]
  note tick = prom_tick_def tick_engine_def tick_analysis_def
  show "rt_cursor rt = 0 \<Longrightarrow> rt_pending rt = [] \<Longrightarrow>
      poll_core (tick_engine prom_tick rt) (tick_analysis prom_tick rt) (le_now (fst (snd prom_tick))) (rt_Store rt) (rt_cursor rt, rt_pending rt) =
      ((1, [pending_of prom_deploy (prom_epoch + 2800000000000) [2]]), [\<lparr>tr_Event = prom_deploy, tr_Regression = prom_regression\<rparr>])"
    using single(1) assms(4) by (simp add: tick)
  show "rt_cursor rt = 1 \<Longrightarrow> rt_pending rt = [pending_of prom_deploy (prom_epoch + 2800000000000) [2]] \<Longrightarrow> runtime_results prom_tick rt = []"
    using single(2) assms(4) by (simp add: runtime_results_def tick)
qed

lemma fed_runtime_fields:
  "rt_EngineCfg fed_runtime = rt_EngineCfg prom_runtime" "rt_Prom fed_runtime = Some prom_cfg" "rt_Collector fed_runtime = None"
  "rt_Store fed_runtime = store_Add prom_deploy zero_store" "rt_cursor fed_runtime = 0" "rt_pending fed_runtime = []"
  using startWatch_fresh_runtime [OF prom_start] by (simp_all add: fed_runtime_def fresh_runtime_def prom_runtime_fields)

lemma runtime_tick_fields:
  "rt_EngineCfg (runtime_tick_state x rt) = rt_EngineCfg rt" "rt_Prom (runtime_tick_state x rt) = rt_Prom rt"
  "rt_Collector (runtime_tick_state x rt) = rt_Collector rt"
  by (cases x; simp add: runtime_tick_state_def pollLoop_step_def Let_def split: prod.splits)+

lemma prom_ticks:
  "runtime_results prom_tick fed_runtime = [\<lparr>tr_Event = prom_deploy, tr_Regression = prom_regression\<rparr>]"
  "runtime_results prom_tick (runtime_tick_state prom_tick fed_runtime) = []"
proof -
  note core = prom_core(1) [OF fed_runtime_fields]
  show "runtime_results prom_tick fed_runtime = [\<lparr>tr_Event = prom_deploy, tr_Regression = prom_regression\<rparr>]"
    by (simp add: runtime_results_def core)
  have "(rt_cursor (runtime_tick_state prom_tick fed_runtime), rt_pending (runtime_tick_state prom_tick fed_runtime)) =
      (1, [pending_of prom_deploy (prom_epoch + 2800000000000) [2]])"
    using runtime_worker.tick_core [of prom_tick fed_runtime] unfolding core by simp
  then show "runtime_results prom_tick (runtime_tick_state prom_tick fed_runtime) = []"
    using fed_runtime_fields runtime_worker.tick_store [of prom_tick fed_runtime]
    by (intro prom_core(2)) (simp_all add: runtime_tick_fields)
qed

lemma prom_run:
  "manager_run (update_runtime 0 (runtime_tick_state prom_tick) ticked_manager) [(0, \<lparr>tr_Event = prom_deploy, tr_Regression = prom_regression\<rparr>)]"
proof -
  have fed: "manager_run fed_manager []"
    using manager_run.step [OF manager_run.step [OF manager_run.start manager_step.watch [OF prom_reconciled]] manager_step.workload [OF prom_rollout]] by simp
  obtain w le key clock ef where x: "prom_tick = (w, le, key, clock, ef)" by (cases prom_tick)
  have at: "at_addr fed_manager 0 = fed_runtime" "at_addr ticked_manager 0 = runtime_tick_state prom_tick fed_runtime" "0 < length (mg_heap fed_manager)"
    "0 < length (mg_heap ticked_manager)"
    by (simp_all add: fed_manager_def ticked_manager_def at_addr_def update_runtime_def)
  have "manager_run ticked_manager [(0, \<lparr>tr_Event = prom_deploy, tr_Regression = prom_regression\<rparr>)]"
    using manager_run.step [OF fed manager_step.poll [OF at(3), of w le key clock ef, folded x]] by (simp add: at prom_ticks ticked_manager_def)
  from manager_run.step [OF this manager_step.poll [OF at(4), of w le key clock ef, folded x]] show ?thesis by (simp add: at prom_ticks)
qed

section \<open>An abort\<close>

text \<open>The same worker with auto-abort switched on; its deploy comes from an Argo Rollouts source.\<close>

definition aborting_runtime :: watch_runtime where
  "aborting_runtime = fed_runtime\<lparr>rt_AutoAbortEnabled := True, rt_AutoAbortThreshold := 9 / 10\<rparr>"

definition rollouts_env :: loop_env where
  "rollouts_env = \<lparr>le_api = quiet_api\<lparr>api_source := (\<lambda>k. if k = in_ns ''src'' then Found (sample_ds ''argo-rollouts'') else NotFound ''none'')\<rparr>,
     le_abort = (\<lambda>ns n. None), le_http = (\<lambda>p. SendError ''refused''), le_now = prom_epoch + 1600000000000\<rparr>"

lemma prom_confidence: "9 / 10 \<le> pr_ConfidenceScore prom_regression"
proof -
  note prom = prom_shift
  have "pr_ConfidenceScore prom_regression = min 1 (1 - seg_p prom_pre prom_post 5)"
    using evaluateQuery_detected [OF prom(1) prom(2) prom(3)] by (simp add: prom_regression_def)
  moreover have "seg_p prom_pre prom_post 5 \<le> 1 / 20" using prom(2,4) by (simp add: significant_shift_found found_at_def Let_def)
  ultimately show ?thesis by simp
qed

theorem auto_abort_gated_witness:
  "ef_aborts (snd (pollLoop_step prom_world rollouts_env (in_ns ''w'') (\<lambda>ev n. 0) aborting_runtime \<lparr>ef_aborts = [], ef_posts = [], ef_regressions = []\<rparr>)) =
     [(''ns'', ''app'')]"
proof -
  let ?ef = "\<lparr>ef_aborts = [], ef_posts = [], ef_regressions = []\<rparr>"
  let ?x = "(prom_world, rollouts_env, in_ns ''w'', \<lambda>ev n. 0, ?ef)"
  have "tick_engine ?x = tick_engine prom_tick" "tick_analysis ?x = tick_analysis prom_tick" "le_now (fst (snd ?x)) = le_now (fst (snd prom_tick))"
    by (simp_all add: fun_eq_iff tick_engine_def tick_analysis_def prom_tick_def rollouts_env_def)
  then have "runtime_results ?x aborting_runtime = [\<lparr>tr_Event = prom_deploy, tr_Regression = prom_regression\<rparr>]"
    using prom_core(1) [of aborting_runtime] fed_runtime_fields unfolding runtime_results_def by (simp add: aborting_runtime_def)
  then show ?thesis
    using auto_abort_gated [of prom_world rollouts_env "in_ns ''w''" "\<lambda>ev n. 0" aborting_runtime ?ef] prom_confidence
    by (simp add: abort_gate_def aborting_runtime_def rollouts_env_def sample_ds_def prom_deploy_def workload_event_def in_ns_def)
qed

end
