(* ===== verification/Restart.thy ===== *)
theory Restart
  imports Scenarios
begin

text \<open>
  Two lives of one operator over the durable store: what the first process writes (\<open>operator_trace\<close>
  keeps the effects of its loops), what the database keeps of it, and what the second process does with it.
\<close>

section \<open>A run with its effects\<close>

fun operator_trace :: "(operator_tick, operator_job \<times> operator_effects) worker_op list \<Rightarrow> operator \<times> operator_effects \<Rightarrow> operator \<times> operator_effects" where
  "operator_trace [] st = st"
| "operator_trace (WDeliver ev # ops) (op, ef) = operator_trace ops (operator_deliver ev op, ef)"
| "operator_trace (WTick (http, clock, now, _) # ops) st = operator_trace ops (operator_poll_step http clock now st)"
| "operator_trace (WJob (j, _) # ops) st = operator_trace ops (operator_job_step j st)"

lemma poll_step_state: "fst (operator_poll_step http clock now (op, ef)) = operator_tick_state (http, clock, now, ef') op"
  by (simp add: operator_tick_state_def operator_poll_step_def Let_def split: prod.splits)

lemma job_step_state: "fst (operator_job_step j (op, ef)) = operator_job_state (j, ef') op"
  by (cases j) (simp_all add: operator_job_state_def mirror_step_def operator_periodic_step_def Let_def split: prod.splits)

lemma job_step_keeps: "oef_events (snd (operator_job_step j (op, ef))) = oef_events ef" "op_durable (fst (operator_job_step j (op, ef))) = op_durable op"
  by (cases j; simp add: mirror_step_def operator_periodic_step_def Let_def split: prod.splits)+

lemma trace_state:
  "worker_run operator_deliver operator_tick_state operator_results operator_job_state ops (op, rep) = (op', rep') \<Longrightarrow>
    fst (operator_trace ops (op, ef)) = op'"
proof (induction ops arbitrary: op rep ef)
  case (Cons x ops)
  show ?case
  proof (cases x)
    case (WTick t)
    obtain http clock now ef0 where t: "t = (http, clock, now, ef0)" by (cases t)
    obtain op1 ef1 where s: "operator_poll_step http clock now (op, ef) = (op1, ef1)" by (metis prod.exhaust)
    have "op1 = operator_tick_state t op" using poll_step_state [of http clock now op ef ef0] by (simp add: s t)
    then show ?thesis using Cons.IH [of op1] Cons.prems by (simp add: WTick t s)
  next
    case (WJob y)
    obtain j ef0 where y: "y = (j, ef0)" by (cases y)
    obtain op1 ef1 where s: "operator_job_step j (op, ef) = (op1, ef1)" by (metis prod.exhaust)
    have "op1 = operator_job_state y op" using job_step_state [of j op ef ef0] by (simp add: s y)
    then show ?thesis using Cons.IH [of op1] Cons.prems by (simp add: WJob y s)
  qed (use Cons in simp)
qed simp

text \<open>A durable operator writes each event that its loop takes up, in the order of arrival.\<close>

definition taken :: "nat \<Rightarrow> operator \<Rightarrow> deploy_event list" where
  "taken n op = drop n (take (op_cursor op) (st_events (op_store op)))"

definition loop_ok :: "operator \<Rightarrow> bool" where
  "loop_ok op \<longleftrightarrow> store_inv (op_store op) \<and> op_cursor op \<le> length (st_events (op_store op)) \<and> op_durable op"

lemma poll_step_taken:
  assumes "loop_ok op" "n \<le> op_cursor op" "operator_poll_step http clock now (op, ef) = (op1, ef1)" "oef_events ef = es @ taken n op"
  shows "loop_ok op1 \<and> n \<le> op_cursor op1 \<and> oef_events ef1 = es @ taken n op1"
proof -
  let ?evs = "st_events (op_store op)"
  have "op_store op1 = op_store op" "op_durable op1 = op_durable op" "op_cursor op1 = snd (store_DrainSince (op_cursor op) (op_store op))"
    "oef_events ef1 = oef_events ef @ (if op_durable op then fst (store_DrainSince (op_cursor op) (op_store op)) else [])"
    using assms(3) by (auto simp: operator_poll_step_def poll_core_def Let_def split: prod.splits)
  moreover have "drop n (take (op_cursor op) ?evs) @ drop (op_cursor op) ?evs = drop n ?evs"
    using assms(1,2) by (metis append_take_drop_id drop_append loop_ok_def diff_is_0_eq drop0 length_take min.absorb2)
  ultimately show ?thesis using assms(1,2,4) by (auto simp: loop_ok_def taken_def store_DrainSince_def)
qed

lemma deliver_taken:
  assumes "loop_ok op"
  shows "loop_ok (operator_deliver ev op) \<and> taken n (operator_deliver ev op) = taken n op"
  using assms store_Add_inv [of "op_store op" ev] by (auto simp: loop_ok_def taken_def operator_deliver_def store_Add_events)

lemma trace_taken:
  "\<lbrakk>loop_ok op; n \<le> op_cursor op; operator_trace ops (op, ef) = (op', ef'); oef_events ef = es @ taken n op\<rbrakk> \<Longrightarrow>
    loop_ok op' \<and> n \<le> op_cursor op' \<and> oef_events ef' = es @ taken n op'"
proof (induction ops arbitrary: op ef)
  case (Cons x ops)
  show ?case
  proof (cases x)
    case (WDeliver ev)
    have "op_cursor (operator_deliver ev op) = op_cursor op" by (simp add: operator_deliver_def)
    then show ?thesis using Cons.IH [of "operator_deliver ev op" ef] Cons.prems deliver_taken [OF Cons.prems(1), of ev n] by (simp add: WDeliver)
  next
    case (WTick t)
    obtain http clock now ef0 where t: "t = (http, clock, now, ef0)" by (cases t)
    obtain op1 ef1 where s: "operator_poll_step http clock now (op, ef) = (op1, ef1)" by (metis prod.exhaust)
    then show ?thesis using Cons.IH [of op1 ef1] poll_step_taken [OF Cons.prems(1,2) s Cons.prems(4)] Cons.prems(3) by (simp add: WTick t)
  next
    case (WJob y)
    obtain j ef0 where y: "y = (j, ef0)" by (cases y)
    obtain op1 ef1 where s: "operator_job_step j (op, ef) = (op1, ef1)" by (metis prod.exhaust)
    then have "op1 = operator_job_state (j, ef) op" using job_step_state [of j op ef ef] by simp
    then have "loop_ok op1 \<and> n \<le> op_cursor op1 \<and> oef_events ef1 = es @ taken n op1"
      using Cons.prems(1,2,4) job_step_keeps [of j op ef] by (simp add: s loop_ok_def taken_def operator_job_keeps)
    then show ?thesis using Cons.IH [of op1 ef1] Cons.prems(3) by (simp add: WJob y s)
  qed
qed simp

section \<open>What the database keeps\<close>

text \<open>The writes of the poll loop and the sweeps of the retention loop, in their order; each may fail.\<close>

datatype event_write = WriteEvent "string option" deploy_event | SweepEvents "string option" gtime

fun apply_write :: "(gtime \<Rightarrow> gtime) \<Rightarrow> event_write \<Rightarrow> radar_tables \<Rightarrow> radar_tables" where
  "apply_write ts (WriteEvent fault e) db = snd (pge_Add ts fault e db)"
| "apply_write ts (SweepEvents fault olderThan) db = snd (pge_Prune ts fault olderThan db)"

fun written_event :: "event_write \<Rightarrow> deploy_event option" where
  "written_event (WriteEvent fault e) = Some e"
| "written_event (SweepEvents fault olderThan) = None"

fun spared :: "(gtime \<Rightarrow> gtime) \<Rightarrow> deploy_event \<Rightarrow> event_write \<Rightarrow> bool" where
  "spared ts e (WriteEvent fault e') = True"
| "spared ts e (SweepEvents fault olderThan) = (fault \<noteq> None \<or> ts olderThan \<le> ts (ev_Timestamp e))"

definition survives :: "(gtime \<Rightarrow> gtime) \<Rightarrow> event_write list \<Rightarrow> deploy_event \<Rightarrow> bool" where
  "survives ts ws e \<longleftrightarrow> WriteEvent None e \<in> set ws \<and> list_all (spared ts e) ws"

lemma at_resolution_simps [simp]: "ev_ID (at_resolution ts e) = ev_ID e" "ev_Timestamp (at_resolution ts e) = ts (ev_Timestamp e)"
  by (simp_all add: at_resolution_def)

lemma upsert_keeps: "e \<in> set rows \<Longrightarrow> ev_ID e \<noteq> ev_ID e' \<Longrightarrow> e \<in> set (upsert_event e' rows)"
  by (auto simp: upsert_event_def)

lemma apply_write_keeps:
  assumes "at_resolution ts e \<in> set (tb_deploy_events db)" "spared ts e w" "\<forall>e'. written_event w = Some e' \<longrightarrow> ev_ID e' \<noteq> ev_ID e"
  shows "at_resolution ts e \<in> set (tb_deploy_events (apply_write ts w db))"
proof (cases w)
  case (WriteEvent fault e')
  then show ?thesis using assms(1,3) upsert_keeps [OF assms(1), of "at_resolution ts e'"] by (cases fault) (simp_all add: pge_Add_def)
next
  case (SweepEvents fault c)
  then show ?thesis using assms(1,2) by (cases fault) (simp_all add: pge_Prune_def)
qed

lemma apply_writes_keep:
  "\<lbrakk>at_resolution ts e \<in> set (tb_deploy_events db); list_all (\<lambda>w. spared ts e w \<and> (\<forall>e'. written_event w = Some e' \<longrightarrow> ev_ID e' \<noteq> ev_ID e)) ws\<rbrakk> \<Longrightarrow>
    at_resolution ts e \<in> set (tb_deploy_events (fold (apply_write ts) ws db))"
  by (induction ws arbitrary: db) (simp_all add: apply_write_keeps)

lemma set_map_filter_Some: "x \<in> set xs \<Longrightarrow> f x = Some y \<Longrightarrow> y \<in> set (List.map_filter f xs)"
  by (force simp: List.map_filter_def)

lemma survivor_stored:
  assumes "survives ts ws e" "distinct (map ev_ID (List.map_filter written_event ws))"
  shows "at_resolution ts e \<in> set (tb_deploy_events (fold (apply_write ts) ws db))"
proof -
  obtain before after where ws: "ws = before @ WriteEvent None e # after" using assms(1) by (auto simp: survives_def dest: split_list)
  have "ev_ID e \<notin> ev_ID ` set (List.map_filter written_event after)" using assms(2) by (auto simp: ws List.map_filter_def)
  then have other: "ev_ID e' \<noteq> ev_ID e" if "w \<in> set after" "written_event w = Some e'" for w e'
    using set_map_filter_Some [OF that(1), of written_event e'] that(2) by (metis image_eqI)
  have "at_resolution ts e \<in> set (tb_deploy_events (fold (apply_write ts) after db'))"
    if "at_resolution ts e \<in> set (tb_deploy_events db')" for db'
  proof (rule apply_writes_keep [OF that])
    show "list_all (\<lambda>w. spared ts e w \<and> (\<forall>e'. written_event w = Some e' \<longrightarrow> ev_ID e' \<noteq> ev_ID e)) after"
      using assms(1) other by (auto simp: ws survives_def list_all_iff)
  qed
  moreover have "at_resolution ts e \<in> set (tb_deploy_events (apply_write ts (WriteEvent None e) db'))" for db'
    by (auto simp: pge_Add_def upsert_event_def image_iff)
  ultimately show ?thesis by (simp add: ws)
qed

section \<open>What the second process starts with\<close>

definition backfill_since :: "operator_env \<Rightarrow> operator_flags \<Rightarrow> gtime" where
  "backfill_since env fl = time_add (oe_now env) (dur_neg (dur_mul (fl_retentionMinutes fl) minute_d))"

lemma fold_store_Add_ids: "store_inv s \<Longrightarrow> ev_ID ` set evs \<subseteq> ev_ID ` set (st_events (fold store_Add evs s))"
proof (induction evs arbitrary: s)
  case (Cons e evs)
  have inv: "store_inv (store_Add e s)" by (rule store_Add_inv [OF Cons.prems])
  have "ev_ID e \<in> ev_ID ` set (st_events (store_Add e s))" by (auto simp: store_Add_events [OF Cons.prems])
  moreover have "set (st_events (store_Add e s)) \<subseteq> set (st_events (fold store_Add evs (store_Add e s)))"
    using fold_store_Add [OF inv] by (auto dest: set_mono_prefix)
  ultimately show ?case using Cons.IH [OF inv] by auto
qed simp

lemma store_Backfill_ids: "store_inv s \<Longrightarrow> ev_ID ` set evs \<subseteq> ev_ID ` set (st_events (fst (store_Backfill evs s)))"
  using fold_store_Add_ids [OF store_inv_set_ids] by (cases "evs = []") (simp_all add: store_Backfill_eq Let_def)

lemma restart_backfills:
  assumes "runOperator env (FlagsParsed fl) = OpRun op" "op_durable op" "oe_stateEvents env (backfill_since env fl) (oe_now env) = Inr evs"
  shows "ev_ID ` set evs \<subseteq> ev_ID ` set (st_events (op_store op))"
proof -
  have run: "start_loops fl op' = OpRun op \<Longrightarrow> op' = op" for op' by (simp add: start_loops_def split: if_splits)
  obtain n where "op = operator_backfill env fl (operator_new env fl n)"
  proof -
    have "\<not> op_durable (operator_new env fl n)" for n by (simp add: operator_new_def)
    then show ?thesis using assms(1,2) run that
      by (fastforce simp: runOperator_def operator_start_def Let_def split: if_splits sum.splits)
  qed
  then have "op_store op = fst (store_Backfill evs zero_store)"
    using assms(3) by (simp add: operator_backfill_def operator_new_def backfill_since_def Let_def split: prod.splits)
  then show ?thesis using store_Backfill_ids [of zero_store] store_inv_new(2) by simp
qed

section \<open>Two lives\<close>

lemma reported_taken:
  assumes "fresh_worker op" "op_durable op"
    and "worker_run operator_deliver operator_tick_state operator_results operator_job_state ops (op, []) = (op', reported)"
    and "oef_events (snd (operator_trace ops (op, no_effects))) = es"
  shows "ev_ID ` tr_Event ` set reported \<subseteq> ev_ID ` set es" "distinct (map ev_ID es)"
proof -
  let ?n = "length (st_events (op_store op))"
  have fresh: "loop_ok op" "op_cursor op = ?n" "op_pending op = []" "store_inv (op_store op)" using assms(1,2) by (auto simp: fresh_worker_def loop_ok_def)
  obtain ef' where tr: "operator_trace ops (op, no_effects) = (op', ef')" using trace_state [OF assms(3), of no_effects] by (metis prod.collapse)
  have "loop_ok op' \<and> ?n \<le> op_cursor op' \<and> oef_events ef' = [] @ taken ?n op'"
    using trace_taken [OF fresh(1) _ tr, of ?n "[]"] fresh(2) by (simp add: taken_def no_effects_def)
  then have es: "es = taken ?n op'" "store_inv (op_store op')" using assms(4) by (simp_all add: tr loop_ok_def)
  have "poll_inv ?n (op_store op', (op_cursor op', op_pending op'), reported)"
    using operator_worker.worker_run_inv [OF _ assms(3), of ?n] poll_inv_start [OF fresh(4)] fresh(2,3) by simp
  then show "ev_ID ` tr_Event ` set reported \<subseteq> ev_ID ` set es"
    by (auto simp: poll_inv_def pending_inv_def list_all_iff es(1) taken_def)
  show "distinct (map ev_ID es)"
    using es(2) by (simp add: es(1) taken_def store_inv_def drop_map [symmetric] take_map [symmetric] distinct_drop distinct_take)
qed

text \<open>C7: A restart does not repeat alerts. Let a durable operator run, in any order of deliveries, ticks and other jobs, and let
  its loop's writes and the retention sweeps reach the database in their order, some of them failing. Every
  deploy it reported was handed to the database; and if that write succeeded, no sweep removed it
  and it lies in the window that the next process loads, then the next process never reports this deploy, however
  often it is delivered again.\<close>

theorem restart_never_repeats:
  assumes "runOperator env parsed = OpRun op" "op_durable op"
    and "worker_run operator_deliver operator_tick_state operator_results operator_job_state ops (op, []) = (op', reported)"
    and "List.map_filter written_event ws = oef_events (snd (operator_trace ops (op, no_effects)))"
    and "oe_stateEvents env2 = (\<lambda>lo hi. pge_EventsInRange ts no_faults lo hi (fold (apply_write ts) ws db))"
    and "runOperator env2 (FlagsParsed fl2) = OpRun op2" "op_durable op2"
    and "worker_run operator_deliver operator_tick_state operator_results operator_job_state ops2 (op2, []) = (op2', reported2)"
  shows "list_all (\<lambda>t. list_ex (\<lambda>e. ev_ID e = ev_ID (tr_Event t) \<and>
      (survives ts ws e \<and> ts (backfill_since env2 fl2) \<le> ts (ev_Timestamp e) \<and> ts (ev_Timestamp e) \<le> ts (oe_now env2) \<longrightarrow>
        ev_ID e \<notin> ev_ID ` tr_Event ` set reported2)) (List.map_filter written_event ws)) reported"
proof -
  note taken = reported_taken [OF runOperator_fresh [OF assms(1)] assms(2,3) assms(4) [symmetric]]
  have silent: "ev_ID e \<notin> ev_ID ` tr_Event ` set reported2"
    if "survives ts ws e" "ts (backfill_since env2 fl2) \<le> ts (ev_Timestamp e)" "ts (ev_Timestamp e) \<le> ts (oe_now env2)" for e
  proof -
    have "at_resolution ts e \<in> set (tb_deploy_events (fold (apply_write ts) ws db))" by (rule survivor_stored [OF that(1) taken(2)])
    then have "ev_ID (at_resolution ts e) \<in> ev_ID ` set (st_events (op_store op2))"
      using restart_backfills [OF assms(6,7)] that(2,3)
      by (simp add: assms(5) pge_range_eq range_filter_def) (erule subsetD, rule image_eqI [where x = "at_resolution ts e"], simp_all)
    then show ?thesis
      using operator_worker.worker_reports_once [OF _ _ assms(8)] runOperator_fresh [OF assms(6)] by (auto simp: fresh_worker_def list_all_iff)
  qed
  have "list_ex (\<lambda>e. ev_ID e = ev_ID (tr_Event t) \<and> (survives ts ws e \<and> ts (backfill_since env2 fl2) \<le> ts (ev_Timestamp e) \<and>
      ts (ev_Timestamp e) \<le> ts (oe_now env2) \<longrightarrow> ev_ID e \<notin> ev_ID ` tr_Event ` set reported2)) (List.map_filter written_event ws)"
    if "t \<in> set reported" for t
  proof -
    have "ev_ID (tr_Event t) \<in> ev_ID ` set (List.map_filter written_event ws)" by (rule subsetD [OF taken(1)]) (use that in simp)
    then obtain e where "e \<in> set (List.map_filter written_event ws)" "ev_ID e = ev_ID (tr_Event t)" by (metis imageE)
    then show ?thesis using silent unfolding list_ex_iff by blast
  qed
  then show ?thesis unfolding list_all_iff by blast
qed

section \<open>Witnesses\<close>

lemma slow_first:
  "snd (worker_run operator_deliver operator_tick_state operator_results operator_job_state [WDeliver hidden_deploy, WTick slow_tick] (slow_operator, [])) =
    [\<lparr>tr_Event = hidden_deploy, tr_Regression = slow_regression\<rparr>]"
  "oef_events (snd (operator_trace [WDeliver hidden_deploy, WTick slow_tick] (slow_operator, no_effects))) = [hidden_deploy]"
proof -
  let ?op = "operator_deliver hidden_deploy slow_operator"
  have op: "slow_state ?op (0, [])" by (simp add: slow_state_def operator_deliver_def slow_operator_fields slow_store_def)
  then show "snd (worker_run operator_deliver operator_tick_state operator_results operator_job_state [WDeliver hidden_deploy, WTick slow_tick] (slow_operator, [])) =
    [\<lparr>tr_Event = hidden_deploy, tr_Regression = slow_regression\<rparr>]" using slow_ticks(1) by simp
  have "op_durable ?op" by (simp add: operator_deliver_def slow_operator_def operator_backfill_def case_prod_unfold Let_def)
  moreover have "fst (store_DrainSince 0 slow_store) = [hidden_deploy]" by (simp add: store_DrainSince_def slow_store_def single_store)
  ultimately show "oef_events (snd (operator_trace [WDeliver hidden_deploy, WTick slow_tick] (slow_operator, no_effects))) = [hidden_deploy]"
    using op by (simp add: slow_tick_def slow_state_def operator_poll_step_def no_effects_def Let_def split: prod.splits)
qed

definition slow_writes :: "event_write list" where
  "slow_writes = [SweepEvents (Some ''timeout'') (hidden_at + 1000), WriteEvent None hidden_deploy, SweepEvents None (hidden_at - 1000)]"

definition slow_env2 :: operator_env where
  "slow_env2 = slow_env\<lparr>oe_stateEvents := (\<lambda>lo hi. pge_EventsInRange micro no_faults lo hi (fold (apply_write micro) slow_writes empty_tables))\<rparr>"

theorem restart_never_repeats_witness:
  "\<exists>op op' op2 op2' reported2. runOperator slow_env (FlagsParsed slow_flags) = OpRun op \<and>
     worker_run operator_deliver operator_tick_state operator_results operator_job_state [WDeliver hidden_deploy, WTick slow_tick] (op, []) =
       (op', [\<lparr>tr_Event = hidden_deploy, tr_Regression = slow_regression\<rparr>]) \<and>
     runOperator slow_env2 (FlagsParsed slow_flags) = OpRun op2 \<and>
     worker_run operator_deliver operator_tick_state operator_results operator_job_state [WDeliver hidden_deploy, WTick slow_tick] (op2, []) = (op2', reported2) \<and>
     ''d'' \<notin> ev_ID ` tr_Event ` set reported2"
proof -
  note start = slow_start
  note start2 = slow_start_with [OF slow_env2_def]
  have durable: "op_durable (operator_backfill env fl op)" for env fl op by (simp add: operator_backfill_def case_prod_unfold Let_def)
  obtain op' where run: "worker_run operator_deliver operator_tick_state operator_results operator_job_state [WDeliver hidden_deploy, WTick slow_tick] (slow_operator, []) =
      (op', [\<lparr>tr_Event = hidden_deploy, tr_Regression = slow_regression\<rparr>])" using slow_first(1) by (metis prod.collapse)
  obtain op2' reported2 where run2: "worker_run operator_deliver operator_tick_state operator_results operator_job_state [WDeliver hidden_deploy, WTick slow_tick]
      (operator_backfill slow_env2 slow_flags (operator_new slow_env2 slow_flags slow_notifier), []) = (op2', reported2)" by (metis prod.exhaust)
  have ws: "List.map_filter written_event slow_writes = [hidden_deploy]" by (simp add: slow_writes_def List.map_filter_simps)
  have e: "ev_ID hidden_deploy = ''d''" "survives micro slow_writes hidden_deploy" "micro (backfill_since slow_env2 slow_flags) \<le> micro (ev_Timestamp hidden_deploy)"
    "micro (ev_Timestamp hidden_deploy) \<le> micro (oe_now slow_env2)" by code_simp+
  have handed: "List.map_filter written_event slow_writes = oef_events (snd (operator_trace [WDeliver hidden_deploy, WTick slow_tick] (slow_operator, no_effects)))"
    unfolding ws slow_first(2) ..
  have loaded: "oe_stateEvents slow_env2 = (\<lambda>lo hi. pge_EventsInRange micro no_faults lo hi (fold (apply_write micro) slow_writes empty_tables))"
    by (simp add: slow_env2_def)
  have "op_durable slow_operator" by (simp add: slow_operator_def durable)
  from restart_never_repeats [OF start this run handed loaded start2 durable run2]
  have "''d'' \<notin> ev_ID ` tr_Event ` set reported2" using e unfolding ws by simp
  then show ?thesis using start run start2 run2 by blast
qed

end
