(* ===== verification/Reporting.thy ===== *)
theory Reporting
  imports Restart
begin

text \<open>
  What reaches the outside: every detection of the operator is reported exactly once while its deploy is
  under analysis, and the requests of a run are bounded by its reports.
\<close>

lemma distinct_count_list_one: "distinct xs \<Longrightarrow> x \<in> set xs \<Longrightarrow> count_list xs x = 1"
  by (induction xs) (auto simp: count_list_0_iff)

section \<open>Requests\<close>

lemma operator_alert_posts:
  assumes "operator_alert http op r (n, ps) = (n', ps')"
  shows "wn_URL n' = wn_URL n" "length ps' \<le> Suc (length ps)" "list_all (\<lambda>p. post_URL p = wn_URL n) ps \<Longrightarrow> list_all (\<lambda>p. post_URL p = wn_URL n) ps'"
  using assms by (auto simp: operator_alert_def notify_def observeDetectedRegression_def count_notification_def Let_def
      split: if_splits sum.splits prod.splits http_result.splits)

lemma operator_alerts_posts:
  assumes "fold (\<lambda>tr. operator_alert http op (tr_Regression tr)) trs (n, ps) = (n', ps')" "list_all (\<lambda>p. post_URL p = wn_URL n) ps"
  shows "wn_URL n' = wn_URL n \<and> length ps' \<le> length ps + length trs \<and> list_all (\<lambda>p. post_URL p = wn_URL n) ps'"
  using assms
proof (induction trs arbitrary: n ps)
  case (Cons tr trs)
  obtain n1 ps1 where one: "operator_alert http op (tr_Regression tr) (n, ps) = (n1, ps1)" by (metis prod.exhaust)
  then show ?case using Cons.IH [of n1 ps1] Cons.prems operator_alert_posts [OF one] by auto
qed simp

fun periodic_job :: "('x, operator_job \<times> 'e) worker_op \<Rightarrow> bool" where
  "periodic_job (WJob (PeriodicJob http clock now, ef)) = True"
| "periodic_job _ = False"

definition posts_ok :: "operator \<times> operator_effects \<Rightarrow> string \<Rightarrow> nat \<Rightarrow> bool" where
  "posts_ok st url k \<longleftrightarrow> wn_URL (op_notifier (fst st)) = url \<and> length (oef_posts (snd st)) \<le> k \<and>
     list_all (\<lambda>p. post_URL p = url) (oef_posts (snd st))"

lemma poll_step_posts:
  assumes "posts_ok (op, ef) url k"
  shows "posts_ok (operator_poll_step http clock now (op, ef)) url (k + length (operator_results (http, clock, now, ef') op))"
proof -
  let ?trs = "operator_results (http, clock, now, ef') op"
  obtain n' ps' where f: "fold (\<lambda>tr. operator_alert http op (tr_Regression tr)) ?trs (op_notifier op, []) = (n', ps')" by (metis prod.exhaust)
  have "operator_results (http, clock, now, ef) op = ?trs" by (simp add: operator_results_def)
  then have "oef_posts (snd (operator_poll_step http clock now (op, ef))) = oef_posts ef @ ps'"
    using operator_alerts [of http clock now op ef] f by simp
  moreover have "op_notifier (fst (operator_poll_step http clock now (op, ef))) = n'"
    using f by (auto simp: operator_poll_step_def operator_results_def Let_def split: prod.splits)
  ultimately show ?thesis using assms operator_alerts_posts [OF f] by (auto simp: posts_ok_def)
qed

lemma trace_posts:
  assumes "posts_ok (op, ef) url (length rep)" "\<not> list_ex periodic_job ops"
    and "worker_run operator_deliver operator_tick_state operator_results operator_job_state ops (op, rep) = (op', rep')"
  shows "posts_ok (operator_trace ops (op, ef)) url (length rep')"
  using assms
proof (induction ops arbitrary: op ef rep)
  case (Cons x ops)
  show ?case
  proof (cases x)
    case (WDeliver ev)
    then show ?thesis using Cons.IH [of "operator_deliver ev op" ef rep] Cons.prems by (simp add: posts_ok_def operator_deliver_def)
  next
    case (WTick t)
    obtain http clock now ef0 where t: "t = (http, clock, now, ef0)" by (cases t)
    obtain op1 ef1 where s: "operator_poll_step http clock now (op, ef) = (op1, ef1)" by (metis prod.exhaust)
    have "op1 = operator_tick_state t op" using poll_step_state [of http clock now op ef ef0] by (simp add: s t)
    moreover have "posts_ok (op1, ef1) url (length (rep @ operator_results t op))" using poll_step_posts [OF Cons.prems(1), of http clock now ef0] by (simp add: s t)
    ultimately show ?thesis using Cons.IH [of op1 ef1 "rep @ operator_results t op"] Cons.prems(2,3) by (simp add: WTick t s)
  next
    case (WJob y)
    obtain j ef0 where y: "y = (j, ef0)" by (cases y)
    obtain op1 ef1 where s: "operator_job_step j (op, ef) = (op1, ef1)" by (metis prod.exhaust)
    have "op1 = operator_job_state y op" using job_step_state [of j op ef ef0] by (simp add: s y)
    moreover have "posts_ok (op1, ef1) url (length rep)"
      using Cons.prems(1,2) s by (cases j) (auto simp: WJob y posts_ok_def mirror_step_def)
    ultimately show ?thesis using Cons.IH [of op1 ef1 rep] Cons.prems(2,3) by (simp add: WJob y s)
  qed
qed simp

section \<open>Properties\<close>

text \<open>C5: No detection about a deploy that the operator receives is lost. For a deploy that was delivered after the start (the
  persisted history, which a start loads, is not analysed again), after any interleaving of deliveries, ticks and other jobs in which the
  analysis window of the deploy is still open: whatever the analysis of this deploy detects at the next tick has
  then been handed to alerting exactly once, at this tick or at an earlier one. The next tick itself may be the one that
  closes the window.\<close>

theorem operator_reports_every_detection:
  assumes "runOperator env parsed = OpRun op"
    and "worker_run operator_deliver operator_tick_state operator_results operator_job_state ops (op, []) = (op', reported)"
    and "ev \<in> set (st_events (op_store op'))" "ev \<notin> set (st_events (op_store op))"
    and "\<And>http clock now ef. WTick (http, clock, now, ef) \<in> set ops \<Longrightarrow> now < time_add (ev_Timestamp ev) (analysisWindow (operator_engine op))"
    and "r \<in> set (analyse (operator_engine op') (clock ev) ev)" "pr_Status r = StatusDetected"
  shows "count_list (map (\<lambda>t. (ev_ID (tr_Event t), pr_QueryID (tr_Regression t))) (reported @ operator_results (http, clock, now, ef) op'))
    (ev_ID ev, pr_QueryID r) = 1"
proof -
  let ?x = "(http, clock, now, ef)"
  note fresh = runOperator_fresh [OF assms(1), unfolded fresh_worker_def]
  have "operator_steady.open_during (time_add (ev_Timestamp ev) (analysisWindow (operator_engine op))) ops"
    using assms(5) by (auto simp: operator_steady.open_during_def)
  then have "(ev_ID ev, pr_QueryID r) \<in> tr_key ` set (reported @ operator_results ?x op')"
    using operator_steady.worker_reports_all [OF _ _ assms(2-4), of r ?x] fresh assms(6,7) by simp
  moreover have "worker_run operator_deliver operator_tick_state operator_results operator_job_state (ops @ [WTick ?x]) (op, []) =
      (operator_tick_state ?x op', reported @ operator_results ?x op')"
    by (simp add: worker_run_append assms(2))
  then have "distinct (map tr_key (reported @ operator_results ?x op'))"
    using operator_worker.worker_reports_once [of op "ops @ [WTick ?x]"] fresh by simp
  ultimately show ?thesis unfolding tr_key_fun [symmetric] by (intro distinct_count_list_one) (simp_all only: set_map)
qed

text \<open>C20: Alerts are bounded. In any run of an operator without periodic detection the number of requests sent is at most the number of
  distinct pairs of deploy and query that were reported, and each of them goes to the one destination that
  was checked at the start.\<close>

theorem operator_posts_bounded:
  assumes "runOperator env parsed = OpRun op" "\<not> list_ex periodic_job ops"
    and "worker_run operator_deliver operator_tick_state operator_results operator_job_state ops (op, []) = (op', reported)"
    and "operator_trace ops (op, no_effects) = (op1, ef)"
  shows "length (oef_posts ef) \<le> card (set (map (\<lambda>t. (ev_ID (tr_Event t), pr_QueryID (tr_Regression t))) reported)) \<and>
    list_all (\<lambda>p. post_URL p = wn_URL (op_notifier op)) (oef_posts ef)"
proof -
  have "posts_ok (op, no_effects) (wn_URL (op_notifier op)) (length [])" by (simp add: posts_ok_def no_effects_def)
  from trace_posts [OF this assms(2,3)] have posts: "posts_ok (op1, ef) (wn_URL (op_notifier op)) (length reported)" by (simp add: assms(4))
  have "distinct (map tr_key reported)"
    using operator_worker.worker_reports_once [OF _ _ assms(3)] runOperator_fresh [OF assms(1)] by (simp add: fresh_worker_def)
  then have "card (set (map tr_key reported)) = length reported" by (metis distinct_card length_map)
  then show ?thesis using posts unfolding posts_ok_def tr_key_fun [symmetric] by simp
qed

section \<open>Witnesses\<close>

theorem operator_reports_every_detection_witness:
  "\<exists>op'. fst (worker_run operator_deliver operator_tick_state operator_results operator_job_state [WDeliver hidden_deploy, WTick slow_tick] (slow_operator, [])) = op' \<and>
    count_list (map (\<lambda>t. (ev_ID (tr_Event t), pr_QueryID (tr_Regression t)))
      ([\<lparr>tr_Event = hidden_deploy, tr_Regression = slow_regression\<rparr>] @ operator_results slow_tick op')) (''d'', 2) = 1"
proof -
  obtain op' where run: "worker_run operator_deliver operator_tick_state operator_results operator_job_state [WDeliver hidden_deploy, WTick slow_tick] (slow_operator, []) =
      (op', [\<lparr>tr_Event = hidden_deploy, tr_Regression = slow_regression\<rparr>])" using slow_first(1) by (metis prod.collapse)
  have "slow_state (operator_deliver hidden_deploy slow_operator) (0, [])"
    by (simp add: slow_state_def operator_deliver_def slow_operator_fields slow_store_def)
  then have st: "slow_state op' (1, [slow_pending [2]])" using slow_ticks(1) run by auto
  then have store: "hidden_deploy \<in> set (st_events (op_store op'))" "hidden_deploy \<notin> set (st_events (op_store slow_operator))"
    by (simp add: slow_state_def slow_store_def single_store) (simp add: slow_operator_fields zero_store_def)
  have window: "operator_engine slow_operator = \<lparr>eng_cfg = hidden_engine_cfg, eng_src = collector_src slow_collector\<rparr>"
    "operator_engine op' = \<lparr>eng_cfg = hidden_engine_cfg, eng_src = collector_src slow_collector\<rparr>"
    using st by (simp_all add: slow_engine slow_operator_fields slow_state_def)
  have ev: "ev_ID hidden_deploy = ''d''" "ev_Timestamp hidden_deploy = hidden_at" by (simp_all add: hidden_deploy_def sample_event_def)
  have "pr_Status slow_regression = StatusDetected" "pr_QueryID slow_regression = 2" "slow_regression \<in> set (analyse (operator_engine op') (\<lambda>n. 0) hidden_deploy)"
    by (simp_all add: slow_regression_def slow_detected evaluateQuery_fields window slow_analyse)
  then show ?thesis
    using operator_reports_every_detection [OF slow_start run store, of slow_regression "\<lambda>ev n. 0"] run
    by (auto simp: slow_tick_def window ev analysisWindow_def hidden_window)
qed

theorem operator_posts_bounded_witness:
  "\<exists>op ef p. operator_trace [WDeliver hidden_deploy, WTick slow_tick] (slow_operator, no_effects) = (op, ef) \<and>
    oef_posts ef = [p] \<and> post_URL p = ''https://hooks.example.com/x''"
proof -
  obtain op' where run: "worker_run operator_deliver operator_tick_state operator_results operator_job_state [WDeliver hidden_deploy, WTick slow_tick] (slow_operator, []) =
      (op', [\<lparr>tr_Event = hidden_deploy, tr_Regression = slow_regression\<rparr>])" using slow_first(1) by (metis prod.collapse)
  obtain op ef where tr: "operator_trace [WDeliver hidden_deploy, WTick slow_tick] (slow_operator, no_effects) = (op, ef)" by (metis prod.exhaust)
  have n: "op_notifier slow_operator = slow_notifier" by (simp add: slow_operator_def operator_backfill_def operator_new_def case_prod_unfold Let_def)
  have "length (oef_posts ef) \<le> 1 \<and> list_all (\<lambda>p. post_URL p = slow_url) (oef_posts ef)"
    using operator_posts_bounded [OF slow_start _ run tr] by (simp add: n slow_notifier_def newWebhookNotifier_def)
  moreover have "oef_posts ef \<noteq> []"
  proof -
    let ?op = "operator_deliver hidden_deploy slow_operator"
    have "operator_results slow_tick ?op = [\<lparr>tr_Event = hidden_deploy, tr_Regression = slow_regression\<rparr>]"
      by (rule conjunct2 [OF slow_ticks(1)]) (simp add: slow_state_def operator_deliver_def slow_operator_fields slow_store_def)
    moreover have "oef_posts ef = snd (fold (\<lambda>tr. operator_alert (\<lambda>p. SendError ''refused'') ?op (tr_Regression tr)) (operator_results slow_tick ?op) (op_notifier ?op, []))"
      using arg_cong [OF tr, of "\<lambda>x. oef_posts (snd x)"] operator_alerts [of "\<lambda>p. SendError ''refused''" "\<lambda>ev n. 0" "hidden_at + 600000000000" ?op no_effects]
      by (simp add: slow_tick_def no_effects_def)
    moreover have "pr_Status slow_regression = StatusDetected" by (simp add: slow_regression_def slow_detected)
    moreover have "op_capturePlans ?op = False" by (simp add: operator_deliver_def slow_operator_def operator_backfill_def operator_new_def case_prod_unfold Let_def slow_flags_def sample_flags_def)
    moreover have "op_notifier ?op = slow_notifier" by (simp add: operator_deliver_def n)
    ultimately show ?thesis
      by (simp add: operator_alert_def operator_plan_diff_def notify_def observeDetectedRegression_def slow_notifier_def newWebhookNotifier_def slow_url_def
          formatter_Format_def Let_def split: prod.splits)
  qed
  ultimately obtain p where "oef_posts ef = [p]" "post_URL p = slow_url" by (cases "oef_posts ef") auto
  then show ?thesis using tr by (auto simp: slow_url_def)
qed

end
