(* ===== verification/Deep_Copy.thy ===== *)
theory Deep_Copy
  imports Watch_Controller
begin

text \<open>
  Deep copies of the API objects (\<open>api/v1alpha1/zz_generated.deepcopy.go\<close>). The other theories treat objects as
  values; here they are structs with pointers and slices into a memory, a list of cells that is
  indexed by addresses and grows at its end. A pointer is an optional address; a slice is the address of an array of its own. A
  view reads a struct with all it points to as a value of \<open>Kube_Types\<close>. The contract of a copy is the
  locale \<open>deep_copier\<close>: the copy has the same view, and shares no cell with anything that existed before.
  Of \<open>k8s.io/apimachinery\<close> the copies of \<open>ObjectMeta\<close>, \<open>ListMeta\<close>, \<open>Time\<close> and \<open>Condition\<close> are arguments. New cells are filled when they are
  allocated, after what they point to; in Go they are allocated first, which only changes the numbering.
\<close>

section \<open>Copying\<close>

type_synonym addr = nat

definition new_cell :: "'c \<Rightarrow> 'c list \<Rightarrow> addr \<times> 'c list" where
  "new_cell c h = (length h, h @ [c])"

text \<open>\<open>*out = *in\<close> for a struct without pointers.\<close>

definition assign :: "'a \<Rightarrow> 'c list \<Rightarrow> 'a \<times> 'c list" where
  "assign x h = (x, h)"

text \<open>A pointer is copied by copying what it points to into a new cell; \<open>mk\<close> and \<open>sel\<close> are the constructor and the selector of
  the cells of its type.\<close>

definition copy_ptr :: "('a \<Rightarrow> 'c) \<Rightarrow> ('c \<Rightarrow> 'a) \<Rightarrow> ('a \<Rightarrow> 'c list \<Rightarrow> 'a \<times> 'c list) \<Rightarrow> addr option \<Rightarrow> 'c list \<Rightarrow> addr option \<times> 'c list" where
  "copy_ptr mk sel into p h =
     (case p of
        None \<Rightarrow> (None, h)
      | Some a \<Rightarrow> (let (x, h1) = into (sel (h ! a)) h; (b, h2) = new_cell (mk x) h1 in (Some b, h2)))"

fun copy_elems :: "('a \<Rightarrow> 'c list \<Rightarrow> 'a \<times> 'c list) \<Rightarrow> 'a list \<Rightarrow> 'c list \<Rightarrow> 'a list \<times> 'c list" where
  "copy_elems into [] h = ([], h)"
| "copy_elems into (x # xs) h = (let (y, h1) = into x h; (ys, h2) = copy_elems into xs h1 in (y # ys, h2))"

definition copy_pair :: "('a \<Rightarrow> 'c list \<Rightarrow> 'a \<times> 'c list) \<Rightarrow> ('b \<Rightarrow> 'c list \<Rightarrow> 'b \<times> 'c list) \<Rightarrow> 'a \<times> 'b \<Rightarrow> 'c list \<Rightarrow> ('a \<times> 'b) \<times> 'c list" where
  "copy_pair into1 into2 z h = (let (x, h1) = into1 (fst z) h; (y, h2) = into2 (snd z) h1 in ((x, y), h2))"

section \<open>Structs and cells\<close>

text \<open>A struct with pointers has its other fields in a record of \<open>Kube_Types\<close>, whose fields for the pointers are not looked at.\<close>

record source_config_struct =
  sc_plain :: sample_source_config
  sc_Prometheus :: "addr option"

record watch_spec_struct =
  ws_plain :: watch_spec
  ws_DSNSecretRef :: "addr option"
  ws_RemoteClusterSecretRef :: "addr option"
  ws_CriticalQueryIDs :: "addr option"
  ws_AutoAbort :: "addr option"
  ws_Alerting :: "addr option"
  ws_PeriodicDetection :: "addr option"
  ws_SampleSource :: "addr option"

record watch_status_struct =
  wt_plain :: watch_status
  wt_LastScrapeTime :: "addr option"
  wt_Conditions :: "addr option"

record source_status_struct =
  st_plain :: source_status
  st_Conditions :: "addr option"

record regression_status_struct =
  rt_plain :: regression_cr_status
  rt_DetectedAt :: "addr option"
  rt_Conditions :: "addr option"

record cluster_status =
  cs_Ready :: bool
  cs_Message :: string
  cs_ObservedGeneration :: int

record type_meta =
  tm_Kind :: string
  tm_APIVersion :: string

text \<open>An object of the API, and a list of objects with the address of its items.\<close>

record ('m, 's, 't) kobject =
  ob_TypeMeta :: type_meta
  ob_ObjectMeta :: 'm
  ob_Spec :: 's
  ob_Status :: 't

record 'k klist =
  kl_TypeMeta :: type_meta
  kl_ListMeta :: 'k
  kl_Items :: "addr option"

type_synonym 'm watch_struct = "('m, watch_spec_struct, watch_status_struct) kobject"
type_synonym 'm source_struct = "('m, source_spec, source_status_struct) kobject"
type_synonym 'm regression_struct = "('m, regression_spec, regression_status_struct) kobject"
type_synonym 'm cluster_struct = "('m, radar_cluster, cluster_status) kobject"

text \<open>\<open>'l\<close> are the cells of the library.\<close>

datatype ('m, 'k, 'l) cell =
    CSecretKeySelector (theSecretKeySelector: secret_key_selector)
  | CKubeconfigSecretSelector (theKubeconfigSecretSelector: kubeconfig_selector)
  | CInt64s (theInt64s: "queryid list")
  | CAutoAbortConfig (theAutoAbortConfig: auto_abort_config)
  | CAlertingConfig (theAlertingConfig: alerting_config)
  | CPeriodicDetectionConfig (thePeriodicDetectionConfig: periodic_config)
  | CPrometheus (thePrometheus: prometheus_config)
  | CSampleSourceConfig (theSampleSourceConfig: source_config_struct)
  | CTime (theTime: gtime)
  | CConditions (theConditions: "condition list")
  | CWatchSpec (theWatchSpec: watch_spec_struct)
  | CWatchStatus (theWatchStatus: watch_status_struct)
  | CWatch (theWatch: "'m watch_struct")
  | CWatches (theWatches: "'m watch_struct list")
  | CWatchList (theWatchList: "'k klist")
  | CSourceSpec (theSourceSpec: source_spec)
  | CSourceStatus (theSourceStatus: source_status_struct)
  | CSource (theSource: "'m source_struct")
  | CSources (theSources: "'m source_struct list")
  | CSourceList (theSourceList: "'k klist")
  | CRegressionSpec (theRegressionSpec: regression_spec)
  | CRegressionStatus (theRegressionStatus: regression_status_struct)
  | CRegression (theRegression: "'m regression_struct")
  | CRegressions (theRegressions: "'m regression_struct list")
  | CRegressionList (theRegressionList: "'k klist")
  | CClusterSpec (theClusterSpec: radar_cluster)
  | CClusterStatus (theClusterStatus: cluster_status)
  | CCluster (theCluster: "'m cluster_struct")
  | CClusters (theClusters: "'m cluster_struct list")
  | CClusterList (theClusterList: "'k klist")
  | CLibrary (theLibrary: 'l)

type_synonym ('m, 'k, 'l) memory = "('m, 'k, 'l) cell list"

record ('m, 'k, 'l) kube_lib =
  lib_ObjectMeta :: "'m \<Rightarrow> ('m, 'k, 'l) memory \<Rightarrow> 'm \<times> ('m, 'k, 'l) memory"
  lib_ListMeta :: "'k \<Rightarrow> ('m, 'k, 'l) memory \<Rightarrow> 'k \<times> ('m, 'k, 'l) memory"
  lib_Time :: "gtime \<Rightarrow> gtime"
  lib_Condition :: "condition \<Rightarrow> condition"

section \<open>DeepCopyInto\<close>

definition AlertingConfig_DeepCopyInto :: "alerting_config \<Rightarrow> ('m, 'k, 'l) memory \<Rightarrow> alerting_config \<times> ('m, 'k, 'l) memory" where
  "AlertingConfig_DeepCopyInto x h = assign x h"

definition AutoAbortConfig_DeepCopyInto :: "auto_abort_config \<Rightarrow> ('m, 'k, 'l) memory \<Rightarrow> auto_abort_config \<times> ('m, 'k, 'l) memory" where
  "AutoAbortConfig_DeepCopyInto x h = assign x h"

definition DeploySourceSpec_DeepCopyInto :: "source_spec \<Rightarrow> ('m, 'k, 'l) memory \<Rightarrow> source_spec \<times> ('m, 'k, 'l) memory" where
  "DeploySourceSpec_DeepCopyInto x h = assign x h"

definition PerformanceRegressionSpec_DeepCopyInto :: "regression_spec \<Rightarrow> ('m, 'k, 'l) memory \<Rightarrow> regression_spec \<times> ('m, 'k, 'l) memory" where
  "PerformanceRegressionSpec_DeepCopyInto x h = assign x h"

definition PeriodicDetectionConfig_DeepCopyInto :: "periodic_config \<Rightarrow> ('m, 'k, 'l) memory \<Rightarrow> periodic_config \<times> ('m, 'k, 'l) memory" where
  "PeriodicDetectionConfig_DeepCopyInto x h = assign x h"

definition SecretKeySelector_DeepCopyInto :: "secret_key_selector \<Rightarrow> ('m, 'k, 'l) memory \<Rightarrow> secret_key_selector \<times> ('m, 'k, 'l) memory" where
  "SecretKeySelector_DeepCopyInto x h = assign x h"

definition KubeconfigSecretSelector_DeepCopyInto :: "kubeconfig_selector \<Rightarrow> ('m, 'k, 'l) memory \<Rightarrow> kubeconfig_selector \<times> ('m, 'k, 'l) memory" where
  "KubeconfigSecretSelector_DeepCopyInto x h = assign x h"

definition PostgresRadarClusterSpec_DeepCopyInto :: "radar_cluster \<Rightarrow> ('m, 'k, 'l) memory \<Rightarrow> radar_cluster \<times> ('m, 'k, 'l) memory" where
  "PostgresRadarClusterSpec_DeepCopyInto x h = assign x h"

definition PostgresRadarClusterStatus_DeepCopyInto :: "cluster_status \<Rightarrow> ('m, 'k, 'l) memory \<Rightarrow> cluster_status \<times> ('m, 'k, 'l) memory" where
  "PostgresRadarClusterStatus_DeepCopyInto x h = assign x h"

definition PrometheusSampleSourceConfig_DeepCopyInto :: "prometheus_config \<Rightarrow> ('m, 'k, 'l) memory \<Rightarrow> prometheus_config \<times> ('m, 'k, 'l) memory" where
  "PrometheusSampleSourceConfig_DeepCopyInto x h = assign x h"

definition SampleSourceConfig_DeepCopyInto :: "source_config_struct \<Rightarrow> ('m, 'k, 'l) memory \<Rightarrow> source_config_struct \<times> ('m, 'k, 'l) memory" where
  "SampleSourceConfig_DeepCopyInto x h =
     (let (p, h1) = copy_ptr CPrometheus thePrometheus assign (sc_Prometheus x) h in (x\<lparr>sc_Prometheus := p\<rparr>, h1))"

definition copy_conditions :: "('m, 'k, 'l) kube_lib \<Rightarrow> addr option \<Rightarrow> ('m, 'k, 'l) memory \<Rightarrow> addr option \<times> ('m, 'k, 'l) memory" where
  "copy_conditions l p h =
     copy_ptr CConditions theConditions (copy_elems (\<lambda>c h. (lib_Condition l c, h))) p h"

definition copy_time :: "('m, 'k, 'l) kube_lib \<Rightarrow> addr option \<Rightarrow> ('m, 'k, 'l) memory \<Rightarrow> addr option \<times> ('m, 'k, 'l) memory" where
  "copy_time l p h = copy_ptr CTime theTime (\<lambda>t h. (lib_Time l t, h)) p h"

definition DeploySourceStatus_DeepCopyInto :: "('m, 'k, 'l) kube_lib \<Rightarrow> source_status_struct \<Rightarrow> ('m, 'k, 'l) memory \<Rightarrow> source_status_struct \<times> ('m, 'k, 'l) memory" where
  "DeploySourceStatus_DeepCopyInto l x h =
     (let (p, h1) = copy_conditions l (st_Conditions x) h in (x\<lparr>st_Conditions := p\<rparr>, h1))"

definition PerformanceRegressionStatus_DeepCopyInto :: "('m, 'k, 'l) kube_lib \<Rightarrow> regression_status_struct \<Rightarrow> ('m, 'k, 'l) memory \<Rightarrow> regression_status_struct \<times> ('m, 'k, 'l) memory" where
  "PerformanceRegressionStatus_DeepCopyInto l x h =
     (let (p, h1) = copy_time l (rt_DetectedAt x) h; (q, h2) = copy_conditions l (rt_Conditions x) h1
      in (x\<lparr>rt_DetectedAt := p, rt_Conditions := q\<rparr>, h2))"

definition PostgresWatchStatus_DeepCopyInto :: "('m, 'k, 'l) kube_lib \<Rightarrow> watch_status_struct \<Rightarrow> ('m, 'k, 'l) memory \<Rightarrow> watch_status_struct \<times> ('m, 'k, 'l) memory" where
  "PostgresWatchStatus_DeepCopyInto l x h =
     (let (p, h1) = copy_time l (wt_LastScrapeTime x) h; (q, h2) = copy_conditions l (wt_Conditions x) h1
      in (x\<lparr>wt_LastScrapeTime := p, wt_Conditions := q\<rparr>, h2))"

definition PostgresWatchSpec_DeepCopyInto :: "watch_spec_struct \<Rightarrow> ('m, 'k, 'l) memory \<Rightarrow> watch_spec_struct \<times> ('m, 'k, 'l) memory" where
  "PostgresWatchSpec_DeepCopyInto x h =
     (let (p1, h1) = copy_ptr CSecretKeySelector theSecretKeySelector assign (ws_DSNSecretRef x) h;
          (p2, h2) = copy_ptr CSecretKeySelector theSecretKeySelector assign (ws_RemoteClusterSecretRef x) h1;
          (p3, h3) = copy_ptr CInt64s theInt64s assign (ws_CriticalQueryIDs x) h2;
          (p4, h4) = copy_ptr CAutoAbortConfig theAutoAbortConfig assign (ws_AutoAbort x) h3;
          (p5, h5) = copy_ptr CAlertingConfig theAlertingConfig assign (ws_Alerting x) h4;
          (p6, h6) = copy_ptr CPeriodicDetectionConfig thePeriodicDetectionConfig assign (ws_PeriodicDetection x) h5;
          (p7, h7) = copy_ptr CSampleSourceConfig theSampleSourceConfig SampleSourceConfig_DeepCopyInto (ws_SampleSource x) h6
      in (x\<lparr>ws_DSNSecretRef := p1, ws_RemoteClusterSecretRef := p2, ws_CriticalQueryIDs := p3, ws_AutoAbort := p4, ws_Alerting := p5,
            ws_PeriodicDetection := p6, ws_SampleSource := p7\<rparr>, h7))"

definition DeploySource_DeepCopyInto :: "('m, 'k, 'l) kube_lib \<Rightarrow> 'm source_struct \<Rightarrow> ('m, 'k, 'l) memory \<Rightarrow> 'm source_struct \<times> ('m, 'k, 'l) memory" where
  "DeploySource_DeepCopyInto l x h =
     (let (m, h1) = lib_ObjectMeta l (ob_ObjectMeta x) h; (t, h2) = DeploySourceStatus_DeepCopyInto l (ob_Status x) h1
      in (x\<lparr>ob_ObjectMeta := m, ob_Status := t\<rparr>, h2))"

definition PerformanceRegression_DeepCopyInto :: "('m, 'k, 'l) kube_lib \<Rightarrow> 'm regression_struct \<Rightarrow> ('m, 'k, 'l) memory \<Rightarrow> 'm regression_struct \<times> ('m, 'k, 'l) memory" where
  "PerformanceRegression_DeepCopyInto l x h =
     (let (m, h1) = lib_ObjectMeta l (ob_ObjectMeta x) h; (t, h2) = PerformanceRegressionStatus_DeepCopyInto l (ob_Status x) h1
      in (x\<lparr>ob_ObjectMeta := m, ob_Status := t\<rparr>, h2))"

definition PostgresWatch_DeepCopyInto :: "('m, 'k, 'l) kube_lib \<Rightarrow> 'm watch_struct \<Rightarrow> ('m, 'k, 'l) memory \<Rightarrow> 'm watch_struct \<times> ('m, 'k, 'l) memory" where
  "PostgresWatch_DeepCopyInto l x h =
     (let (m, h1) = lib_ObjectMeta l (ob_ObjectMeta x) h; (s, h2) = PostgresWatchSpec_DeepCopyInto (ob_Spec x) h1; (t, h3) = PostgresWatchStatus_DeepCopyInto l (ob_Status x) h2
      in (x\<lparr>ob_ObjectMeta := m, ob_Spec := s, ob_Status := t\<rparr>, h3))"

definition PostgresRadarCluster_DeepCopyInto :: "('m, 'k, 'l) kube_lib \<Rightarrow> 'm cluster_struct \<Rightarrow> ('m, 'k, 'l) memory \<Rightarrow> 'm cluster_struct \<times> ('m, 'k, 'l) memory" where
  "PostgresRadarCluster_DeepCopyInto l x h =
     (let (m, h1) = lib_ObjectMeta l (ob_ObjectMeta x) h in (x\<lparr>ob_ObjectMeta := m\<rparr>, h1))"

definition DeploySourceList_DeepCopyInto :: "('m, 'k, 'l) kube_lib \<Rightarrow> 'k klist \<Rightarrow> ('m, 'k, 'l) memory \<Rightarrow> 'k klist \<times> ('m, 'k, 'l) memory" where
  "DeploySourceList_DeepCopyInto l x h =
     (let (m, h1) = lib_ListMeta l (kl_ListMeta x) h; (p, h2) = copy_ptr CSources theSources (copy_elems (DeploySource_DeepCopyInto l)) (kl_Items x) h1
      in (x\<lparr>kl_ListMeta := m, kl_Items := p\<rparr>, h2))"

definition PerformanceRegressionList_DeepCopyInto :: "('m, 'k, 'l) kube_lib \<Rightarrow> 'k klist \<Rightarrow> ('m, 'k, 'l) memory \<Rightarrow> 'k klist \<times> ('m, 'k, 'l) memory" where
  "PerformanceRegressionList_DeepCopyInto l x h =
     (let (m, h1) = lib_ListMeta l (kl_ListMeta x) h; (p, h2) = copy_ptr CRegressions theRegressions (copy_elems (PerformanceRegression_DeepCopyInto l)) (kl_Items x) h1
      in (x\<lparr>kl_ListMeta := m, kl_Items := p\<rparr>, h2))"

definition PostgresWatchList_DeepCopyInto :: "('m, 'k, 'l) kube_lib \<Rightarrow> 'k klist \<Rightarrow> ('m, 'k, 'l) memory \<Rightarrow> 'k klist \<times> ('m, 'k, 'l) memory" where
  "PostgresWatchList_DeepCopyInto l x h =
     (let (m, h1) = lib_ListMeta l (kl_ListMeta x) h; (p, h2) = copy_ptr CWatches theWatches (copy_elems (PostgresWatch_DeepCopyInto l)) (kl_Items x) h1
      in (x\<lparr>kl_ListMeta := m, kl_Items := p\<rparr>, h2))"

definition PostgresRadarClusterList_DeepCopyInto :: "('m, 'k, 'l) kube_lib \<Rightarrow> 'k klist \<Rightarrow> ('m, 'k, 'l) memory \<Rightarrow> 'k klist \<times> ('m, 'k, 'l) memory" where
  "PostgresRadarClusterList_DeepCopyInto l x h =
     (let (m, h1) = lib_ListMeta l (kl_ListMeta x) h; (p, h2) = copy_ptr CClusters theClusters (copy_elems (PostgresRadarCluster_DeepCopyInto l)) (kl_Items x) h1
      in (x\<lparr>kl_ListMeta := m, kl_Items := p\<rparr>, h2))"

section \<open>DeepCopy and DeepCopyObject\<close>

text \<open>A nil pointer is copied to nil; any other to a new struct.\<close>

definition AlertingConfig_DeepCopy :: "addr option \<Rightarrow> ('m, 'k, 'l) memory \<Rightarrow> addr option \<times> ('m, 'k, 'l) memory" where
  "AlertingConfig_DeepCopy p h = copy_ptr CAlertingConfig theAlertingConfig AlertingConfig_DeepCopyInto p h"

definition AutoAbortConfig_DeepCopy :: "addr option \<Rightarrow> ('m, 'k, 'l) memory \<Rightarrow> addr option \<times> ('m, 'k, 'l) memory" where
  "AutoAbortConfig_DeepCopy p h = copy_ptr CAutoAbortConfig theAutoAbortConfig AutoAbortConfig_DeepCopyInto p h"

definition DeploySourceSpec_DeepCopy :: "addr option \<Rightarrow> ('m, 'k, 'l) memory \<Rightarrow> addr option \<times> ('m, 'k, 'l) memory" where
  "DeploySourceSpec_DeepCopy p h = copy_ptr CSourceSpec theSourceSpec DeploySourceSpec_DeepCopyInto p h"

definition PerformanceRegressionSpec_DeepCopy :: "addr option \<Rightarrow> ('m, 'k, 'l) memory \<Rightarrow> addr option \<times> ('m, 'k, 'l) memory" where
  "PerformanceRegressionSpec_DeepCopy p h = copy_ptr CRegressionSpec theRegressionSpec PerformanceRegressionSpec_DeepCopyInto p h"

definition PeriodicDetectionConfig_DeepCopy :: "addr option \<Rightarrow> ('m, 'k, 'l) memory \<Rightarrow> addr option \<times> ('m, 'k, 'l) memory" where
  "PeriodicDetectionConfig_DeepCopy p h = copy_ptr CPeriodicDetectionConfig thePeriodicDetectionConfig PeriodicDetectionConfig_DeepCopyInto p h"

definition SecretKeySelector_DeepCopy :: "addr option \<Rightarrow> ('m, 'k, 'l) memory \<Rightarrow> addr option \<times> ('m, 'k, 'l) memory" where
  "SecretKeySelector_DeepCopy p h = copy_ptr CSecretKeySelector theSecretKeySelector SecretKeySelector_DeepCopyInto p h"

definition KubeconfigSecretSelector_DeepCopy :: "addr option \<Rightarrow> ('m, 'k, 'l) memory \<Rightarrow> addr option \<times> ('m, 'k, 'l) memory" where
  "KubeconfigSecretSelector_DeepCopy p h = copy_ptr CKubeconfigSecretSelector theKubeconfigSecretSelector KubeconfigSecretSelector_DeepCopyInto p h"

definition PostgresRadarClusterSpec_DeepCopy :: "addr option \<Rightarrow> ('m, 'k, 'l) memory \<Rightarrow> addr option \<times> ('m, 'k, 'l) memory" where
  "PostgresRadarClusterSpec_DeepCopy p h = copy_ptr CClusterSpec theClusterSpec PostgresRadarClusterSpec_DeepCopyInto p h"

definition PostgresRadarClusterStatus_DeepCopy :: "addr option \<Rightarrow> ('m, 'k, 'l) memory \<Rightarrow> addr option \<times> ('m, 'k, 'l) memory" where
  "PostgresRadarClusterStatus_DeepCopy p h = copy_ptr CClusterStatus theClusterStatus PostgresRadarClusterStatus_DeepCopyInto p h"

definition PrometheusSampleSourceConfig_DeepCopy :: "addr option \<Rightarrow> ('m, 'k, 'l) memory \<Rightarrow> addr option \<times> ('m, 'k, 'l) memory" where
  "PrometheusSampleSourceConfig_DeepCopy p h = copy_ptr CPrometheus thePrometheus PrometheusSampleSourceConfig_DeepCopyInto p h"

definition SampleSourceConfig_DeepCopy :: "addr option \<Rightarrow> ('m, 'k, 'l) memory \<Rightarrow> addr option \<times> ('m, 'k, 'l) memory" where
  "SampleSourceConfig_DeepCopy p h = copy_ptr CSampleSourceConfig theSampleSourceConfig SampleSourceConfig_DeepCopyInto p h"

definition PostgresWatchSpec_DeepCopy :: "addr option \<Rightarrow> ('m, 'k, 'l) memory \<Rightarrow> addr option \<times> ('m, 'k, 'l) memory" where
  "PostgresWatchSpec_DeepCopy p h = copy_ptr CWatchSpec theWatchSpec PostgresWatchSpec_DeepCopyInto p h"

definition DeploySourceStatus_DeepCopy :: "('m, 'k, 'l) kube_lib \<Rightarrow> addr option \<Rightarrow> ('m, 'k, 'l) memory \<Rightarrow> addr option \<times> ('m, 'k, 'l) memory" where
  "DeploySourceStatus_DeepCopy l p h = copy_ptr CSourceStatus theSourceStatus (DeploySourceStatus_DeepCopyInto l) p h"

definition PerformanceRegressionStatus_DeepCopy :: "('m, 'k, 'l) kube_lib \<Rightarrow> addr option \<Rightarrow> ('m, 'k, 'l) memory \<Rightarrow> addr option \<times> ('m, 'k, 'l) memory" where
  "PerformanceRegressionStatus_DeepCopy l p h = copy_ptr CRegressionStatus theRegressionStatus (PerformanceRegressionStatus_DeepCopyInto l) p h"

definition PostgresWatchStatus_DeepCopy :: "('m, 'k, 'l) kube_lib \<Rightarrow> addr option \<Rightarrow> ('m, 'k, 'l) memory \<Rightarrow> addr option \<times> ('m, 'k, 'l) memory" where
  "PostgresWatchStatus_DeepCopy l p h = copy_ptr CWatchStatus theWatchStatus (PostgresWatchStatus_DeepCopyInto l) p h"

definition DeploySource_DeepCopy :: "('m, 'k, 'l) kube_lib \<Rightarrow> addr option \<Rightarrow> ('m, 'k, 'l) memory \<Rightarrow> addr option \<times> ('m, 'k, 'l) memory" where
  "DeploySource_DeepCopy l p h = copy_ptr CSource theSource (DeploySource_DeepCopyInto l) p h"

definition DeploySourceList_DeepCopy :: "('m, 'k, 'l) kube_lib \<Rightarrow> addr option \<Rightarrow> ('m, 'k, 'l) memory \<Rightarrow> addr option \<times> ('m, 'k, 'l) memory" where
  "DeploySourceList_DeepCopy l p h = copy_ptr CSourceList theSourceList (DeploySourceList_DeepCopyInto l) p h"

definition PerformanceRegression_DeepCopy :: "('m, 'k, 'l) kube_lib \<Rightarrow> addr option \<Rightarrow> ('m, 'k, 'l) memory \<Rightarrow> addr option \<times> ('m, 'k, 'l) memory" where
  "PerformanceRegression_DeepCopy l p h = copy_ptr CRegression theRegression (PerformanceRegression_DeepCopyInto l) p h"

definition PerformanceRegressionList_DeepCopy :: "('m, 'k, 'l) kube_lib \<Rightarrow> addr option \<Rightarrow> ('m, 'k, 'l) memory \<Rightarrow> addr option \<times> ('m, 'k, 'l) memory" where
  "PerformanceRegressionList_DeepCopy l p h = copy_ptr CRegressionList theRegressionList (PerformanceRegressionList_DeepCopyInto l) p h"

definition PostgresWatch_DeepCopy :: "('m, 'k, 'l) kube_lib \<Rightarrow> addr option \<Rightarrow> ('m, 'k, 'l) memory \<Rightarrow> addr option \<times> ('m, 'k, 'l) memory" where
  "PostgresWatch_DeepCopy l p h = copy_ptr CWatch theWatch (PostgresWatch_DeepCopyInto l) p h"

definition PostgresWatchList_DeepCopy :: "('m, 'k, 'l) kube_lib \<Rightarrow> addr option \<Rightarrow> ('m, 'k, 'l) memory \<Rightarrow> addr option \<times> ('m, 'k, 'l) memory" where
  "PostgresWatchList_DeepCopy l p h = copy_ptr CWatchList theWatchList (PostgresWatchList_DeepCopyInto l) p h"

definition PostgresRadarCluster_DeepCopy :: "('m, 'k, 'l) kube_lib \<Rightarrow> addr option \<Rightarrow> ('m, 'k, 'l) memory \<Rightarrow> addr option \<times> ('m, 'k, 'l) memory" where
  "PostgresRadarCluster_DeepCopy l p h = copy_ptr CCluster theCluster (PostgresRadarCluster_DeepCopyInto l) p h"

definition PostgresRadarClusterList_DeepCopy :: "('m, 'k, 'l) kube_lib \<Rightarrow> addr option \<Rightarrow> ('m, 'k, 'l) memory \<Rightarrow> addr option \<times> ('m, 'k, 'l) memory" where
  "PostgresRadarClusterList_DeepCopy l p h = copy_ptr CClusterList theClusterList (PostgresRadarClusterList_DeepCopyInto l) p h"

text \<open>The interface \<open>runtime.Object\<close>: a nil pointer gives a nil interface, not an interface that holds a nil pointer.\<close>

datatype runtime_object = ObjDeploySource addr | ObjDeploySourceList addr
  | ObjPerformanceRegression addr | ObjPerformanceRegressionList addr
  | ObjPostgresWatch addr | ObjPostgresWatchList addr
  | ObjPostgresRadarCluster addr | ObjPostgresRadarClusterList addr

definition as_object :: "(addr \<Rightarrow> runtime_object) \<Rightarrow> addr option \<times> 'c list \<Rightarrow> runtime_object option \<times> 'c list" where
  "as_object mk r = (case r of (Some c, h) \<Rightarrow> (Some (mk c), h) | (None, h) \<Rightarrow> (None, h))"

definition DeploySource_DeepCopyObject :: "('m, 'k, 'l) kube_lib \<Rightarrow> addr option \<Rightarrow> ('m, 'k, 'l) memory \<Rightarrow> runtime_object option \<times> ('m, 'k, 'l) memory" where
  "DeploySource_DeepCopyObject l p h = as_object ObjDeploySource (DeploySource_DeepCopy l p h)"

definition DeploySourceList_DeepCopyObject :: "('m, 'k, 'l) kube_lib \<Rightarrow> addr option \<Rightarrow> ('m, 'k, 'l) memory \<Rightarrow> runtime_object option \<times> ('m, 'k, 'l) memory" where
  "DeploySourceList_DeepCopyObject l p h = as_object ObjDeploySourceList (DeploySourceList_DeepCopy l p h)"

definition PerformanceRegression_DeepCopyObject :: "('m, 'k, 'l) kube_lib \<Rightarrow> addr option \<Rightarrow> ('m, 'k, 'l) memory \<Rightarrow> runtime_object option \<times> ('m, 'k, 'l) memory" where
  "PerformanceRegression_DeepCopyObject l p h = as_object ObjPerformanceRegression (PerformanceRegression_DeepCopy l p h)"

definition PerformanceRegressionList_DeepCopyObject :: "('m, 'k, 'l) kube_lib \<Rightarrow> addr option \<Rightarrow> ('m, 'k, 'l) memory \<Rightarrow> runtime_object option \<times> ('m, 'k, 'l) memory" where
  "PerformanceRegressionList_DeepCopyObject l p h = as_object ObjPerformanceRegressionList (PerformanceRegressionList_DeepCopy l p h)"

definition PostgresWatch_DeepCopyObject :: "('m, 'k, 'l) kube_lib \<Rightarrow> addr option \<Rightarrow> ('m, 'k, 'l) memory \<Rightarrow> runtime_object option \<times> ('m, 'k, 'l) memory" where
  "PostgresWatch_DeepCopyObject l p h = as_object ObjPostgresWatch (PostgresWatch_DeepCopy l p h)"

definition PostgresWatchList_DeepCopyObject :: "('m, 'k, 'l) kube_lib \<Rightarrow> addr option \<Rightarrow> ('m, 'k, 'l) memory \<Rightarrow> runtime_object option \<times> ('m, 'k, 'l) memory" where
  "PostgresWatchList_DeepCopyObject l p h = as_object ObjPostgresWatchList (PostgresWatchList_DeepCopy l p h)"

definition PostgresRadarCluster_DeepCopyObject :: "('m, 'k, 'l) kube_lib \<Rightarrow> addr option \<Rightarrow> ('m, 'k, 'l) memory \<Rightarrow> runtime_object option \<times> ('m, 'k, 'l) memory" where
  "PostgresRadarCluster_DeepCopyObject l p h = as_object ObjPostgresRadarCluster (PostgresRadarCluster_DeepCopy l p h)"

definition PostgresRadarClusterList_DeepCopyObject :: "('m, 'k, 'l) kube_lib \<Rightarrow> addr option \<Rightarrow> ('m, 'k, 'l) memory \<Rightarrow> runtime_object option \<times> ('m, 'k, 'l) memory" where
  "PostgresRadarClusterList_DeepCopyObject l p h = as_object ObjPostgresRadarClusterList (PostgresRadarClusterList_DeepCopy l p h)"

section \<open>The contract\<close>

locale deep_copier =
  fixes copy :: "'a \<Rightarrow> 'c list \<Rightarrow> 'a \<times> 'c list"
    and reach :: "'c list \<Rightarrow> 'a \<Rightarrow> addr set"
    and view :: "'c list \<Rightarrow> 'a \<Rightarrow> 'v"
    and ok :: "'c list \<Rightarrow> 'a \<Rightarrow> bool"
  assumes copies: "ok h x \<Longrightarrow> copy x h = (y, h') \<Longrightarrow>
      prefix h h' \<and> ok h' y \<and> view h' y = view h x \<and> reach h' y \<subseteq> {length h..<length h'}"
    and bounded: "ok h x \<Longrightarrow> reach h x \<subseteq> {..<length h}"
    and local_view: "ok h x \<Longrightarrow> \<forall>a\<in>reach h x. a < length h2 \<and> h2 ! a = h ! a \<Longrightarrow> ok h2 x \<and> reach h2 x = reach h x \<and> view h2 x = view h x"
begin

lemma prefix_view: "ok h x \<Longrightarrow> prefix h h2 \<Longrightarrow> ok h2 x \<and> reach h2 x = reach h x \<and> view h2 x = view h x"
proof -
  assume ok: "ok h x" and p: "prefix h h2"
  have "a < length h" if "a \<in> reach h x" for a using bounded [OF ok] that by blast
  then show ?thesis using ok p by (intro local_view) (auto simp: prefix_def nth_append trans_less_add1)
qed

text \<open>Whatever is written to the cells of the copy leaves the original as it is, and whatever is written to older cells leaves the copy as it is.\<close>

lemma original_kept:
  assumes "ok h x" "length h \<le> length h2" "\<forall>a<length h. h2 ! a = h ! a"
  shows "view h2 x = view h x"
proof -
  have "\<forall>a\<in>reach h x. a < length h2 \<and> h2 ! a = h ! a" using bounded [OF assms(1)] assms(2,3) by (auto simp: subset_eq intro: less_le_trans)
  then show ?thesis using local_view [OF assms(1)] by blast
qed

lemma copy_kept:
  assumes "ok h x" "copy x h = (y, h')" "length h' \<le> length h2" "\<forall>a. length h \<le> a \<and> a < length h' \<longrightarrow> h2 ! a = h' ! a"
  shows "view h2 y = view h x"
proof -
  note c = copies [OF assms(1,2)]
  have "\<forall>a\<in>reach h' y. a < length h2 \<and> h2 ! a = h' ! a" using c assms(3,4) by (auto simp: subset_eq)
  then show ?thesis using local_view [of h' y h2] c by simp
qed

end

section \<open>Copies of parts\<close>

definition view_ptr :: "('c \<Rightarrow> 'a) \<Rightarrow> ('c list \<Rightarrow> 'a \<Rightarrow> 'v) \<Rightarrow> 'c list \<Rightarrow> addr option \<Rightarrow> 'v option" where
  "view_ptr sel view h p = map_option (\<lambda>a. view h (sel (h ! a))) p"

definition reach_ptr :: "('c \<Rightarrow> 'a) \<Rightarrow> ('c list \<Rightarrow> 'a \<Rightarrow> addr set) \<Rightarrow> 'c list \<Rightarrow> addr option \<Rightarrow> addr set" where
  "reach_ptr sel reach h p = (case p of None \<Rightarrow> {} | Some a \<Rightarrow> insert a (reach h (sel (h ! a))))"

definition ok_ptr :: "('a \<Rightarrow> 'c) \<Rightarrow> ('c \<Rightarrow> 'a) \<Rightarrow> ('c list \<Rightarrow> 'a \<Rightarrow> bool) \<Rightarrow> 'c list \<Rightarrow> addr option \<Rightarrow> bool" where
  "ok_ptr mk sel ok h p = (case p of None \<Rightarrow> True | Some a \<Rightarrow> a < length h \<and> h ! a = mk (sel (h ! a)) \<and> ok h (sel (h ! a)))"

lemma deep_copier_value:
  assumes "\<And>x. f x = x"
  shows "deep_copier (\<lambda>x h. (f x, h)) (\<lambda>h x. {}) (\<lambda>h x. x) (\<lambda>h x. True)"
  by unfold_locales (simp_all add: assms)

lemma deep_copier_assign: "deep_copier assign (\<lambda>h x. {}) (\<lambda>h x. x) (\<lambda>h x. True)"
  using deep_copier_value [of "\<lambda>x. x"] by (simp add: assign_def [abs_def])

lemma deep_copier_ptr:
  assumes "deep_copier into reach view ok" "\<And>x. sel (mk x) = x"
  shows "deep_copier (copy_ptr mk sel into) (reach_ptr sel reach) (view_ptr sel view) (ok_ptr mk sel ok)"
proof -
  note D = assms(1)
  show ?thesis
  proof
    fix h p q h' assume ok: "ok_ptr mk sel ok h p" and cp: "copy_ptr mk sel into p h = (q, h')"
    show "prefix h h' \<and> ok_ptr mk sel ok h' q \<and> view_ptr sel view h' q = view_ptr sel view h p \<and> reach_ptr sel reach h' q \<subseteq> {length h..<length h'}"
    proof (cases p)
      case (Some a)
      obtain x h1 where i: "into (sel (h ! a)) h = (x, h1)" by (metis prod.exhaust)
      have q: "q = Some (length h1)" "h' = h1 @ [mk x]" using cp by (simp_all add: copy_ptr_def Some i new_cell_def)
      have "prefix h h1 \<and> ok h1 x \<and> view h1 x = view h (sel (h ! a)) \<and> reach h1 x \<subseteq> {length h..<length h1}"
        using deep_copier.copies [OF D _ i] ok by (simp add: ok_ptr_def Some)
      moreover from this have "ok h' x \<and> reach h' x = reach h1 x \<and> view h' x = view h1 x" using deep_copier.prefix_view [OF D, of h1 x h'] q(2) by simp
      ultimately show ?thesis by (auto simp: Some q ok_ptr_def view_ptr_def reach_ptr_def assms(2) prefix_length_le)
    qed (use cp in \<open>simp add: copy_ptr_def ok_ptr_def view_ptr_def reach_ptr_def\<close>)
  next
    fix h p assume "ok_ptr mk sel ok h p"
    then show "reach_ptr sel reach h p \<subseteq> {..<length h}"
      using deep_copier.bounded [OF D] by (auto simp: ok_ptr_def reach_ptr_def split: option.splits)
  next
    fix h p h2 assume "ok_ptr mk sel ok h p" "\<forall>a\<in>reach_ptr sel reach h p. a < length h2 \<and> h2 ! a = h ! a"
    then show "ok_ptr mk sel ok h2 p \<and> reach_ptr sel reach h2 p = reach_ptr sel reach h p \<and> view_ptr sel view h2 p = view_ptr sel view h p"
      using deep_copier.local_view [OF D, of h _ h2] by (cases p) (auto simp: ok_ptr_def reach_ptr_def view_ptr_def)
  qed
qed

lemma deep_copier_pair:
  assumes "deep_copier c1 r1 v1 k1" "deep_copier c2 r2 v2 k2"
  shows "deep_copier (copy_pair c1 c2) (\<lambda>h z. r1 h (fst z) \<union> r2 h (snd z)) (\<lambda>h z. (v1 h (fst z), v2 h (snd z))) (\<lambda>h z. k1 h (fst z) \<and> k2 h (snd z))"
proof
  fix h z w h' assume ok: "k1 h (fst z) \<and> k2 h (snd z)" and cp: "copy_pair c1 c2 z h = (w, h')"
  obtain x h1 where x: "c1 (fst z) h = (x, h1)" by (metis prod.exhaust)
  obtain y h2 where y: "c2 (snd z) h1 = (y, h2)" by (metis prod.exhaust)
  have w: "w = (x, y)" "h' = h2" using cp by (simp_all add: copy_pair_def x y)
  have 1: "prefix h h1 \<and> k1 h1 x \<and> v1 h1 x = v1 h (fst z) \<and> r1 h1 x \<subseteq> {length h..<length h1}"
    using deep_copier.copies [OF assms(1) _ x] ok by simp
  then have z2: "k2 h1 (snd z) \<and> v2 h1 (snd z) = v2 h (snd z)" using deep_copier.prefix_view [OF assms(2)] ok by blast
  then have 2: "prefix h1 h2 \<and> k2 h2 y \<and> v2 h2 y = v2 h (snd z) \<and> r2 h2 y \<subseteq> {length h1..<length h2}"
    using deep_copier.copies [OF assms(2) _ y] by simp
  then have "k1 h2 x \<and> v1 h2 x = v1 h (fst z) \<and> r1 h2 x = r1 h1 x" using deep_copier.prefix_view [OF assms(1), of h1 x h2] 1 by simp
  moreover have "length h \<le> length h1" "length h1 \<le> length h2" using 1 2 by (simp_all add: prefix_length_le)
  ultimately show "prefix h h' \<and> (k1 h' (fst w) \<and> k2 h' (snd w)) \<and> (v1 h' (fst w), v2 h' (snd w)) = (v1 h (fst z), v2 h (snd z)) \<and>
      r1 h' (fst w) \<union> r2 h' (snd w) \<subseteq> {length h..<length h'}"
    using 1 2 prefix_order.trans [of h h1 h2] by (fastforce simp: w subset_eq)
next
  fix h z assume "k1 h (fst z) \<and> k2 h (snd z)"
  then show "r1 h (fst z) \<union> r2 h (snd z) \<subseteq> {..<length h}" using deep_copier.bounded [OF assms(1)] deep_copier.bounded [OF assms(2)] by blast
next
  fix h z h2 assume "k1 h (fst z) \<and> k2 h (snd z)" "\<forall>a\<in>r1 h (fst z) \<union> r2 h (snd z). a < length h2 \<and> h2 ! a = h ! a"
  then show "(k1 h2 (fst z) \<and> k2 h2 (snd z)) \<and> r1 h2 (fst z) \<union> r2 h2 (snd z) = r1 h (fst z) \<union> r2 h (snd z) \<and>
      (v1 h2 (fst z), v2 h2 (snd z)) = (v1 h (fst z), v2 h (snd z))"
    using deep_copier.local_view [OF assms(1), of h "fst z" h2] deep_copier.local_view [OF assms(2), of h "snd z" h2] by auto
qed

definition reach_elems :: "('c list \<Rightarrow> 'a \<Rightarrow> addr set) \<Rightarrow> 'c list \<Rightarrow> 'a list \<Rightarrow> addr set" where
  "reach_elems reach h xs = (\<Union>x\<in>set xs. reach h x)"

lemma copy_elems_copies:
  assumes "deep_copier into reach view ok" "list_all (ok h) xs" "copy_elems into xs h = (ys, h')"
  shows "prefix h h' \<and> list_all (ok h') ys \<and> map (view h') ys = map (view h) xs \<and> reach_elems reach h' ys \<subseteq> {length h..<length h'}"
  using assms(2,3)
proof (induction xs arbitrary: h ys)
  case (Cons x xs)
  obtain y h1 where y: "into x h = (y, h1)" by (metis prod.exhaust)
  obtain ys' h2 where ys: "copy_elems into xs h1 = (ys', h2)" by (metis prod.exhaust)
  have e: "ys = y # ys'" "h' = h2" using Cons.prems(2) by (simp_all add: y ys)
  have 1: "prefix h h1 \<and> ok h1 y \<and> view h1 y = view h x \<and> reach h1 y \<subseteq> {length h..<length h1}"
    using deep_copier.copies [OF assms(1) _ y] Cons.prems(1) by simp
  have rest: "ok h1 x' \<and> view h1 x' = view h x'" if "x' \<in> set xs" for x'
    using deep_copier.prefix_view [OF assms(1), of h x' h1] 1 Cons.prems(1) that by (auto simp: list_all_iff)
  then have 2: "prefix h1 h2 \<and> list_all (ok h2) ys' \<and> map (view h2) ys' = map (view h1) xs \<and> reach_elems reach h2 ys' \<subseteq> {length h1..<length h2}"
    using Cons.IH [OF _ ys [folded e(2)]] e(2) by (simp add: list_all_iff)
  have 3: "ok h2 y \<and> view h2 y = view h x \<and> reach h2 y = reach h1 y" using deep_copier.prefix_view [OF assms(1), of h1 y h2] 1 2 by simp
  have "map (view h1) xs = map (view h) xs" using rest by simp
  moreover have "length h \<le> length h1" "length h1 \<le> length h2" using 1 2 by (simp_all add: prefix_length_le)
  moreover have "prefix h h2" using 1 2 prefix_order.trans by blast
  ultimately show ?case using 1 2 3 by (auto simp: e reach_elems_def subset_eq intro: less_le_trans order_trans)
qed (simp add: reach_elems_def)

lemma deep_copier_elems:
  assumes "deep_copier into reach view ok"
  shows "deep_copier (copy_elems into) (reach_elems reach) (\<lambda>h. map (view h)) (\<lambda>h. list_all (ok h))"
proof
  fix h xs assume "list_all (ok h) xs"
  then show "reach_elems reach h xs \<subseteq> {..<length h}"
    using deep_copier.bounded [OF assms] by (fastforce simp: reach_elems_def list_all_iff)
next
  fix h xs h2 assume h: "list_all (ok h) xs" "\<forall>a\<in>reach_elems reach h xs. a < length h2 \<and> h2 ! a = h ! a"
  have "ok h2 x \<and> reach h2 x = reach h x \<and> view h2 x = view h x" if "x \<in> set xs" for x
    using deep_copier.local_view [OF assms, of h x h2] h that by (auto simp: list_all_iff reach_elems_def)
  then show "list_all (ok h2) xs \<and> reach_elems reach h2 xs = reach_elems reach h xs \<and> map (view h2) xs = map (view h) xs"
    by (auto simp: list_all_iff reach_elems_def)
qed (rule copy_elems_copies [OF assms])

text \<open>A struct whose pointer fields are copied, and whose other fields are assigned.\<close>

lemma deep_copier_struct:
  assumes "deep_copier c reach view ok" "\<And>x t. get (put x t) = t" "\<And>x t v. shape (put x t) v = shape x v"
    and "\<And>x h. into x h = (case c (get x) h of (t, h') \<Rightarrow> (put x t, h'))"
  shows "deep_copier into (\<lambda>h x. reach h (get x)) (\<lambda>h x. shape x (view h (get x))) (\<lambda>h x. ok h (get x))"
proof
  fix h x y h' assume ok: "ok h (get x)" and i: "into x h = (y, h')"
  obtain t where t: "c (get x) h = (t, h')" "y = put x t" using i by (auto simp: assms(4) split: prod.splits)
  show "prefix h h' \<and> ok h' (get y) \<and> shape y (view h' (get y)) = shape x (view h (get x)) \<and> reach h' (get y) \<subseteq> {length h..<length h'}"
    using deep_copier.copies [OF assms(1) ok t(1)] by (simp add: t(2) assms(2,3))
next
  fix h x assume "ok h (get x)"
  then show "reach h (get x) \<subseteq> {..<length h}" by (rule deep_copier.bounded [OF assms(1)])
next
  fix h x h2 assume "ok h (get x)" "\<forall>a\<in>reach h (get x). a < length h2 \<and> h2 ! a = h ! a"
  then show "ok h2 (get x) \<and> reach h2 (get x) = reach h (get x) \<and> shape x (view h2 (get x)) = shape x (view h (get x))"
    using deep_copier.local_view [OF assms(1)] by metis
qed

section \<open>Views of the structs\<close>

abbreviation val :: "'c list \<Rightarrow> 'a \<Rightarrow> 'a" where "val \<equiv> \<lambda>h x. x"
abbreviation no_addrs :: "'c list \<Rightarrow> 'a \<Rightarrow> addr set" where "no_addrs \<equiv> \<lambda>h x. {}"
abbreviation fine :: "'c list \<Rightarrow> 'a \<Rightarrow> bool" where "fine \<equiv> \<lambda>h x. True"

definition slice_view :: "'a list option \<Rightarrow> 'a list" where
  "slice_view v = (case v of None \<Rightarrow> [] | Some xs \<Rightarrow> xs)"

definition source_config_view :: "('m, 'k, 'l) memory \<Rightarrow> source_config_struct \<Rightarrow> sample_source_config" where
  "source_config_view h x = (sc_plain x)\<lparr>ss_Prometheus := view_ptr thePrometheus val h (sc_Prometheus x)\<rparr>"

definition source_config_reach :: "('m, 'k, 'l) memory \<Rightarrow> source_config_struct \<Rightarrow> addr set" where
  "source_config_reach h x = reach_ptr thePrometheus no_addrs h (sc_Prometheus x)"

definition source_config_ok :: "('m, 'k, 'l) memory \<Rightarrow> source_config_struct \<Rightarrow> bool" where
  "source_config_ok h x = ok_ptr CPrometheus thePrometheus fine h (sc_Prometheus x)"

lemmas deep_copier_cell = deep_copier_ptr [OF deep_copier_assign]

interpretation sample_source_copier: deep_copier SampleSourceConfig_DeepCopyInto source_config_reach source_config_view source_config_ok
proof -
  have "deep_copier SampleSourceConfig_DeepCopyInto (\<lambda>h x. reach_ptr thePrometheus no_addrs h (sc_Prometheus x))
      (\<lambda>h x. (sc_plain x)\<lparr>ss_Prometheus := view_ptr thePrometheus val h (sc_Prometheus x)\<rparr>) (\<lambda>h x. ok_ptr CPrometheus thePrometheus fine h (sc_Prometheus x))"
    by (rule deep_copier_struct [OF deep_copier_cell, where put = "\<lambda>x t. x\<lparr>sc_Prometheus := t\<rparr>"])
       (simp_all add: SampleSourceConfig_DeepCopyInto_def Let_def)
  then show "deep_copier (SampleSourceConfig_DeepCopyInto :: _ \<Rightarrow> ('a, 'b, 'c) memory \<Rightarrow> _) source_config_reach source_config_view source_config_ok"
    by (simp add: source_config_reach_def [abs_def] source_config_view_def [abs_def] source_config_ok_def [abs_def])
qed

definition watch_spec_view :: "('m, 'k, 'l) memory \<Rightarrow> watch_spec_struct \<Rightarrow> watch_spec" where
  "watch_spec_view h x = (ws_plain x)\<lparr>
     wsp_DSNSecretRef := view_ptr theSecretKeySelector val h (ws_DSNSecretRef x),
     wsp_RemoteClusterSecretRef := view_ptr theSecretKeySelector val h (ws_RemoteClusterSecretRef x),
     wsp_CriticalQueryIDs := slice_view (view_ptr theInt64s val h (ws_CriticalQueryIDs x)),
     wsp_AutoAbort := view_ptr theAutoAbortConfig val h (ws_AutoAbort x),
     wsp_Alerting := view_ptr theAlertingConfig val h (ws_Alerting x),
     wsp_PeriodicDetection := view_ptr thePeriodicDetectionConfig val h (ws_PeriodicDetection x),
     wsp_SampleSource := view_ptr theSampleSourceConfig source_config_view h (ws_SampleSource x)\<rparr>"

definition watch_spec_reach :: "('m, 'k, 'l) memory \<Rightarrow> watch_spec_struct \<Rightarrow> addr set" where
  "watch_spec_reach h x = reach_ptr theSecretKeySelector no_addrs h (ws_DSNSecretRef x) \<union>
     (reach_ptr theSecretKeySelector no_addrs h (ws_RemoteClusterSecretRef x) \<union>
     (reach_ptr theInt64s no_addrs h (ws_CriticalQueryIDs x) \<union>
     (reach_ptr theAutoAbortConfig no_addrs h (ws_AutoAbort x) \<union>
     (reach_ptr theAlertingConfig no_addrs h (ws_Alerting x) \<union>
     (reach_ptr thePeriodicDetectionConfig no_addrs h (ws_PeriodicDetection x) \<union>
      reach_ptr theSampleSourceConfig source_config_reach h (ws_SampleSource x))))))"

definition watch_spec_ok :: "('m, 'k, 'l) memory \<Rightarrow> watch_spec_struct \<Rightarrow> bool" where
  "watch_spec_ok h x \<longleftrightarrow> ok_ptr CSecretKeySelector theSecretKeySelector fine h (ws_DSNSecretRef x) \<and>
     ok_ptr CSecretKeySelector theSecretKeySelector fine h (ws_RemoteClusterSecretRef x) \<and>
     ok_ptr CInt64s theInt64s fine h (ws_CriticalQueryIDs x) \<and>
     ok_ptr CAutoAbortConfig theAutoAbortConfig fine h (ws_AutoAbort x) \<and>
     ok_ptr CAlertingConfig theAlertingConfig fine h (ws_Alerting x) \<and>
     ok_ptr CPeriodicDetectionConfig thePeriodicDetectionConfig fine h (ws_PeriodicDetection x) \<and>
     ok_ptr CSampleSourceConfig theSampleSourceConfig source_config_ok h (ws_SampleSource x)"

lemmas watch_spec_defs = watch_spec_view_def watch_spec_reach_def watch_spec_ok_def

interpretation watch_spec_copier: deep_copier PostgresWatchSpec_DeepCopyInto watch_spec_reach watch_spec_view watch_spec_ok
proof -
  let ?get = "\<lambda>x. (ws_DSNSecretRef x, ws_RemoteClusterSecretRef x, ws_CriticalQueryIDs x, ws_AutoAbort x, ws_Alerting x, ws_PeriodicDetection x, ws_SampleSource x)"
  let ?put = "\<lambda>x (p1, p2, p3, p4, p5, p6, p7). x\<lparr>ws_DSNSecretRef := p1, ws_RemoteClusterSecretRef := p2, ws_CriticalQueryIDs := p3, ws_AutoAbort := p4,
    ws_Alerting := p5, ws_PeriodicDetection := p6, ws_SampleSource := p7\<rparr>"
  let ?shape = "\<lambda>x (v1, v2, v3, v4, v5, v6, v7). (ws_plain x)\<lparr>wsp_DSNSecretRef := v1, wsp_RemoteClusterSecretRef := v2, wsp_CriticalQueryIDs := slice_view v3,
    wsp_AutoAbort := v4, wsp_Alerting := v5, wsp_PeriodicDetection := v6, wsp_SampleSource := v7\<rparr>"
  note parts = deep_copier_pair [OF deep_copier_cell [where mk = CSecretKeySelector and sel = theSecretKeySelector]
    deep_copier_pair [OF deep_copier_cell [where mk = CSecretKeySelector and sel = theSecretKeySelector]
    deep_copier_pair [OF deep_copier_cell [where mk = CInt64s and sel = theInt64s]
    deep_copier_pair [OF deep_copier_cell [where mk = CAutoAbortConfig and sel = theAutoAbortConfig]
    deep_copier_pair [OF deep_copier_cell [where mk = CAlertingConfig and sel = theAlertingConfig]
    deep_copier_pair [OF deep_copier_cell [where mk = CPeriodicDetectionConfig and sel = thePeriodicDetectionConfig]
    deep_copier_ptr [OF sample_source_copier.deep_copier_axioms, where mk = CSampleSourceConfig and sel = theSampleSourceConfig]]]]]]]
  from deep_copier_struct [OF parts, where get = ?get and put = ?put and shape = ?shape and into = PostgresWatchSpec_DeepCopyInto]
  show "deep_copier (PostgresWatchSpec_DeepCopyInto :: _ \<Rightarrow> ('a, 'b, 'c) memory \<Rightarrow> _) watch_spec_reach watch_spec_view watch_spec_ok"
    by (simp add: watch_spec_defs [abs_def] PostgresWatchSpec_DeepCopyInto_def copy_pair_def split_beta Let_def)
qed

section \<open>Objects\<close>

text \<open>What the copies of the library promise: those of metadata are deep copies themselves, a time and a condition have no pointers to follow.\<close>

definition lib_contract :: "('m, 'k, 'l) kube_lib \<Rightarrow> (('m, 'k, 'l) memory \<Rightarrow> 'm \<Rightarrow> addr set) \<Rightarrow> (('m, 'k, 'l) memory \<Rightarrow> 'm \<Rightarrow> 'v) \<Rightarrow>
    (('m, 'k, 'l) memory \<Rightarrow> 'm \<Rightarrow> bool) \<Rightarrow> (('m, 'k, 'l) memory \<Rightarrow> 'k \<Rightarrow> addr set) \<Rightarrow> (('m, 'k, 'l) memory \<Rightarrow> 'k \<Rightarrow> 'u) \<Rightarrow>
    (('m, 'k, 'l) memory \<Rightarrow> 'k \<Rightarrow> bool) \<Rightarrow> bool" where
  "lib_contract l rm vm km rk vk kk \<longleftrightarrow> deep_copier (lib_ObjectMeta l) rm vm km \<and> deep_copier (lib_ListMeta l) rk vk kk \<and>
     (\<forall>t. lib_Time l t = t) \<and> (\<forall>c. lib_Condition l c = c)"

lemma lib_contractD:
  assumes "lib_contract l rm vm km rk vk kk"
  shows "deep_copier (lib_ObjectMeta l) rm vm km" "deep_copier (lib_ListMeta l) rk vk kk" "lib_Time l t = t" "lib_Condition l c = c"
  using assms by (simp_all add: lib_contract_def)

lemma elems_of_values: "reach_elems no_addrs = no_addrs" "(\<lambda>h. list_all (\<lambda>x. True)) = fine"
  by (auto simp: fun_eq_iff reach_elems_def list_all_iff)

lemma conditions_copier:
  assumes "\<And>c. lib_Condition l c = c"
  shows "deep_copier (copy_conditions l) (reach_ptr theConditions no_addrs) (view_ptr theConditions val) (ok_ptr CConditions theConditions fine)"
  using deep_copier_ptr [OF deep_copier_elems [OF deep_copier_value [of "lib_Condition l", OF assms]], where mk = CConditions and sel = theConditions]
  by (simp add: copy_conditions_def [abs_def] elems_of_values)

lemma time_copier:
  assumes "\<And>t. lib_Time l t = t"
  shows "deep_copier (copy_time l) (reach_ptr theTime no_addrs) (view_ptr theTime val) (ok_ptr CTime theTime fine)"
  using deep_copier_ptr [OF deep_copier_value [of "lib_Time l", OF assms], where mk = CTime and sel = theTime]
  by (simp add: copy_time_def [abs_def])

definition watch_status_view :: "('m, 'k, 'l) memory \<Rightarrow> watch_status_struct \<Rightarrow> watch_status" where
  "watch_status_view h x = (wt_plain x)\<lparr>wst_LastScrapeTime := view_ptr theTime val h (wt_LastScrapeTime x),
     wst_Conditions := slice_view (view_ptr theConditions val h (wt_Conditions x))\<rparr>"

definition watch_status_reach :: "('m, 'k, 'l) memory \<Rightarrow> watch_status_struct \<Rightarrow> addr set" where
  "watch_status_reach h x = reach_ptr theTime no_addrs h (wt_LastScrapeTime x) \<union> reach_ptr theConditions no_addrs h (wt_Conditions x)"

definition watch_status_ok :: "('m, 'k, 'l) memory \<Rightarrow> watch_status_struct \<Rightarrow> bool" where
  "watch_status_ok h x \<longleftrightarrow> ok_ptr CTime theTime fine h (wt_LastScrapeTime x) \<and> ok_ptr CConditions theConditions fine h (wt_Conditions x)"

definition regression_status_view :: "('m, 'k, 'l) memory \<Rightarrow> regression_status_struct \<Rightarrow> regression_cr_status" where
  "regression_status_view h x = (rt_plain x)\<lparr>rst_DetectedAt := view_ptr theTime val h (rt_DetectedAt x),
     rst_Conditions := slice_view (view_ptr theConditions val h (rt_Conditions x))\<rparr>"

definition regression_status_reach :: "('m, 'k, 'l) memory \<Rightarrow> regression_status_struct \<Rightarrow> addr set" where
  "regression_status_reach h x = reach_ptr theTime no_addrs h (rt_DetectedAt x) \<union> reach_ptr theConditions no_addrs h (rt_Conditions x)"

definition regression_status_ok :: "('m, 'k, 'l) memory \<Rightarrow> regression_status_struct \<Rightarrow> bool" where
  "regression_status_ok h x \<longleftrightarrow> ok_ptr CTime theTime fine h (rt_DetectedAt x) \<and> ok_ptr CConditions theConditions fine h (rt_Conditions x)"

definition source_status_view :: "('m, 'k, 'l) memory \<Rightarrow> source_status_struct \<Rightarrow> source_status" where
  "source_status_view h x = (st_plain x)\<lparr>dst_Conditions := slice_view (view_ptr theConditions val h (st_Conditions x))\<rparr>"

definition source_status_reach :: "('m, 'k, 'l) memory \<Rightarrow> source_status_struct \<Rightarrow> addr set" where
  "source_status_reach h x = reach_ptr theConditions no_addrs h (st_Conditions x)"

definition source_status_ok :: "('m, 'k, 'l) memory \<Rightarrow> source_status_struct \<Rightarrow> bool" where
  "source_status_ok h x \<longleftrightarrow> ok_ptr CConditions theConditions fine h (st_Conditions x)"

lemma watch_status_copier:
  assumes "lib_contract l rm vm km rk vk kk"
  shows "deep_copier (PostgresWatchStatus_DeepCopyInto l) watch_status_reach watch_status_view watch_status_ok"
  using deep_copier_struct [OF deep_copier_pair [OF time_copier conditions_copier], OF lib_contractD(3,4) [OF assms],
    where get = "\<lambda>x. (wt_LastScrapeTime x, wt_Conditions x)" and put = "\<lambda>x (p, q). x\<lparr>wt_LastScrapeTime := p, wt_Conditions := q\<rparr>" and
    shape = "\<lambda>x (v, w). (wt_plain x)\<lparr>wst_LastScrapeTime := v, wst_Conditions := slice_view w\<rparr>" and into = "PostgresWatchStatus_DeepCopyInto l"]
  by (simp add: watch_status_view_def [abs_def] watch_status_reach_def [abs_def] watch_status_ok_def [abs_def]
      PostgresWatchStatus_DeepCopyInto_def copy_pair_def split_beta Let_def)

lemma regression_status_copier:
  assumes "lib_contract l rm vm km rk vk kk"
  shows "deep_copier (PerformanceRegressionStatus_DeepCopyInto l) regression_status_reach regression_status_view regression_status_ok"
  using deep_copier_struct [OF deep_copier_pair [OF time_copier conditions_copier], OF lib_contractD(3,4) [OF assms],
    where get = "\<lambda>x. (rt_DetectedAt x, rt_Conditions x)" and put = "\<lambda>x (p, q). x\<lparr>rt_DetectedAt := p, rt_Conditions := q\<rparr>" and
    shape = "\<lambda>x (v, w). (rt_plain x)\<lparr>rst_DetectedAt := v, rst_Conditions := slice_view w\<rparr>" and into = "PerformanceRegressionStatus_DeepCopyInto l"]
  by (simp add: regression_status_view_def [abs_def] regression_status_reach_def [abs_def] regression_status_ok_def [abs_def]
      PerformanceRegressionStatus_DeepCopyInto_def copy_pair_def split_beta Let_def)

lemma source_status_copier:
  assumes "lib_contract l rm vm km rk vk kk"
  shows "deep_copier (DeploySourceStatus_DeepCopyInto l) source_status_reach source_status_view source_status_ok"
  using deep_copier_struct [OF conditions_copier, OF lib_contractD(4) [OF assms],
    where get = st_Conditions and put = "\<lambda>x p. x\<lparr>st_Conditions := p\<rparr>" and
    shape = "\<lambda>x v. (st_plain x)\<lparr>dst_Conditions := slice_view v\<rparr>" and into = "DeploySourceStatus_DeepCopyInto l"]
  by (simp add: source_status_view_def [abs_def] source_status_reach_def [abs_def] source_status_ok_def [abs_def]
      DeploySourceStatus_DeepCopyInto_def split_beta Let_def)

definition object_view :: "('c list \<Rightarrow> 'm \<Rightarrow> 'v) \<Rightarrow> ('c list \<Rightarrow> 's \<Rightarrow> 'vs) \<Rightarrow> ('c list \<Rightarrow> 't \<Rightarrow> 'vt) \<Rightarrow> 'c list \<Rightarrow> ('m, 's, 't) kobject \<Rightarrow> ('v, 'vs, 'vt) kobject" where
  "object_view vm vs vt h x = \<lparr>ob_TypeMeta = ob_TypeMeta x, ob_ObjectMeta = vm h (ob_ObjectMeta x), ob_Spec = vs h (ob_Spec x), ob_Status = vt h (ob_Status x)\<rparr>"

definition object_reach :: "('c list \<Rightarrow> 'm \<Rightarrow> addr set) \<Rightarrow> ('c list \<Rightarrow> 's \<Rightarrow> addr set) \<Rightarrow> ('c list \<Rightarrow> 't \<Rightarrow> addr set) \<Rightarrow> 'c list \<Rightarrow> ('m, 's, 't) kobject \<Rightarrow> addr set" where
  "object_reach rm rs rt h x = rm h (ob_ObjectMeta x) \<union> (rs h (ob_Spec x) \<union> rt h (ob_Status x))"

definition object_ok :: "('c list \<Rightarrow> 'm \<Rightarrow> bool) \<Rightarrow> ('c list \<Rightarrow> 's \<Rightarrow> bool) \<Rightarrow> ('c list \<Rightarrow> 't \<Rightarrow> bool) \<Rightarrow> 'c list \<Rightarrow> ('m, 's, 't) kobject \<Rightarrow> bool" where
  "object_ok km ks kt h x \<longleftrightarrow> km h (ob_ObjectMeta x) \<and> ks h (ob_Spec x) \<and> kt h (ob_Status x)"

lemma deep_copier_object:
  assumes "deep_copier cm rm vm km" "deep_copier cs rs vs ks" "deep_copier ct rt vt kt"
    and "\<And>x h. into x h = (let (m, h1) = cm (ob_ObjectMeta x) h; (s, h2) = cs (ob_Spec x) h1; (t, h3) = ct (ob_Status x) h2
      in (x\<lparr>ob_ObjectMeta := m, ob_Spec := s, ob_Status := t\<rparr>, h3))"
  shows "deep_copier into (object_reach rm rs rt) (object_view vm vs vt) (object_ok km ks kt)"
  using deep_copier_struct [OF deep_copier_pair [OF assms(1) deep_copier_pair [OF assms(2,3)]],
    where get = "\<lambda>x. (ob_ObjectMeta x, ob_Spec x, ob_Status x)" and put = "\<lambda>x (m, s, t). x\<lparr>ob_ObjectMeta := m, ob_Spec := s, ob_Status := t\<rparr>" and
    shape = "\<lambda>x (m, s, t). \<lparr>ob_TypeMeta = ob_TypeMeta x, ob_ObjectMeta = m, ob_Spec = s, ob_Status = t\<rparr>" and into = into]
  by (simp add: assms(4) object_view_def [abs_def] object_reach_def [abs_def] object_ok_def [abs_def] copy_pair_def split_beta Let_def)

definition list_view :: "('c list \<Rightarrow> 'k \<Rightarrow> 'u) \<Rightarrow> ('c \<Rightarrow> 'a list) \<Rightarrow> ('c list \<Rightarrow> 'a \<Rightarrow> 'v) \<Rightarrow> 'c list \<Rightarrow> 'k klist \<Rightarrow> type_meta \<times> 'u \<times> 'v list option" where
  "list_view vk sel view h x = (kl_TypeMeta x, vk h (kl_ListMeta x), view_ptr sel (\<lambda>h. map (view h)) h (kl_Items x))"

definition list_reach :: "('c list \<Rightarrow> 'k \<Rightarrow> addr set) \<Rightarrow> ('c \<Rightarrow> 'a list) \<Rightarrow> ('c list \<Rightarrow> 'a \<Rightarrow> addr set) \<Rightarrow> 'c list \<Rightarrow> 'k klist \<Rightarrow> addr set" where
  "list_reach rk sel reach h x = rk h (kl_ListMeta x) \<union> reach_ptr sel (reach_elems reach) h (kl_Items x)"

definition list_ok :: "('c list \<Rightarrow> 'k \<Rightarrow> bool) \<Rightarrow> ('a list \<Rightarrow> 'c) \<Rightarrow> ('c \<Rightarrow> 'a list) \<Rightarrow> ('c list \<Rightarrow> 'a \<Rightarrow> bool) \<Rightarrow> 'c list \<Rightarrow> 'k klist \<Rightarrow> bool" where
  "list_ok kk mk sel ok h x \<longleftrightarrow> kk h (kl_ListMeta x) \<and> ok_ptr mk sel (\<lambda>h. list_all (ok h)) h (kl_Items x)"

lemma deep_copier_list:
  assumes "deep_copier ck rk vk kk" "deep_copier c reach view ok" "\<And>x. sel (mk x) = x"
    and "\<And>x h. into x h = (let (m, h1) = ck (kl_ListMeta x) h; (p, h2) = copy_ptr mk sel (copy_elems c) (kl_Items x) h1
      in (x\<lparr>kl_ListMeta := m, kl_Items := p\<rparr>, h2))"
  shows "deep_copier into (list_reach rk sel reach) (list_view vk sel view) (list_ok kk mk sel ok)"
  using deep_copier_struct [OF deep_copier_pair [OF assms(1) deep_copier_ptr [OF deep_copier_elems [OF assms(2)] assms(3)]],
    where get = "\<lambda>x. (kl_ListMeta x, kl_Items x)" and put = "\<lambda>x (m, p). x\<lparr>kl_ListMeta := m, kl_Items := p\<rparr>" and
    shape = "\<lambda>x (m, p). (kl_TypeMeta x, m, p)" and into = into]
  by (simp add: assms(4) list_view_def [abs_def] list_reach_def [abs_def] list_ok_def [abs_def] copy_pair_def split_beta Let_def)

section \<open>Copies of objects and lists\<close>

lemma watch_copier:
  assumes "lib_contract l rm vm km rk vk kk"
  shows "deep_copier (PostgresWatch_DeepCopyInto l) (object_reach rm watch_spec_reach watch_status_reach)
    (object_view vm watch_spec_view watch_status_view) (object_ok km watch_spec_ok watch_status_ok)"
  by (rule deep_copier_object [OF lib_contractD(1) [OF assms] watch_spec_copier.deep_copier_axioms watch_status_copier [OF assms]])
     (simp add: PostgresWatch_DeepCopyInto_def)

lemma source_copier:
  assumes "lib_contract l rm vm km rk vk kk"
  shows "deep_copier (DeploySource_DeepCopyInto l) (object_reach rm no_addrs source_status_reach)
    (object_view vm val source_status_view) (object_ok km fine source_status_ok)"
  by (rule deep_copier_object [OF lib_contractD(1) [OF assms] deep_copier_assign source_status_copier [OF assms]])
     (simp add: DeploySource_DeepCopyInto_def assign_def split_beta Let_def)

lemma regression_copier:
  assumes "lib_contract l rm vm km rk vk kk"
  shows "deep_copier (PerformanceRegression_DeepCopyInto l) (object_reach rm no_addrs regression_status_reach)
    (object_view vm val regression_status_view) (object_ok km fine regression_status_ok)"
  by (rule deep_copier_object [OF lib_contractD(1) [OF assms] deep_copier_assign regression_status_copier [OF assms]])
     (simp add: PerformanceRegression_DeepCopyInto_def assign_def split_beta Let_def)

lemma cluster_copier:
  assumes "lib_contract l rm vm km rk vk kk"
  shows "deep_copier (PostgresRadarCluster_DeepCopyInto l) (object_reach rm no_addrs no_addrs) (object_view vm val val) (object_ok km fine fine)"
  by (rule deep_copier_object [OF lib_contractD(1) [OF assms] deep_copier_assign deep_copier_assign])
     (simp add: PostgresRadarCluster_DeepCopyInto_def assign_def split_beta Let_def)

lemma source_list_copier:
  assumes "lib_contract l rm vm km rk vk kk"
  shows "deep_copier (DeploySourceList_DeepCopyInto l) (list_reach rk theSources (object_reach rm no_addrs source_status_reach))
    (list_view vk theSources (object_view vm val source_status_view)) (list_ok kk CSources theSources (object_ok km fine source_status_ok))"
  by (rule deep_copier_list [OF lib_contractD(2) [OF assms] source_copier [OF assms]]) (simp_all add: DeploySourceList_DeepCopyInto_def)

lemma regression_list_copier:
  assumes "lib_contract l rm vm km rk vk kk"
  shows "deep_copier (PerformanceRegressionList_DeepCopyInto l) (list_reach rk theRegressions (object_reach rm no_addrs regression_status_reach))
    (list_view vk theRegressions (object_view vm val regression_status_view)) (list_ok kk CRegressions theRegressions (object_ok km fine regression_status_ok))"
  by (rule deep_copier_list [OF lib_contractD(2) [OF assms] regression_copier [OF assms]]) (simp_all add: PerformanceRegressionList_DeepCopyInto_def)

lemma cluster_list_copier:
  assumes "lib_contract l rm vm km rk vk kk"
  shows "deep_copier (PostgresRadarClusterList_DeepCopyInto l) (list_reach rk theClusters (object_reach rm no_addrs no_addrs))
    (list_view vk theClusters (object_view vm val val)) (list_ok kk CClusters theClusters (object_ok km fine fine))"
  by (rule deep_copier_list [OF lib_contractD(2) [OF assms] cluster_copier [OF assms]]) (simp_all add: PostgresRadarClusterList_DeepCopyInto_def)

lemma watch_list_copier:
  assumes "lib_contract l rm vm km rk vk kk"
  shows "deep_copier (PostgresWatchList_DeepCopyInto l) (list_reach rk theWatches (object_reach rm watch_spec_reach watch_status_reach))
    (list_view vk theWatches (object_view vm watch_spec_view watch_status_view))
    (list_ok kk CWatches theWatches (object_ok km watch_spec_ok watch_status_ok))"
  by (rule deep_copier_list [OF lib_contractD(2) [OF assms] watch_copier [OF assms]]) (simp_all add: PostgresWatchList_DeepCopyInto_def)

text \<open>The value of a list of watches, and whether its pointers are valid.\<close>

definition watch_list_value :: "(('m, 'k, 'l) memory \<Rightarrow> 'k \<Rightarrow> 'u) \<Rightarrow> (('m, 'k, 'l) memory \<Rightarrow> 'm \<Rightarrow> 'v) \<Rightarrow> ('m, 'k, 'l) memory \<Rightarrow> addr option \<Rightarrow>
    (type_meta \<times> 'u \<times> ('v, watch_spec, watch_status) kobject list option) option" where
  "watch_list_value vk vm = view_ptr theWatchList (list_view vk theWatches (object_view vm watch_spec_view watch_status_view))"

definition watch_list_valid :: "(('m, 'k, 'l) memory \<Rightarrow> 'k \<Rightarrow> bool) \<Rightarrow> (('m, 'k, 'l) memory \<Rightarrow> 'm \<Rightarrow> bool) \<Rightarrow> ('m, 'k, 'l) memory \<Rightarrow> addr option \<Rightarrow> bool" where
  "watch_list_valid kk km = ok_ptr CWatchList theWatchList (list_ok kk CWatches theWatches (object_ok km watch_spec_ok watch_status_ok))"

section \<open>Properties\<close>

text \<open>C28: A deep copy of a list of watches is equal to the original and independent of it: it stands for the same
  objects; writing to any cells but the old ones, so in particular to everything the copy points to, leaves the original as it
  is; and writing to any of the old cells leaves the copy as it is. The copies of \<open>ObjectMeta\<close> and \<open>ListMeta\<close> are assumed to be deep
  copies in the same sense.\<close>

theorem watch_list_copy_independent:
  assumes "lib_contract l rm vm km rk vk kk" "watch_list_valid kk km h p" "PostgresWatchList_DeepCopy l p h = (q, h')"
  shows "watch_list_value vk vm h' q = watch_list_value vk vm h p \<and>
    (\<forall>h2. length h \<le> length h2 \<and> (\<forall>a<length h. h2 ! a = h ! a) \<longrightarrow> watch_list_value vk vm h2 p = watch_list_value vk vm h p) \<and>
    (\<forall>h2. length h' \<le> length h2 \<and> (\<forall>a. length h \<le> a \<and> a < length h' \<longrightarrow> h2 ! a = h' ! a) \<longrightarrow>
      watch_list_value vk vm h2 q = watch_list_value vk vm h p)"
proof -
  have "deep_copier (PostgresWatchList_DeepCopy l) (reach_ptr theWatchList (list_reach rk theWatches (object_reach rm watch_spec_reach watch_status_reach)))
      (watch_list_value vk vm) (watch_list_valid kk km)"
    using deep_copier_ptr [OF watch_list_copier [OF assms(1)], where mk = CWatchList and sel = theWatchList]
    by (simp add: PostgresWatchList_DeepCopy_def [abs_def] watch_list_value_def watch_list_valid_def)
  note copier = deep_copier.copies [OF this assms(2,3)] deep_copier.original_kept [OF this assms(2)] deep_copier.copy_kept [OF this assms(2,3)]
  show ?thesis using copier by blast
qed

section \<open>Witnesses\<close>

text \<open>A library whose metadata is a pointer to labels, and a list of one watch with a Prometheus source.\<close>

definition label_lib :: "(addr option, string, string) kube_lib" where
  "label_lib = \<lparr>lib_ObjectMeta = copy_ptr CLibrary theLibrary assign, lib_ListMeta = assign, lib_Time = (\<lambda>t. t), lib_Condition = (\<lambda>c. c)\<rparr>"

definition prom_cell :: "string \<Rightarrow> prometheus_config" where
  "prom_cell url = \<lparr>pcf_URL = url, pcf_MetricName = ''m'', pcf_QueryIDLabel = [], pcf_QueryTextLabel = [], pcf_StepSeconds = 60\<rparr>"

definition watch_memory :: "(addr option, string, string) memory" where
  "watch_memory =
     [CPrometheus (prom_cell ''http://prom''),
      CSampleSourceConfig \<lparr>sc_plain = \<lparr>ss_Type = ''prometheus'', ss_Prometheus = None\<rparr>, sc_Prometheus = Some 0\<rparr>,
      CLibrary ''labels'',
      CWatches [\<lparr>ob_TypeMeta = \<lparr>tm_Kind = ''PostgresWatch'', tm_APIVersion = ''v1alpha1''\<rparr>, ob_ObjectMeta = Some 2,
        ob_Spec = \<lparr>ws_plain = sample_spec, ws_DSNSecretRef = None, ws_RemoteClusterSecretRef = None, ws_CriticalQueryIDs = None, ws_AutoAbort = None,
          ws_Alerting = None, ws_PeriodicDetection = None, ws_SampleSource = Some 1\<rparr>,
        ob_Status = \<lparr>wt_plain = pw_Status (sample_watch sample_spec), wt_LastScrapeTime = None, wt_Conditions = None\<rparr>\<rparr>],
      CWatchList \<lparr>kl_TypeMeta = \<lparr>tm_Kind = ''PostgresWatchList'', tm_APIVersion = ''v1alpha1''\<rparr>, kl_ListMeta = [], kl_Items = Some 3\<rparr>]"

lemma label_lib_contract:
  "lib_contract label_lib (reach_ptr theLibrary no_addrs) (view_ptr theLibrary val) (ok_ptr CLibrary theLibrary fine) no_addrs val fine"
  using deep_copier_cell [where mk = CLibrary and sel = theLibrary] deep_copier_assign by (simp add: lib_contract_def label_lib_def)

theorem watch_list_copy_independent_witness:
  "let (q, h') = PostgresWatchList_DeepCopy label_lib (Some 4) watch_memory; h2 = h'[6 := CPrometheus (prom_cell ''http://other'')];
       value = watch_list_value val (view_ptr theLibrary val)
   in q = Some 9 \<and> h' ! 6 = CPrometheus (prom_cell ''http://prom'') \<and> value h' q = value watch_memory (Some 4) \<and> value h2 (Some 4) = value watch_memory (Some 4)"
proof -
  obtain q h' where c: "PostgresWatchList_DeepCopy label_lib (Some 4) watch_memory = (q, h')" by (metis prod.exhaust)
  have "watch_list_valid fine (ok_ptr CLibrary theLibrary fine) watch_memory (Some 4)"
    by (simp add: watch_list_valid_def ok_ptr_def list_ok_def object_ok_def watch_spec_ok_def source_config_ok_def watch_status_ok_def watch_memory_def)
  note copy = watch_list_copy_independent [OF label_lib_contract this c]
  have "case PostgresWatchList_DeepCopy label_lib (Some 4) watch_memory of (q, h') \<Rightarrow> q = Some 9 \<and> take 5 h' = watch_memory \<and> length h' = 10 \<and>
      h' ! 6 = CPrometheus (prom_cell ''http://prom'')" by code_simp
  then have q: "q = Some 9" "h' = watch_memory @ drop 5 h'" "length h' = 10" "h' ! 6 = CPrometheus (prom_cell ''http://prom'')"
    using append_take_drop_id [of 5 h'] unfolding c by auto
  have len: "length watch_memory = 5" by (simp add: watch_memory_def)
  have "h'[6 := CPrometheus (prom_cell ''http://other'')] ! a = watch_memory ! a" if "a < length watch_memory" for a
    using that len by (subst q(2)) (simp add: nth_append nth_list_update)
  then have "watch_list_value val (view_ptr theLibrary val) (h'[6 := CPrometheus (prom_cell ''http://other'')]) (Some 4) =
      watch_list_value val (view_ptr theLibrary val) watch_memory (Some 4)"
    using q(3) len by (intro copy [THEN conjunct2, THEN conjunct1, rule_format]) auto
  then show ?thesis using copy [THEN conjunct1] q(1,4) by (simp only: c Let_def prod.case)
qed

end
