(* ===== verification/Spec2Isabelle.thy ===== *)
theory Spec2Isabelle
  imports Processes Reporting Deep_Copy
begin

text \<open>
  A verification of pg-regression-radar: a program that scrapes query statistics from a Postgres server,
  receives deploy events from delivery tools, and decides by statistics whether a deploy made a query
  slower.

  \<^bold>\<open>The program and its theories.\<close> Paths are relative to the root of the repository.

  \<^item> \<open>Radar_Prelude\<close>, \<open>Go_Strings\<close>, \<open>Go_Net\<close>: what the program uses of Go and its standard library: times,
    durations, maps, \<open>sort.Search\<close>, \<open>strings\<close>, \<open>strconv\<close>, \<open>net.ParseIP\<close>, \<open>net.ParseCIDR\<close>; and the lemmas that
    every component applies (collections \<open>time_simps\<close>, \<open>search_simps\<close>, \<open>map_simps\<close>).
  \<^item> \<open>Api_Types\<close> (\<open>pkg/apis/v1alpha1/types.go\<close>): deploy events, samples, regressions, and the contract of a
    sample source.
  \<^item> \<open>Fingerprint\<close> (\<open>internal/collector/fingerprint.go\<close>), \<open>Planner\<close> (\<open>internal/planner\<close>) and \<open>Collector\<close>
    (\<open>internal/collector/collector.go\<close>): a scrape reads the statistics, fingerprints each query text,
    appends samples to the in-memory history, prunes it, and captures plans. State: the record
    \<open>collector\<close>; operations \<open>scrape\<close>, \<open>collector_Run\<close>, \<open>collector_Backfill\<close>, \<open>prune_before\<close>, the range queries and
    \<open>plansAround\<close>.
  \<^item> \<open>Statistics\<close>, \<open>Change_Point\<close>, \<open>Correlation_Engine\<close> (\<open>internal/correlation/engine.go\<close>) and \<open>Trackers\<close>
    (\<open>pending.go\<close>, \<open>periodic.go\<close>): the engine asks a sample source for a window around a deploy, finds the change
    point by the energy statistic, tests it, and attributes it; the trackers decide what of the
    repeated verdicts is reported.
  \<^item> \<open>Event_Ingester\<close> (\<open>internal/ingester/ingester.go\<close>): the store of deploy events with its cursor, and the
    webhook handler that authenticates, decodes and normalises the four payload formats (Argo CD, Argo Rollouts, Flux, generic).
  \<^item> \<open>Memory_Store\<close> (\<open>internal/storage/store.go\<close>, \<open>prune.go\<close>, \<open>memory/store.go\<close>): the storage contracts, the
    retention loop and the in-memory backend. \<open>Postgres_Store\<close> (\<open>internal/storage/postgres\<close>): the durable backend, its
    statements as operations on two tables, and the migration.
  \<^item> \<open>Prom_Source\<close> (\<open>internal/telemetry/promsource\<close>): the other sample source, a Prometheus server.
  \<^item> \<open>Alerting\<close> (\<open>internal/alerting\<close>): checks on destinations, formats, delivery with its counters.
  \<^item> \<open>Poll_Loop\<close>: what the poll loops of the operator and of the manager have in common: drain the event
    store, put new events under analysis, tick.
  \<^item> \<open>Operator\<close> (\<open>internal/cli/operator.go\<close>, \<open>dsn.go\<close>, \<open>flags.go\<close>): one process with one collector, store,
    engine and notifier; from the parsed flags to the exit code or the running state, and one iteration of
    each of its loops.
  \<^item> \<open>Kube_Types\<close> (\<open>api/v1alpha1\<close>), \<open>Secret_Access\<close> (\<open>secret_consent.go\<close>, \<open>remote_client.go\<close> and \<open>resolveDSN\<close> of
    \<open>internal/controller\<close>), \<open>Watch_Runtime\<close> (\<open>registry.go\<close>, \<open>mux.go\<close>, \<open>deploysource_controller.go\<close>,
    \<open>workload_watch_controller.go\<close>) and \<open>Watch_Controller\<close> (\<open>postgreswatch_controller.go\<close>,
    \<open>internal/actuation/argorollouts.go\<close>): the Kubernetes manager. Its reconcilers start and stop one
    worker per PostgresWatch, feed it with deploy events from webhooks and workload rollouts, and its loops
    alert, record PerformanceRegression objects and abort rollouts. \<open>Manager_Runs\<close>: its runs, with the
    reports of all workers.
  \<^item> \<open>Dashboard\<close> (\<open>internal/dashboardapi\<close>): the read-only HTTP API. \<open>Cli_Modes\<close> (\<open>manager.go\<close>,
    \<open>manager_status.go\<close>, \<open>collector.go\<close>, \<open>ingester.go\<close> of \<open>internal/cli\<close>): flag checks, wiring and the routes
    of the other modes. \<open>Processes\<close> (the rest of \<open>manager.go\<close>, the servers and retention loops of \<open>operator.go\<close>,
    \<open>internal/httpserver\<close>, \<open>internal/buildinfo\<close>, \<open>cmd\<close>): servers, the whole run of the manager, the entry point.
  \<^item> \<open>Deep_Copy\<close> (\<open>api/v1alpha1/zz_generated.deepcopy.go\<close>): the copies of API objects, on a memory of cells in which a struct
    points to its optional parts and slices. \<open>*_DeepCopyInto\<close>, \<open>*_DeepCopy\<close> and \<open>*_DeepCopyObject\<close> are the functions of
    the file; the view of a struct in a memory is the value of \<open>Kube_Types\<close> it stands for.
  \<^item> \<open>Scenarios\<close>: the concrete runs at which the composed theorems are applied. \<open>Restart\<close>: two lives of an operator over one
    database. \<open>Reporting\<close>: what an operator hands to alerting and which requests this sends.
  \<^item> This theory: properties that span the collector, the engine, the stores, the operator and the manager.

  \<^bold>\<open>Modelling.\<close>

  \<^item> State is passed explicitly; a struct is a record, whose fields have a prefix for their struct. A method with a
    pointer receiver returns the new state. A mutex makes an operation atomic; the interleaving of goroutines is a
    sequence of operations: \<open>collector_reach\<close>, and \<open>manager_step\<close> with \<open>manager_reach\<close>, \<open>manager_run\<close> and \<open>manager_steps\<close>
    over it (inductive), lists of operations for stores and trackers, \<open>worker_run\<close> for a process, \<open>operator_trace\<close> for the
    operator with its effects. One iteration of a loop is one step, with the samples of its moment.
  \<^item> The registry of the manager holds pointers to runtimes that loops and webhook routes share. \<open>manager\<close> has
    a heap of runtimes for them, so that a route to a stopped worker is expressible.
  \<^item> Objects of the Kubernetes API are immutable values in the reconcilers, although the code has pointers to them: it changes
    only what it has copied, and \<open>Deep_Copy\<close> shows that no write to a copy is seen through the original.
  \<^item> Times are integers, nanoseconds since Go's zero time; durations wrap at 64 bits (\<open>wrap64\<close>). \<open>time.Now()\<close> is an
    argument, or a clock indexed by the call; the start of the operator reads it once. The states of a collector
    (\<open>collector_reach\<close>) assume that the clock does not go back. Maps are association lists, whose order is the iteration order;
    theorems do not depend on it unless they say so. \<open>sort.Slice\<close> is taken as stable.
  \<^item> A \<open>float64\<close> is an exact real number: rounding, NaN and infinities are outside, except where the code tests
    for them while it reads external numbers. \<open>Lgamma\<close>, \<open>Exp\<close> and the like are their real functions.
  \<^item> Text is a list of bytes; case and white space are those of ASCII.
  \<^item> Errors are values (\<open>Inl\<close> of a sum, \<open>Some\<close> of an optional error, exit codes); a panic in a goroutine of the operator is
    an outcome.
  \<^item> The meaning of the SQL statements of the durable store is written out on lists of rows; the resolution of its time columns
    is an argument (\<open>ts\<close>), of which theorems assume at most what Postgres documents (\<open>pg_resolution\<close>: one microsecond).
  \<^item> The monitored database, the Kubernetes API and controller-runtime, HTTP exchanges, \<open>encoding/json\<close>, \<open>net/url\<close>, \<open>text/template\<close>,
    \<open>clientcmd\<close> and the hash of a kubeconfig are arguments. What a theorem needs of them is a hypothesis.
  \<^item> No fuel is used. Loops are structural recursions, or functions with a measure: the binary search, the
    divisive search (each round adds a change point or ends), the passes of the fingerprint (the rest of
    the text gets shorter), the argument swap of the incomplete beta function, which happens at most once.

  \<^bold>\<open>Interfaces.\<close> Each is a locale, and each provider interprets it on its own definitions:
  \<open>sample_source\<close> (what the engine assumes of a source) by \<open>collector_source\<close>, \<open>memory_source\<close> and \<open>prom_source\<close>;
  \<open>event_store\<close> by \<open>ingester_store\<close>, \<open>memory_events\<close> and \<open>pg_events\<close>; \<open>pruner\<close> by \<open>collector_pruner\<close> and
  \<open>pg_event_pruner\<close>; its extension \<open>sample_store\<close> by \<open>memory_samples\<close> and \<open>pg_store\<close>, the last three at the resolution \<open>tm\<close> of the store; \<open>event_analyser\<close> (what the pending set assumes of an analysis) by \<open>engine_analyser\<close>;
  \<open>poll_worker\<close> (a process with a store and a poll loop) by \<open>operator_worker\<close> and \<open>runtime_worker\<close>; its extension
  \<open>steady_worker\<close> (the analysis window does not change) by \<open>operator_steady\<close> and \<open>runtime_steady\<close>; \<open>deep_copier\<close> (a copy
  equals its original and lies in new memory) by \<open>sample_source_copier\<close> and \<open>watch_spec_copier\<close>. The types that hold data of
  apimachinery meet it as far as that library does (\<open>lib_contract\<close>), which lemmas of \<open>Deep_Copy\<close> state.

  \<^bold>\<open>What the theorems show.\<close>

  \<^item> Detection: the incremental change-point scan is the first maximum of the energy statistic computed from
    scratch; the divisive search returns sorted, separated points; the verdict on a query is exactly the
    specified one, and is close to the deploy, confident and above the threshold over every reachable collector.
  \<^item> Reporting: every stored event is drained once; while an event is pending each detection is reported, and none twice,
    for the trackers, for the loop that the two processes share, for an operator from its flags on, and for every worker of the
    manager whatever the interleaving. As long as the window of a deploy is open, what its analysis detects at a tick has been
    handed on exactly once after it, if the deploy arrived after the start; without periodic detection a run sends at most one request for each pair of deploy and query.
  \<^item> Restarts: a second process over the same database loads exactly the samples that were written and kept, and does not repeat
    what the first one reported.
  \<^item> History: the collector's index and histories are consistent in every reachable state; retention removes exactly the
    aged samples; range queries return exactly the samples recorded, each as often as recorded; fingerprints ignore the contents of constants and
    comments.
  \<^item> Trust: a webhook changes the store only when authorised; a notifier is built only for a checked
    destination; a stored event is the one its payload carries; a DSN comes only from a Secret whose owner consented, by a client that was checked; a captured plan comes from a source of
    sufficient version; the rollouts aborted are exactly those that meet all conditions.
  \<^item> The manager: live workers are exactly the registered ones in every reachable state; finished rollouts reach every matching
    watch; a reconciliation that succeeded settles, so that another pass changes nothing; names of regression objects are valid.
  \<^item> Round trips: query ids through Prometheus labels and through the dashboard's routes.
  \<^item> The lexical structure of SQL (\<open>piece\<close>, \<open>lexed\<close> in \<open>Fingerprint\<close>) is the specification of the scanner.
  \<^item> Copies: a deep copy stands for the same object, leaves the memory it found as it was and shares no cell with it.
  \<^item> Where the code does not do what it intends, a theorem shows the behaviour: a sibling query hidden by the
    deduplication, a webhook route that feeds a stopped worker, samples mirrored twice, a blocked host with a
    trailing dot, a recreated workload taken for a duplicate, a recovered watch that stays not ready, a standby whose
    dashboard cannot listen and which marks all watches as failed.

  \<^bold>\<open>Not modelled.\<close> \<open>groupversion_info.go\<close> and \<open>SetupWithManager\<close> register types and callbacks with controller-runtime;
  \<open>Registry.Gather\<close> merges metric families of the Prometheus library; \<open>internal/testlogger\<close> serves tests only. Logging,
  timeouts of calls, signals, the text of the help and parsing of flags by the \<open>flag\<close> package are left out.
\<close>

section \<open>A query hidden by its sibling\<close>

lemma result_of_listed:
  assumes "r \<in> set (analyse \<lparr>eng_cfg = cfg, eng_src = (collector_src c)\<lparr>src_AllQueryIDs := ids\<rparr>\<rparr> clock ev)"
  obtains x where "x \<in> set ids"
    "pr_QueryID r = canonicalQueryID (collector_SamplesInRange x (time_add (ev_Timestamp ev) (dur_neg (dur_mul (ec_WindowMinutes cfg) minute_d)))
       (time_add (ev_Timestamp ev) (dur_mul (ec_WindowMinutes cfg) minute_d)) c) x"
  using assms by (auto simp: analyse_def Let_def collector_src_def window_eval_def evaluateQuery_fields elim!: analyseWindow_result)

lemma reported_under_own_id:
  assumes "collector_inv c" "x \<noteq> q" "x \<in> siblings_of c q \<Longrightarrow> 5 \<le> length (filterRange (map_get [] (c_samples c) x) lo hi)"
  shows "canonicalQueryID (collector_SamplesInRange x lo hi c) x \<noteq> q"
proof (cases "collector_SamplesInRange x lo hi c = []")
  case False
  have own: "s \<in> set (map_get [] (c_samples c) p) \<Longrightarrow> qs_QueryID s = p" for s p
    using assms(1) buckets_ok_get by (auto simp: collector_inv_def collector_pre_def)
  have "qs_QueryID s \<noteq> q" if "s \<in> set (collector_SamplesInRange x lo hi c)" for s
    using that assms(2,3) own unfolding samples_merged [OF assms(1)] by (fastforce simp: siblings_of_def)
  then show ?thesis using canonicalQueryID_member [OF False, of x] by (metis imageE)
qed (simp add: assms(2) canonicalQueryID_def latestSample_def)

text \<open>C32: A query whose fingerprint a smaller query id also shows is not evaluated: over every reachable collector the analysis of a
  deploy is the same as if the source did not list the query at all. If moreover every other query with its current fingerprint has at least five
  samples of its own in the window, so that the collector does not merge its samples into theirs, no result of the analysis is
  about it, whatever its own samples are. The instance shows such a query that on its own samples is a detected regression.\<close>

theorem sibling_regression_missed:
  assumes "collector_reach ccfg t c" "p \<in> set (collector_AllQueryIDs c)" "p < q"
    and "lo = time_add (ev_Timestamp ev) (dur_neg (dur_mul (ec_WindowMinutes cfg) minute_d))"
    and "hi = time_add (ev_Timestamp ev) (dur_mul (ec_WindowMinutes cfg) minute_d)"
    and "latestFingerprint (collector_SamplesInRange p lo hi c) = latestFingerprint (collector_SamplesInRange q lo hi c)"
    and "latestFingerprint (collector_SamplesInRange q lo hi c) \<noteq> []"
  shows "analyse \<lparr>eng_cfg = cfg, eng_src = collector_src c\<rparr> clock ev =
      analyse \<lparr>eng_cfg = cfg, eng_src = (collector_src c)\<lparr>src_AllQueryIDs := filter (\<lambda>x. x \<noteq> q) (collector_AllQueryIDs c)\<rparr>\<rparr> clock ev \<and>
    ((\<forall>x\<in>siblings_of c q. 5 \<le> length (filterRange (map_get [] (c_samples c) x) lo hi)) \<longrightarrow>
       q \<notin> pr_QueryID ` set (analyse \<lparr>eng_cfg = cfg, eng_src = collector_src c\<rparr> clock ev))"
proof -
  have inv: "collector_inv c" using collector_reach_inv [OF assms(1)] by simp
  then have d: "distinct (collector_AllQueryIDs c)"
    by (simp add: collector_AllQueryIDs_def map_keys_def collector_inv_def collector_pre_def buckets_ok_def)
  have eq: "analyse \<lparr>eng_cfg = cfg, eng_src = collector_src c\<rparr> clock ev =
      analyse \<lparr>eng_cfg = cfg, eng_src = (collector_src c)\<lparr>src_AllQueryIDs := filter (\<lambda>x. x \<noteq> q) (collector_AllQueryIDs c)\<rparr>\<rparr> clock ev"
    using analyseWindow_skips [of "collector_src c" p q lo hi "ev_Timestamp ev" "evaluateQuery cfg ev" clock] d assms(2-7)
    by (simp add: analyse_def Let_def collector_src_def window_fp_def)
  show ?thesis
  proof (intro conjI impI notI)
    assume far: "\<forall>x\<in>siblings_of c q. 5 \<le> length (filterRange (map_get [] (c_samples c) x) lo hi)"
      and "q \<in> pr_QueryID ` set (analyse \<lparr>eng_cfg = cfg, eng_src = collector_src c\<rparr> clock ev)"
    then obtain r where r: "r \<in> set (analyse \<lparr>eng_cfg = cfg, eng_src = (collector_src c)\<lparr>src_AllQueryIDs := filter (\<lambda>x. x \<noteq> q) (collector_AllQueryIDs c)\<rparr>\<rparr> clock ev)"
      "pr_QueryID r = q" unfolding eq by blast
    from r(1) obtain x where "x \<in> set (filter (\<lambda>x. x \<noteq> q) (collector_AllQueryIDs c))" "pr_QueryID r = canonicalQueryID (collector_SamplesInRange x lo hi c) x"
      unfolding assms(4,5) by (rule result_of_listed)
    then have "x \<noteq> q" "canonicalQueryID (collector_SamplesInRange x lo hi c) x = q" using r(2) by simp_all
    then show False using reported_under_own_id [OF inv] far by blast
  qed (rule eq)
qed

theorem sibling_regression_missed_witness:
  "2 \<notin> pr_QueryID ` set (analyse hidden_engine (\<lambda>_. 0) hidden_deploy) \<and>
   pr_Status (case partitionAt (collector_SamplesInRange 2 (hidden_at - 1800000000000) (hidden_at + 1800000000000) hidden_collector) hidden_at of
     (pre, post) \<Rightarrow> evaluateQuery hidden_engine_cfg hidden_deploy 2 pre post 0) = StatusDetected"
proof -
  let ?lo = "hidden_at - 1800000000000" let ?hi = "hidden_at + 1800000000000"
  have fp: "latestFingerprint (collector_SamplesInRange 1 ?lo ?hi hidden_collector) = ''f''" "latestFingerprint (collector_SamplesInRange 2 ?lo ?hi hidden_collector) = ''f''"
    "1 \<in> set (collector_AllQueryIDs hidden_collector)" "length (filterRange (map_get [] (c_samples hidden_collector) 1) ?lo ?hi) = 10" by code_simp+
  have "c_queryFingerprint hidden_collector = [(1, ''f''), (2, ''f'')]" by code_simp
  then have sib: "siblings_of hidden_collector 2 = {1}" by (auto simp: siblings_of_def split: if_splits)
  have "2 \<notin> pr_QueryID ` set (analyse hidden_engine (\<lambda>_. 0) hidden_deploy)"
    unfolding hidden_engine_def
    by (rule sibling_regression_missed [OF hidden_collector_reach fp(3), of 2 ?lo hidden_deploy hidden_engine_cfg ?hi, THEN conjunct2, rule_format])
       (simp_all add: hidden_window sib fp)
  then show ?thesis by (simp add: hidden_partition slow_detected)
qed

section \<open>Attribution\<close>

text \<open>C6: A regression that the engine detects over a collector in any reachable state is attributed
  correctly: its change point lies within the tolerance (and the analysis window) of the deploy, its
  confidence is at least one minus the significance level and at most one, the mean latency rose by at
  least the threshold, and it names the deploy event.\<close>

theorem collector_detection_attributed:
  assumes "collector_reach ccfg t c" 
    and "r \<in> set (analyse \<lparr>eng_cfg = cfg, eng_src = collector_src c\<rparr> clock ev)" "pr_Status r = StatusDetected"
    and "0 \<le> dur_mul (ec_WindowMinutes cfg) minute_d"
  shows "\<bar>pr_DetectedChangeAt r - ev_Timestamp ev\<bar> \<le> min (dur_mul (ec_WindowMinutes cfg) minute_d) (ec_ChangePointTolerance cfg) \<and>
    min 1 (1 - ec_PValueThreshold cfg) \<le> pr_ConfidenceScore r \<and> pr_ConfidenceScore r \<le> 1 \<and>
    ec_LatencyChangeThreshold cfg \<le> pr_LatencyChangeFactor r - 1 \<and> pr_DeployEventID r = ev_ID ev"
proof -
  obtain v where "Rep_valid_collector v = c" using valid_collector_rep collector_reach_inv [OF assms(1)] by blast
  then have "sample_source (\<lambda>q lo hi. collector_SamplesInRange q lo hi c)"
    using collector_source.sample_source_axioms [of v] by simp
  from sample_source.detected_attributed [OF this assms(2) [unfolded collector_src_def] assms(3) refl assms(4)]
  show ?thesis .
qed

theorem collector_detection_attributed_witness:
  "\<exists>r\<in>set (analyse \<lparr>eng_cfg = hidden_engine_cfg, eng_src = collector_src slow_collector\<rparr> (\<lambda>_. 0) hidden_deploy).
     \<bar>pr_DetectedChangeAt r - hidden_at\<bar> \<le> 360000000000 \<and> 19 / 20 \<le> pr_ConfidenceScore r"
proof -
  let ?r = "evaluateQuery hidden_engine_cfg hidden_deploy 2 slow_pre slow_post 0"
  obtain cfg where reach: "collector_reach cfg (hidden_at + 600000000000) slow_collector" using slow_collector_reach by blast
  have "0 \<le> dur_mul (ec_WindowMinutes hidden_engine_cfg) minute_d" "ec_ChangePointTolerance hidden_engine_cfg = 360000000000"
    "ec_PValueThreshold hidden_engine_cfg = 1 / 20" by code_simp+
  then have "\<bar>pr_DetectedChangeAt ?r - hidden_at\<bar> \<le> 360000000000 \<and> 19 / 20 \<le> pr_ConfidenceScore ?r"
    using collector_detection_attributed [OF reach, of ?r hidden_engine_cfg "\<lambda>_. 0" hidden_deploy]
    by (simp add: slow_analyse slow_detected hidden_window)
  then show ?thesis by (simp add: slow_analyse)
qed

section \<open>The operator from its flags to its alerts\<close>

text \<open>C4: However the operator was started, with an empty memory or with the persisted history, and in whatever
  order webhook deliveries and redeliveries, poll ticks, scrapes, mirror ticks and periodic ticks follow:
  no pair of deploy and query is handed to alerting twice, everything handed on is a detected
  regression of a stored deploy, and none of it is about a deploy of the persisted history.\<close>

theorem operator_reports_once:
  assumes "runOperator env parsed = OpRun op"
    and "worker_run operator_deliver operator_tick_state operator_results operator_job_state ops (op, []) = (op', reported)"
  shows "distinct (map (\<lambda>t. (ev_ID (tr_Event t), pr_QueryID (tr_Regression t))) reported) \<and>
    list_all (\<lambda>t. pr_Status (tr_Regression t) = StatusDetected \<and> ev_ID (tr_Event t) \<in> ev_ID ` set (st_events (op_store op')) \<and>
      ev_ID (tr_Event t) \<notin> ev_ID ` set (st_events (op_store op))) reported"
  using operator_worker.worker_reports_once [OF _ _ assms(2)] runOperator_fresh [OF assms(1)]
  by (simp add: fresh_worker_def tr_key_fun)

theorem operator_reports_once_witness:
  "\<exists>op op' reported. runOperator slow_env (FlagsParsed slow_flags) = OpRun op \<and>
     worker_run operator_deliver operator_tick_state operator_results operator_job_state
       [WDeliver hidden_deploy, WTick slow_tick, WDeliver hidden_deploy, WTick slow_tick] (op, []) = (op', reported) \<and>
     map (\<lambda>t. (ev_ID (tr_Event t), pr_QueryID (tr_Regression t))) reported = [(''d'', 2)] \<and>
     list_all (\<lambda>t. pr_Status (tr_Regression t) = StatusDetected \<and> ev_ID (tr_Event t) \<notin> ev_ID ` set (st_events (op_store op))) reported"
proof -
  note start = slow_start
  obtain op' reported where run: "worker_run operator_deliver operator_tick_state operator_results operator_job_state
      [WDeliver hidden_deploy, WTick slow_tick, WDeliver hidden_deploy, WTick slow_tick] (slow_operator, []) = (op', reported)"
    by (metis prod.exhaust)
  have "ev_ID hidden_deploy = ''d''" by code_simp
  moreover have "reported = [\<lparr>tr_Event = hidden_deploy, tr_Regression = slow_regression\<rparr>]" using slow_run unfolding run by simp
  ultimately have "map (\<lambda>t. (ev_ID (tr_Event t), pr_QueryID (tr_Regression t))) reported = [(''d'', 2)]"
    by (simp add: slow_regression_def evaluateQuery_fields)
  moreover have "list_all (\<lambda>t. pr_Status (tr_Regression t) = StatusDetected \<and> ev_ID (tr_Event t) \<notin> ev_ID ` set (st_events (op_store slow_operator))) reported"
    using operator_reports_once [OF start run] unfolding list_all_iff by blast
  ultimately show ?thesis using start run by (intro exI conjI)
qed

section \<open>The workers of the manager\<close>

text \<open>C3: Whatever the interleaving of reconciliations, webhook requests, rollouts, scrapes and ticks: no worker of the
  manager, running or stopped, hands a pair of deploy and query to alerting twice, and what it hands
  on is a detected regression of a deploy in its own event store.\<close>

theorem manager_reports_once:
  assumes "manager_run m out"
  shows "distinct (map (\<lambda>(a, t). (a, ev_ID (tr_Event t), pr_QueryID (tr_Regression t))) out) \<and>
    list_all (\<lambda>(a, t). a < length (mg_heap m) \<and> pr_Status (tr_Regression t) = StatusDetected \<and>
      ev_ID (tr_Event t) \<in> ev_ID ` set (st_events (rt_Store (at_addr m a)))) out"
proof -
  note inv = manager_run_inv [OF assms]
  have once: "distinct (map tr_key (reports_of a out)) \<and> list_all (\<lambda>t. pr_Status (tr_Regression t) = StatusDetected \<and>
      ev_ID (tr_Event t) \<in> ev_ID ` set (st_events (rt_Store (at_addr m a)))) (reports_of a out)" if "a < length (mg_heap m)" for a
    using inv that poll_inv_once [of 0 "rt_Store (at_addr m a)" "rt_cursor (at_addr m a)" "rt_pending (at_addr m a)" "reports_of a out"]
    by (simp add: runtime_poll_state_def)
  have "distinct (map tr_key (reports_of a out))" for a
  proof (cases "a < length (mg_heap m)")
    case False
    then have "reports_of a out = []" using inv by (auto simp: reports_of_def filter_empty_conv)
    then show ?thesis by simp
  qed (use once in blast)
  then have "distinct (map (\<lambda>(a, t). (a, ev_ID (tr_Event t), pr_QueryID (tr_Regression t))) out)"
    using distinct_by_worker [of tr_key out] by (simp add: tr_key_fun)
  moreover have "a < length (mg_heap m) \<and> pr_Status (tr_Regression t) = StatusDetected \<and>
      ev_ID (tr_Event t) \<in> ev_ID ` set (st_events (rt_Store (at_addr m a)))" if "(a, t) \<in> set out" for a t
  proof -
    have "a < length (mg_heap m)" "t \<in> set (reports_of a out)" using inv that by (auto simp: reports_of_def image_iff)
    then show ?thesis using once by (auto simp: list_all_iff)
  qed
  ultimately show ?thesis by (auto simp: list_all_iff)
qed

theorem manager_reports_once_witness:
  "manager_run (update_runtime 0 (runtime_tick_state prom_tick) ticked_manager) [(0, \<lparr>tr_Event = prom_deploy, tr_Regression = prom_regression\<rparr>)] \<and>
   ev_ID prom_deploy \<in> ev_ID ` set (st_events (rt_Store (at_addr (update_runtime 0 (runtime_tick_state prom_tick) ticked_manager) 0)))"
  using manager_reports_once [OF prom_run] prom_run by simp

section \<open>Reconciliation settles\<close>

text \<open>C15: Reconciling a watch reaches a fixpoint in one successful pass. Whatever happens afterwards, as long as the watch's
  entry in the registry is not touched, another pass over the same spec and the same resolved DSN (even
  by a watch object with a newer status) restarts nothing: it leaves the whole state as it is, and
  only reports the worker's status.\<close>

theorem reconcile_settles:
  assumes "manager_inv m" "watch_dsn w cfg now watch cache = (Inr dsn, c)"
    and "watch_Reconcile w cfg update now (Found watch) key cache m = ((RequeueAfter d, obj), cache', m')"
    and "manager_steps m' m1" "registry_Get key m1 = registry_Get key m'"
    and "pw_Spec watch2 = pw_Spec watch" "watch_dsn w2 cfg now2 watch2 cache2 = (Inr dsn, cache3)" "wd_HashSpec w2 = wd_HashSpec w"
  shows "\<exists>a. registry_Get key m1 = Some a \<and>
    watch_Reconcile w2 cfg update2 now2 (Found watch2) key cache2 m1 = (refreshStatus update2 w2 now2 (at_addr m1 a) watch2, cache3, m1)"
proof -
  obtain a where a: "registry_Get key m' = Some a" "a < length (mg_heap m')"
      "rt_SpecHash (at_addr m' a) = hashPostgresWatchSpec (wd_HashSpec w) (pw_Spec watch) dsn"
    using reconciled_worker [OF assms(1-3)] by blast
  then have "rt_SpecHash (at_addr m1 a) = hashPostgresWatchSpec (wd_HashSpec w2) (pw_Spec watch2) dsn"
    using manager_steps_SpecHash [OF assms(4) a(2)] assms(6,8) by simp
  then show ?thesis using a(1) assms(5,7) by (auto simp: watch_Reconcile_def Let_def)
qed

theorem reconcile_settles_witness:
  "\<exists>st. watch_Reconcile prom_world sample_rcfg (\<lambda>u. None) 99 (Found (started_status 5 prom_watch)) (in_ns ''w'') [] fed_manager =
     ((RequeueAfter statusRefreshInterval, Some st), [], fed_manager)"
proof -
  have "manager_steps prom_manager fed_manager"
    using manager_steps.more [OF manager_steps.none manager_step.workload [OF prom_rollout]] .
  moreover have "registry_Get (in_ns ''w'') fed_manager = registry_Get (in_ns ''w'') prom_manager"
    by (simp add: fed_manager_def prom_manager_def registry_Get_def)
  moreover have "pw_Spec (started_status 5 prom_watch) = pw_Spec prom_watch" by (simp add: started_status_def Let_def)
  moreover have "watch_dsn prom_world sample_rcfg now watch [] = (Inr [], [])" if "pw_Spec watch = pw_Spec prom_watch" for now watch
    by (simp add: watch_dsn_def that) (simp add: usesPrometheusSampleSource_def prom_watch_def sample_watch_def)
  ultimately show ?thesis
    using reconcile_settles [OF manager_inv_new _ prom_reconciled, of "[]" "[]" fed_manager "started_status 5 prom_watch" prom_world 99 "[]" "[]" "\<lambda>u. None"]
    by (auto simp: refreshStatus_def status_update_result_def Let_def)
qed

section \<open>A restart\<close>

text \<open>The durable store after the mirror's writes, some of which may fail, and one retention sweep; and the environment in
  which the operator starts again.\<close>

definition mirrored_tables :: "(gtime \<Rightarrow> gtime) \<Rightarrow> (string option \<times> query_sample) list \<Rightarrow> gtime \<Rightarrow> radar_tables" where
  "mirrored_tables ts ws cutoff = snd (pgs_Prune ts None cutoff (fold (\<lambda>(fault, x) db. snd (pgs_Append ts fault x db)) ws empty_tables))"

definition written :: "(string option \<times> query_sample) list \<Rightarrow> query_sample list" where
  "written ws = map snd (filter (\<lambda>w. fst w = None) ws)"

definition restarted :: "(gtime \<Rightarrow> gtime) \<Rightarrow> radar_tables \<Rightarrow> operator_env \<Rightarrow> operator_env" where
  "restarted ts db env = env\<lparr>oe_stateQueryIDs := pgs_AllQueryIDs no_faults db,
     oe_stateSamples := (\<lambda>q lo hi. pgs_SamplesInRange ts no_faults q lo hi db)\<rparr>"

lemma failed_writes: "fold (\<lambda>(fault, x) db. snd (pgs_Append ts fault x db)) ws db = fold (\<lambda>x db. snd (pgs_Append ts None x db)) (written ws) db"
  by (induction ws arbitrary: db) (auto simp: written_def pgs_Append_def)

text \<open>C10: After a restart the operator loads exactly the samples that the mirror wrote without an error, that no sweep removed
  and that lie in its window, each as often as it was written, and with its fields as they were: only
  the time is at the resolution of the database, and the fingerprint, which is not stored, is
  recomputed from the text.\<close>

theorem restart_restores_samples:
  assumes "pg_resolution ts" "list_all (\<lambda>w. qs_Fingerprint (snd w) = fingerprintQuery (qs_QueryText (snd w))) ws"
  shows "\<exists>ss. backfill_samples (restarted ts (mirrored_tables ts ws cutoff) env) since = Some ss \<and>
    mset (map with_fingerprint ss) = mset (map (\<lambda>x. x\<lparr>qs_RecordedAt := ts (qs_RecordedAt x)\<rparr>)
      (filter (\<lambda>x. max (ts since) (ts cutoff) \<le> ts (qs_RecordedAt x) \<and> ts (qs_RecordedAt x) \<le> ts (oe_now env)) (written ws)))"
proof -
  obtain k where ts: "ts = keeps k" using assms(1) keeps_cases [of ts] by auto
  let ?db = "mirrored_tables ts ws cutoff"
  let ?ss = "concat (map (\<lambda>q. right_of (pgs_SamplesInRange ts no_faults q since (oe_now env) ?db)) (right_of (pgs_AllQueryIDs no_faults ?db)))"
  let ?sel = "filter (\<lambda>x. max (ts since) (ts cutoff) \<le> ts (qs_RecordedAt x) \<and> ts (qs_RecordedAt x) \<le> ts (oe_now env)) (written ws)"
  have "mset ?ss = mset (map (pg_stored ts) ?sel)"
    unfolding ts mirrored_tables_def failed_writes by (rule pg_store.history_ranges) (simp_all add: pg_samples_def empty_tables_def)
  then have "mset (map with_fingerprint ?ss) = mset (map with_fingerprint (map (pg_stored ts) ?sel))"
    by (simp only: mset_map [of with_fingerprint])
  also have "map with_fingerprint (map (pg_stored ts) ?sel) = map (\<lambda>x. x\<lparr>qs_RecordedAt := ts (qs_RecordedAt x)\<rparr>) ?sel"
    using assms(2) by (auto simp: list_all_iff written_def with_fingerprint_stored)
  finally have "mset (map with_fingerprint ?ss) = mset (map (\<lambda>x. x\<lparr>qs_RecordedAt := ts (qs_RecordedAt x)\<rparr>) ?sel)" .
  moreover have "backfill_samples (restarted ts ?db env) since = Some ?ss"
    by (simp add: backfill_samples_def restarted_def pgs_ids_eq pgs_range_eq right_of_def)
  ultimately show ?thesis by blast
qed

theorem restart_restores_samples_witness:
  "\<exists>ss. backfill_samples (restarted micro (mirrored_tables micro sample_writes 5000) (sample_env\<lparr>oe_now := 20000\<rparr>)) 0 = Some ss \<and>
    map with_fingerprint ss = [fp_sample 2 9000]"
proof -
  have "list_all (\<lambda>w. qs_Fingerprint (snd w) = fingerprintQuery (qs_QueryText (snd w))) sample_writes"
    by (simp add: sample_writes_def fp_sample_def with_fingerprint_def)
  from restart_restores_samples [OF micro_resolution this, of 5000 "sample_env\<lparr>oe_now := 20000\<rparr>" 0] obtain ss where
    "backfill_samples (restarted micro (mirrored_tables micro sample_writes 5000) (sample_env\<lparr>oe_now := 20000\<rparr>)) 0 = Some ss"
    "mset (map with_fingerprint ss) = {#fp_sample 2 9000#}"
    by (auto simp: micro_def written_def sample_writes_def fp_sample_def sample_at_def with_fingerprint_def)
  then show ?thesis by (metis mset_single_iff_right)
qed

end
